(* ===== verification/Mesh_Prelude.thy ===== *)
theory Mesh_Prelude
  imports Main "HOL-Library.Word" "HOL-Library.List_Lexorder" "HOL-Library.AList" "HOL-Library.Multiset"
begin

text \<open>
  Shared vocabulary of the development: the JavaScript values the packages compute
  with, and the lemmas on lists, association lists and sums that the component theories
  share.

  \<^item> A JavaScript string is the list of its UTF-16 code units (\<open>jstring\<close>), so that
    \<open>length\<close> is \<open>.length\<close> and the lexicographic order of \<open>List_Lexorder\<close> is the
    built-in \<open><\<close>; \<open>js\<close> embeds an ASCII literal.
  \<^item> A \<open>Uint8Array\<close> is a list of bytes.
  \<^item> A \<open>Map\<close> is an association list kept in insertion order: \<open>AList.update\<close> overwrites
    in place and appends a new key, as \<open>Map.prototype.set\<close> does; \<open>js_uniq\<close> is the
    element order of \<open>new Set(xs)\<close>.
  \<^item> An operation that may throw returns a sum, \<open>Inl\<close> the error.
\<close>

section \<open>Values\<close>

type_synonym jstring = "16 word list"
type_synonym bytes = "8 word list"

definition js :: "string \<Rightarrow> jstring" where
  "js s = map of_char s"

text \<open>\<open>Number.isSafeInteger\<close> on a number that is an integer.\<close>

definition max_safe_integer :: int where
  "max_safe_integer = 9007199254740991"

definition is_safe_integer :: "int \<Rightarrow> bool" where
  "is_safe_integer n \<longleftrightarrow> - max_safe_integer \<le> n \<and> n \<le> max_safe_integer"

definition starts_with :: "jstring \<Rightarrow> jstring \<Rightarrow> bool" where
  "starts_with p s \<longleftrightarrow> take (length p) s = p"

text \<open>The characters \<open>String.prototype.trim\<close> removes: ECMAScript white space and line
  terminators.\<close>

definition js_space :: "16 word \<Rightarrow> bool" where
  "js_space c \<longleftrightarrow> c \<in> {0x09, 0x0A, 0x0B, 0x0C, 0x0D, 0x20, 0xA0, 0x1680, 0x2028, 0x2029,
     0x202F, 0x205F, 0x3000, 0xFEFF} \<or> (0x2000 \<le> c \<and> c \<le> 0x200A)"

definition js_trim :: "jstring \<Rightarrow> jstring" where
  "js_trim s = rev (dropWhile js_space (rev (dropWhile js_space s)))"

text \<open>\<open>[...s].length\<close>: a high surrogate followed by a low one is one code point.\<close>

fun code_points :: "jstring \<Rightarrow> nat" where
  "code_points [] = 0"
| "code_points [c] = 1"
| "code_points (c # d # s) =
     (if 0xD800 \<le> c \<and> c \<le> 0xDBFF \<and> 0xDC00 \<le> d \<and> d \<le> 0xDFFF
      then Suc (code_points s) else Suc (code_points (d # s)))"

text \<open>\<open>[...new Set(xs)]\<close>: first occurrences, in order.\<close>

fun js_uniq_acc :: "'a list \<Rightarrow> 'a list \<Rightarrow> 'a list" where
  "js_uniq_acc acc [] = acc"
| "js_uniq_acc acc (x # xs) = js_uniq_acc (if x \<in> set acc then acc else acc @ [x]) xs"

definition js_uniq :: "'a list \<Rightarrow> 'a list" where
  "js_uniq xs = js_uniq_acc [] xs"

text \<open>\<open>xs.splice(i, 1)\<close>: the list without the element at \<open>i\<close>.\<close>

definition remove_nth :: "nat \<Rightarrow> 'a list \<Rightarrow> 'a list" where
  "remove_nth i xs = take i xs @ drop (Suc i) xs"

text \<open>\<open>Array.prototype.sort\<close> with a comparison function, stable; \<open>le x y\<close> is \<open>compare(x, y) \<le> 0\<close>.\<close>

fun insert_by :: "('a \<Rightarrow> 'a \<Rightarrow> bool) \<Rightarrow> 'a \<Rightarrow> 'a list \<Rightarrow> 'a list" where
  "insert_by le x [] = [x]"
| "insert_by le x (y # ys) = (if le x y then x # y # ys else y # insert_by le x ys)"

definition js_sort :: "('a \<Rightarrow> 'a \<Rightarrow> bool) \<Rightarrow> 'a list \<Rightarrow> 'a list" where
  "js_sort le xs = foldr (insert_by le) xs []"

text \<open>Sequencing of operations that may throw.\<close>

definition bind_r :: "'e + 'a \<Rightarrow> ('a \<Rightarrow> 'e + 'b) \<Rightarrow> 'e + 'b" where
  "bind_r m f = (case m of Inl e \<Rightarrow> Inl e | Inr x \<Rightarrow> f x)"

definition assert_r :: "bool \<Rightarrow> 'e \<Rightarrow> 'e + unit" where
  "assert_r b e = (if b then Inr () else Inl e)"

text \<open>An \<open>async\<close> function that threads a state: how its promise settles, and the state afterwards.\<close>

type_synonym ('s, 'e, 'a) action = "'s \<Rightarrow> ('e + 'a) \<times> 's"

definition ret :: "'a \<Rightarrow> ('s, 'e, 'a) action" where
  "ret x s = (Inr x, s)"

definition throw :: "'e \<Rightarrow> ('s, 'e, 'a) action" where
  "throw e s = (Inl e, s)"

definition bind_s :: "('s, 'e, 'a) action \<Rightarrow> ('a \<Rightarrow> ('s, 'e, 'b) action) \<Rightarrow> ('s, 'e, 'b) action" where
  "bind_s m f s = (case m s of (Inl e, s') \<Rightarrow> (Inl e, s') | (Inr x, s') \<Rightarrow> f x s')"

definition require :: "bool \<Rightarrow> 'e \<Rightarrow> ('s, 'e, unit) action" where
  "require b e = (if b then ret () else throw e)"

text \<open>A value of type \<open>unknown\<close>: parsed JSON, a structured clone or a message. Integers of
  magnitude below \<open>10 ^ 21\<close>, which print in plain decimal, are \<open>JNum\<close>; zero of either sign is
  \<open>JNum 0\<close>; other numbers (fractions, larger ones, \<open>NaN\<close> and the infinities) are kept apart by their bits, and no code here computes with them.\<close>

datatype jsval =
    JUndef
  | JNull
  | JBool bool
  | JNum int
  | JNumOther "64 word"
  | JStr jstring
  | JBytes bytes
  | JArr "jsval list"
  | JObj "(jstring \<times> jsval) list"

text \<open>\<open>value?.key\<close>.\<close>

fun js_prop :: "jsval \<Rightarrow> jstring \<Rightarrow> jsval" where
  "js_prop (JObj ps) k = (case map_of ps k of None \<Rightarrow> JUndef | Some v \<Rightarrow> v)"
| "js_prop v k = JUndef"

text \<open>Conversion to a boolean, the keys of an object, and equality of a value with a string.\<close>

definition is_nan :: "64 word \<Rightarrow> bool" where
  "is_nan w \<longleftrightarrow> unat w div 2 ^ 52 mod 2 ^ 11 = 2047 \<and> unat w mod 2 ^ 52 \<noteq> 0"

fun js_truthy :: "jsval \<Rightarrow> bool" where
  "js_truthy JUndef = False"
| "js_truthy JNull = False"
| "js_truthy (JBool b) = b"
| "js_truthy (JNum n) = (n \<noteq> 0)"
| "js_truthy (JNumOther w) = (\<not> is_nan w)"
| "js_truthy (JStr s) = (s \<noteq> [])"
| "js_truthy v = True"

text \<open>\<open>===\<close>: distinct objects are never equal, and neither is \<open>NaN\<close> with itself.\<close>

fun js_eq :: "jsval \<Rightarrow> jsval \<Rightarrow> bool" where
  "js_eq (JNumOther v) w = (JNumOther v = w \<and> \<not> is_nan v)"
| "js_eq (JBytes b) w = False"
| "js_eq (JArr vs) w = False"
| "js_eq (JObj ps) w = False"
| "js_eq v w = (v = w)"

text \<open>\<open>value !== null && typeof value === "object" && !Array.isArray(value)\<close>.\<close>

fun is_record :: "jsval \<Rightarrow> bool" where
  "is_record (JObj ps) = True"
| "is_record (JBytes bs) = True"
| "is_record v = False"

fun js_str :: "jsval \<Rightarrow> jstring option" where
  "js_str (JStr s) = Some s"
| "js_str v = None"

text \<open>\<open>Array.isArray(v) \<and> v.every(x \<Rightarrow> typeof x === "string")\<close>, with the strings.\<close>

fun js_strs :: "jsval \<Rightarrow> jstring list option" where
  "js_strs (JArr vs) = those (map js_str vs)"
| "js_strs v = None"

section \<open>Lemmas\<close>

named_theorems result_simps \<open>sequencing of operations that may throw\<close>

lemma bind_r_Inl [simp, result_simps]: "bind_r (Inl e) f = Inl e"
  by (simp add: bind_r_def)

lemma bind_r_Inr [simp, result_simps]: "bind_r (Inr x) f = f x"
  by (simp add: bind_r_def)

lemma bind_r_cong [fundef_cong]:
  "m = m' \<Longrightarrow> (\<And>x. m' = Inr x \<Longrightarrow> f x = g x) \<Longrightarrow> bind_r m f = bind_r m' g"
  by (cases m') auto

lemma bind_r_eq_Inr [result_simps]: "bind_r m f = Inr y \<longleftrightarrow> (\<exists>x. m = Inr x \<and> f x = Inr y)"
  by (cases m) (auto simp: bind_r_def)

lemma bind_r_InrE:
  assumes "bind_r m f = Inr y"
  obtains x where "m = Inr x" "f x = Inr y"
  using assms by (cases m) auto

lemma bind_r_eq_Inl [result_simps]:
  "bind_r m f = Inl e \<longleftrightarrow> m = Inl e \<or> (\<exists>x. m = Inr x \<and> f x = Inl e)"
  by (cases m) (auto simp: bind_r_def)

lemma assert_r_eq_Inr [simp, result_simps]: "assert_r b e = Inr u \<longleftrightarrow> b"
  by (simp add: assert_r_def)

lemma assert_r_eq_Inl [simp, result_simps]: "assert_r b e = Inl e' \<longleftrightarrow> \<not> b \<and> e' = e"
  by (auto simp: assert_r_def)

text \<open>A property \<open>Q\<close> of the state, and \<open>R\<close> of the value, that an action establishes from \<open>P\<close> whether it
  returns or throws: the rules below compute it along the code.\<close>

definition keeps :: "('s \<Rightarrow> bool) \<Rightarrow> ('s, 'e, 'a) action \<Rightarrow> ('a \<Rightarrow> 's \<Rightarrow> bool) \<Rightarrow> ('s \<Rightarrow> bool) \<Rightarrow> bool" where
  "keeps P m R Q \<longleftrightarrow> (\<forall>s. P s \<longrightarrow> (case m s of (Inl e, s') \<Rightarrow> Q s' | (Inr x, s') \<Rightarrow> R x s'))"

lemma keeps_ret: "(\<And>s. P s \<Longrightarrow> R x s) \<Longrightarrow> keeps P (ret x) R Q"
  by (simp add: keeps_def ret_def)

lemma keeps_throw: "(\<And>s. P s \<Longrightarrow> Q s) \<Longrightarrow> keeps P (throw e) R Q"
  by (simp add: keeps_def throw_def)

lemma keeps_bind:
  assumes m: "keeps P m R Q" and f: "\<And>x. keeps (R x) (f x) T Q"
  shows "keeps P (bind_s m f) T Q"
  unfolding keeps_def
proof (intro allI impI)
  fix s assume "P s"
  with m have m': "case m s of (Inl e, s') \<Rightarrow> Q s' | (Inr x, s') \<Rightarrow> R x s'" by (simp add: keeps_def)
  obtain r s' where ms: "m s = (r, s')" by (cases "m s")
  show "case bind_s m f s of (Inl e, s') \<Rightarrow> Q s' | (Inr x, s') \<Rightarrow> T x s'"
  proof (cases r)
    case (Inl e)
    with ms m' show ?thesis by (simp add: bind_s_def)
  next
    case (Inr x)
    with ms m' f [of x] show ?thesis by (simp add: bind_s_def keeps_def)
  qed
qed

lemma keeps_require: "(\<And>s. P s \<Longrightarrow> b \<Longrightarrow> R () s) \<Longrightarrow> (\<And>s. P s \<Longrightarrow> \<not> b \<Longrightarrow> Q s) \<Longrightarrow> keeps P (require b e) R Q"
  by (simp add: keeps_def require_def ret_def throw_def)

lemma keeps_if:
  "(b \<Longrightarrow> keeps P m R Q) \<Longrightarrow> (\<not> b \<Longrightarrow> keeps P m' R Q) \<Longrightarrow> keeps P (if b then m else m') R Q"
  by simp

lemma keeps_conseq:
  assumes "keeps P' m R' Q'" "\<And>s. P s \<Longrightarrow> P' s" "\<And>x s. R' x s \<Longrightarrow> R x s" "\<And>s. Q' s \<Longrightarrow> Q s"
  shows "keeps P m R Q"
  using assms unfolding keeps_def by (fastforce split: prod.splits sum.splits)

lemma keepsD: "keeps P m R Q \<Longrightarrow> P s \<Longrightarrow> m s = (r, s') \<Longrightarrow> (case r of Inl e \<Rightarrow> Q s' | Inr x \<Rightarrow> R x s')"
  by (auto simp: keeps_def split: prod.splits sum.splits)

lemma js_eq_JStr [simp]: "js_eq v (JStr s) \<longleftrightarrow> v = JStr s" "js_eq (JStr s) v \<longleftrightarrow> v = JStr s"
  by (cases v; auto)+

lemma js_eq_eq: "js_eq v w \<Longrightarrow> v = w"
  by (cases v) auto

lemma js_uniq_acc_set: "set (js_uniq_acc acc xs) = set acc \<union> set xs"
  by (induction xs arbitrary: acc) auto

lemma js_uniq_acc_distinct: "distinct acc \<Longrightarrow> distinct (js_uniq_acc acc xs)"
  by (induction xs arbitrary: acc) auto

lemma set_js_uniq [simp]: "set (js_uniq xs) = set xs"
  by (simp add: js_uniq_def js_uniq_acc_set)

lemma distinct_js_uniq [simp]: "distinct (js_uniq xs)"
  by (simp add: js_uniq_def js_uniq_acc_distinct)

lemma length_remove_nth [simp]: "i < length xs \<Longrightarrow> length (remove_nth i xs) = length xs - 1"
  by (simp add: remove_nth_def)

lemma remove_nth_split: "remove_nth (length xs) (xs @ x # ys) = xs @ ys"
  by (simp add: remove_nth_def)

lemma set_remove_nth: "set (remove_nth i xs) \<subseteq> set xs"
  by (auto simp: remove_nth_def dest: in_set_takeD in_set_dropD)

lemma length_filter_filter_le: "length (filter P (filter Q xs)) \<le> length (filter P xs)"
  by (induction xs) auto

lemma nth_remove_nth [simp]: "j < i \<Longrightarrow> i < length xs \<Longrightarrow> remove_nth i xs ! j = xs ! j"
  by (simp add: remove_nth_def nth_append)

lemma map_remove_nth: "map f (remove_nth i xs) = remove_nth i (map f xs)"
  by (simp add: remove_nth_def take_map drop_map)

lemma distinct_remove_nth: "distinct xs \<Longrightarrow> distinct (remove_nth i xs)"
  by (simp add: remove_nth_def set_take_disj_set_drop_if_distinct)

lemma mset_remove_nth:
  "i < length xs \<Longrightarrow> add_mset (xs ! i) (mset (remove_nth i xs)) = mset xs"
  by (metis remove_nth_def id_take_nth_drop mset_append mset.simps(2) union_mset_add_mset_right)

lemma mset_filter_partition:
  "mset (map f (filter P xs)) + mset (map f (filter (\<lambda>x. \<not> P x) xs)) = mset (map f xs)"
  by (induction xs) auto

lemma starts_with_append [simp]: "starts_with p (p @ s)"
  by (simp add: starts_with_def)

lemma starts_with_iff: "starts_with p s \<longleftrightarrow> (\<exists>t. s = p @ t)"
  by (metis append_eq_conv_conj append_take_drop_id starts_with_def)

lemma mset_insert_by [simp]: "mset (insert_by le x ys) = add_mset x (mset ys)"
  by (induction ys) auto

lemma mset_js_sort [simp]: "mset (js_sort le xs) = mset xs"
  by (induction xs) (simp_all add: js_sort_def)

lemma set_js_sort [simp]: "set (js_sort le xs) = set xs"
  by (metis mset_js_sort set_mset_mset)

lemma length_js_sort [simp]: "length (js_sort le xs) = length xs"
  by (metis mset_js_sort size_mset)

lemma distinct_js_sort: "distinct (map f (js_sort le xs)) = distinct (map f xs)"
  by (metis mset_eq_imp_distinct_iff mset_js_sort mset_map)

lemma map_of_perm: "mset xs = mset ys \<Longrightarrow> distinct (map fst xs) \<Longrightarrow> map_of xs = map_of ys"
proof -
  assume a: "mset xs = mset ys" "distinct (map fst xs)"
  then have "distinct (map fst ys)"
    using mset_eq_imp_distinct_iff [of "map fst xs" "map fst ys"] by simp
  with a show ?thesis
    using map_of_inject_set [of xs ys] mset_eq_setD [of xs ys] by simp
qed

end
