(* ===== verification/Read_Budget.thy ===== *)
theory Read_Budget
  imports Mesh_Prelude
begin

text \<open>
  The per-peer read budget of \<open>packages/mesh-transport/src/readBudget.ts\<close>: the classes
  \<open>MeshReadBudget\<close> and \<open>ReadLease\<close>. Lease objects are addresses into \<open>lease_obj\<close>; a
  queued \<open>request\<close> promise is a waiter with an identifier, and settling it is an event
  \<open>Resolve\<close> or \<open>Reject\<close>. \<open>Date.now()\<close> is the argument \<open>now\<close>.

  Shown: the counters are exactly the sum of the live reservations and never pass the
  limits; a waiter that fits is never left in the queue; every queued promise is settled
  exactly once.
\<close>

section \<open>State\<close>

record read_limits =
  lim_bytes :: int
  lim_frames :: int
  lim_headers :: int
  lim_deadline_ms :: int

record read_reservation =
  res_bytes :: int
  res_payload :: bool

record read_lease =
  staged :: bool
  reservation :: read_reservation

datatype read_error =
    ConcurrencyExceeded      \<comment> \<open>Mesh stream concurrency limit exceeded\<close>
  | ReadCancelled            \<comment> \<open>Mesh stream read was cancelled\<close>
  | FrameExceedsBudget       \<comment> \<open>Mesh frame exceeds peer read budget\<close>
  | QueuedDeadline           \<comment> \<open>Mesh stream read deadline exceeded while queued\<close>
  | StreamDeadline           \<comment> \<open>Mesh stream read deadline exceeded\<close>
  | ConnectionClosed         \<comment> \<open>Mesh connection closed\<close>

record read_waiter =
  w_id :: nat
  w_lease :: nat
  w_target :: read_reservation

datatype settlement = Resolve nat | Reject nat read_error

record read_budget =
  limits :: read_limits
  used_bytes :: int
  used_frames :: int
  leases :: "nat list"
  waiting :: "read_waiter list"
  lease_obj :: "nat \<Rightarrow> read_lease"
  next_lease :: nat
  next_waiter :: nat
  last_used :: int

definition no_reservation :: read_reservation where
  "no_reservation = \<lparr>res_bytes = 0, res_payload = False\<rparr>"

definition new_budget :: "read_limits \<Rightarrow> int \<Rightarrow> read_budget" where
  "new_budget lim now = \<lparr>limits = lim, used_bytes = 0, used_frames = 0, leases = [], waiting = [],
     lease_obj = (\<lambda>_. \<lparr>staged = False, reservation = no_reservation\<rparr>),
     next_lease = 0, next_waiter = 0, last_used = now\<rparr>"

section \<open>Operations\<close>

definition budget_idle :: "read_budget \<Rightarrow> bool" where
  "budget_idle b \<longleftrightarrow> leases b = []"

definition lease_bytes :: "read_budget \<Rightarrow> nat \<Rightarrow> int" where
  "lease_bytes b l = res_bytes (reservation (lease_obj b l))"

definition lease_frame :: "read_budget \<Rightarrow> nat \<Rightarrow> int" where
  "lease_frame b l = of_bool (res_payload (reservation (lease_obj b l)))"

definition same_kind :: "read_budget \<Rightarrow> bool \<Rightarrow> nat list" where
  "same_kind b s = filter (\<lambda>l. staged (lease_obj b l) = s) (leases b)"

definition kind_limit :: "read_limits \<Rightarrow> bool \<Rightarrow> int" where
  "kind_limit lim s = (if s then lim_headers lim else lim_frames lim * 2)"

definition create_lease :: "read_budget \<Rightarrow> bool \<Rightarrow> read_error + nat \<times> read_budget" where
  "create_lease b s =
     (if kind_limit (limits b) s \<le> int (length (same_kind b s)) then Inl ConcurrencyExceeded
      else Inr (next_lease b,
        b\<lparr>leases := leases b @ [next_lease b],
          lease_obj := (lease_obj b)(next_lease b := \<lparr>staged = s, reservation = no_reservation\<rparr>),
          next_lease := Suc (next_lease b)\<rparr>))"

definition available :: "read_budget \<Rightarrow> nat \<Rightarrow> read_reservation \<Rightarrow> bool" where
  "available b l t \<longleftrightarrow>
     used_bytes b - lease_bytes b l + res_bytes t \<le> lim_bytes (limits b) \<and>
     used_frames b - lease_frame b l + of_bool (res_payload t) \<le> lim_frames (limits b)"

definition assign :: "int \<Rightarrow> read_budget \<Rightarrow> nat \<Rightarrow> read_reservation \<Rightarrow> read_budget" where
  "assign now b l t =
     b\<lparr>used_bytes := used_bytes b + (res_bytes t - lease_bytes b l),
       used_frames := used_frames b + (of_bool (res_payload t) - lease_frame b l),
       lease_obj := (lease_obj b)(l := (lease_obj b l)\<lparr>reservation := t\<rparr>),
       last_used := now\<rparr>"

datatype request_outcome = Rejected read_error | Granted | Queued nat

definition request :: "int \<Rightarrow> read_budget \<Rightarrow> nat \<Rightarrow> read_reservation \<Rightarrow> request_outcome \<times> read_budget" where
  "request now b l t =
     (if l \<notin> set (leases b) then (Rejected ReadCancelled, b)
      else if lim_bytes (limits b) < res_bytes t then (Rejected FrameExceedsBudget, b)
      else if available b l t then (Granted, assign now b l t)
      else (Queued (next_waiter b),
        b\<lparr>waiting := waiting b @ [\<lparr>w_id = next_waiter b, w_lease = l, w_target = t\<rparr>],
          next_waiter := Suc (next_waiter b)\<rparr>))"

text \<open>\<open>cancel\<close> walks the queue from its end, splicing out the waiters of one lease.\<close>

fun cancel_loop :: "nat \<Rightarrow> read_error \<Rightarrow> nat \<Rightarrow> read_waiter list \<Rightarrow> settlement list
    \<Rightarrow> read_waiter list \<times> settlement list" where
  "cancel_loop l err 0 ws evs = (ws, evs)"
| "cancel_loop l err (Suc i) ws evs =
     (if w_lease (ws ! i) \<noteq> l then cancel_loop l err i ws evs
      else cancel_loop l err i (remove_nth i ws) (evs @ [Reject (w_id (ws ! i)) err]))"

definition cancel :: "read_budget \<Rightarrow> nat \<Rightarrow> read_error \<Rightarrow> read_budget \<times> settlement list" where
  "cancel b l err =
     (let (ws, evs) = cancel_loop l err (length (waiting b)) (waiting b) []
      in (b\<lparr>waiting := ws\<rparr>, evs))"

text \<open>The timer of a queued request: it is cleared when the waiter leaves the queue, so it
  only ever fires for a waiter that is still queued.\<close>

definition deadline_fired :: "read_budget \<Rightarrow> nat \<Rightarrow> read_budget \<times> settlement list" where
  "deadline_fired b i =
     (case find (\<lambda>w. w_id w = i) (waiting b) of
        None \<Rightarrow> (b, [])
      | Some w \<Rightarrow> cancel b (w_lease w) QueuedDeadline)"

text \<open>The loop at the end of \<open>release\<close>: every waiter that now fits is granted, in queue order.\<close>

function release_loop :: "int \<Rightarrow> nat \<Rightarrow> read_budget \<Rightarrow> settlement list \<Rightarrow> read_budget \<times> settlement list" where
  "release_loop now i b evs =
     (if i < length (waiting b) then
        (let w = waiting b ! i in
         if \<not> available b (w_lease w) (w_target w) then release_loop now (Suc i) b evs
         else release_loop now i
                (assign now (b\<lparr>waiting := remove_nth i (waiting b)\<rparr>) (w_lease w) (w_target w))
                (evs @ [Resolve (w_id w)]))
      else (b, evs))"
  by pat_completeness auto
termination
  by (relation "measure (\<lambda>(now, i, b, evs). length (waiting b) - i)") (auto simp: assign_def)

definition release :: "int \<Rightarrow> read_budget \<Rightarrow> nat \<Rightarrow> read_budget \<times> settlement list" where
  "release now b l =
     (if l \<notin> set (leases b) then (b, [])
      else
        (let b1 = b\<lparr>leases := removeAll l (leases b)\<rparr>;
             (b2, evs) = cancel b1 l ReadCancelled;
             b3 = b2\<lparr>used_bytes := used_bytes b2 - lease_bytes b2 l,
                     used_frames := used_frames b2 - lease_frame b2 l,
                     last_used := now\<rparr>
         in release_loop now 0 b3 evs))"

declare release_loop.simps [simp del]

section \<open>Invariant\<close>

definition held_bytes :: "read_budget \<Rightarrow> int" where
  "held_bytes b = sum_list (map (lease_bytes b) (leases b))"

definition held_frames :: "read_budget \<Rightarrow> int" where
  "held_frames b = sum_list (map (lease_frame b) (leases b))"

definition budget_inv :: "read_budget \<Rightarrow> bool" where
  "budget_inv b \<longleftrightarrow>
     distinct (leases b) \<and> (\<forall>l \<in> set (leases b). l < next_lease b \<and> 0 \<le> lease_bytes b l) \<and>
     used_bytes b = held_bytes b \<and> used_frames b = held_frames b \<and>
     used_bytes b \<le> lim_bytes (limits b) \<and> used_frames b \<le> lim_frames (limits b) \<and>
     (\<forall>w \<in> set (waiting b). w_lease w \<in> set (leases b) \<and> 0 \<le> res_bytes (w_target w)) \<and>
     (\<forall>s. int (length (same_kind b s)) \<le> kind_limit (limits b) s)"

text \<open>The discipline of the callers: a lease asks for no less than it already holds, and waits
  for one answer before it asks again.\<close>

definition dominates :: "read_budget \<Rightarrow> nat \<Rightarrow> read_reservation \<Rightarrow> bool" where
  "dominates b l t \<longleftrightarrow> lease_bytes b l \<le> res_bytes t \<and> lease_frame b l \<le> of_bool (res_payload t)"

definition grows :: "read_budget \<Rightarrow> bool" where
  "grows b \<longleftrightarrow> distinct (map w_lease (waiting b)) \<and>
     (\<forall>w \<in> set (waiting b). dominates b (w_lease w) (w_target w))"

definition work_conserving :: "read_budget \<Rightarrow> bool" where
  "work_conserving b \<longleftrightarrow> (\<forall>w \<in> set (waiting b). \<not> available b (w_lease w) (w_target w))"

fun settled_id :: "settlement \<Rightarrow> nat" where
  "settled_id (Resolve i) = i"
| "settled_id (Reject i e) = i"

text \<open>Runs of one budget, with the log of the promises settled so far.\<close>

inductive budget_run :: "read_limits \<Rightarrow> read_budget \<Rightarrow> settlement list \<Rightarrow> bool" for lim where
  run_new: "0 \<le> lim_bytes lim \<Longrightarrow> 0 \<le> lim_frames lim \<Longrightarrow> 0 \<le> lim_headers lim \<Longrightarrow>
    budget_run lim (new_budget lim now) []"
| run_create: "budget_run lim b log \<Longrightarrow> create_lease b s = Inr (l, b') \<Longrightarrow> budget_run lim b' log"
| run_request: "budget_run lim b log \<Longrightarrow> 0 \<le> res_bytes t \<Longrightarrow> dominates b l t \<Longrightarrow>
    l \<notin> w_lease ` set (waiting b) \<Longrightarrow> request now b l t = (r, b') \<Longrightarrow> budget_run lim b' log"
| run_cancel: "budget_run lim b log \<Longrightarrow> cancel b l err = (b', evs) \<Longrightarrow> budget_run lim b' (log @ evs)"
| run_deadline: "budget_run lim b log \<Longrightarrow> deadline_fired b i = (b', evs) \<Longrightarrow>
    budget_run lim b' (log @ evs)"
| run_release: "budget_run lim b log \<Longrightarrow> release now b l = (b', evs) \<Longrightarrow> budget_run lim b' (log @ evs)"

section \<open>Basic facts\<close>

named_theorems budget_defs \<open>definitions the invariant proofs unfold\<close>

lemmas [budget_defs] = budget_inv_def held_bytes_def held_frames_def same_kind_def

lemma drop_remove_nth [simp]: "i < length ws \<Longrightarrow> drop i (remove_nth i ws) = drop (Suc i) ws"
  by (simp add: remove_nth_def)

lemma take_remove_nth [simp]: "i < length ws \<Longrightarrow> take i (remove_nth i ws) = take i ws"
  by (simp add: remove_nth_def)

lemma cancel_loop_eq:
  "i \<le> length ws \<Longrightarrow> cancel_loop l err i ws evs =
     (filter (\<lambda>w. w_lease w \<noteq> l) (take i ws) @ drop i ws,
      evs @ map (\<lambda>w. Reject (w_id w) err) (rev (filter (\<lambda>w. w_lease w = l) (take i ws))))"
proof (induction i arbitrary: ws evs)
  case 0
  then show ?case by simp
next
  case (Suc i)
  then have "i < length ws" by simp
  then show ?case
    using Suc.IH [of ws evs]
      Suc.IH [of "remove_nth i ws" "evs @ [Reject (w_id (ws ! i)) err]"]
    by (simp add: take_Suc_conv_app_nth Cons_nth_drop_Suc)
qed

lemma cancel_eq:
  "cancel b l err = (b\<lparr>waiting := filter (\<lambda>w. w_lease w \<noteq> l) (waiting b)\<rparr>,
     map (\<lambda>w. Reject (w_id w) err) (rev (filter (\<lambda>w. w_lease w = l) (waiting b))))"
  by (simp add: cancel_def cancel_loop_eq)

lemma sum_list_update:
  fixes f :: "'a \<Rightarrow> int"
  shows "distinct xs \<Longrightarrow> l \<in> set xs \<Longrightarrow>
    sum_list (map (f(l := v)) xs) = sum_list (map f xs) + (v - f l)"
proof (induction xs)
  case Nil
  then show ?case by simp
next
  case (Cons x xs)
  show ?case
  proof (cases "x = l")
    case True
    with Cons.prems have "sum_list (map (f(l := v)) xs) = sum_list (map f xs)"
      by (intro arg_cong [of _ _ sum_list] map_cong) auto
    with True show ?thesis by (simp add: fun_upd_def)
  next
    case False
    with Cons show ?thesis by (simp add: fun_upd_def)
  qed
qed

lemma sum_list_removeAll:
  fixes f :: "'a \<Rightarrow> int"
  shows "distinct xs \<Longrightarrow> l \<in> set xs \<Longrightarrow>
    sum_list (map f (removeAll l xs)) = sum_list (map f xs) - f l"
  by (induction xs) (auto simp: removeAll_id)

lemma lease_bytes_assign: "lease_bytes (assign now b l t) = (lease_bytes b)(l := res_bytes t)"
  by (auto simp: assign_def lease_bytes_def)

lemma lease_frame_assign:
  "lease_frame (assign now b l t) = (lease_frame b)(l := of_bool (res_payload t))"
  by (auto simp: assign_def lease_frame_def)

lemma assign_frame [simp]:
  "leases (assign now b l t) = leases b" "waiting (assign now b l t) = waiting b"
  "limits (assign now b l t) = limits b" "next_lease (assign now b l t) = next_lease b"
  "next_waiter (assign now b l t) = next_waiter b"
  "staged (lease_obj (assign now b l t) k) = staged (lease_obj b k)"
  by (simp_all add: assign_def)

lemma assign_counters [simp]:
  "used_bytes (assign now b l t) = used_bytes b + (res_bytes t - lease_bytes b l)"
  "used_frames (assign now b l t) = used_frames b + (of_bool (res_payload t) - lease_frame b l)"
  by (simp_all add: assign_def)

lemma waiting_update_frame [simp]:
  "lease_bytes (b\<lparr>waiting := ws\<rparr>) = lease_bytes b" "lease_frame (b\<lparr>waiting := ws\<rparr>) = lease_frame b"
  "available (b\<lparr>waiting := ws\<rparr>) = available b" "dominates (b\<lparr>waiting := ws\<rparr>) = dominates b"
  by (auto simp: lease_bytes_def lease_frame_def available_def dominates_def fun_eq_iff)

section \<open>Every operation keeps the invariant\<close>

lemma inv_new:
  "0 \<le> lim_bytes lim \<Longrightarrow> 0 \<le> lim_frames lim \<Longrightarrow> 0 \<le> lim_headers lim \<Longrightarrow> budget_inv (new_budget lim now)"
  by (simp add: budget_defs new_budget_def kind_limit_def)

lemma inv_fewer_waiters:
  "budget_inv b \<Longrightarrow> set ws \<subseteq> set (waiting b) \<Longrightarrow> budget_inv (b\<lparr>waiting := ws\<rparr>)"
  by (auto simp: budget_defs)

lemma inv_assign:
  assumes inv: "budget_inv b" and l: "l \<in> set (leases b)" and fit: "available b l t"
    and pos: "0 \<le> res_bytes t"
  shows "budget_inv (assign now b l t)"
proof -
  from inv have d: "distinct (leases b)" by (simp add: budget_defs)
  note upd = sum_list_update [OF d l, of "lease_bytes b" "res_bytes t"]
    sum_list_update [OF d l, of "lease_frame b" "of_bool (res_payload t)"]
  have bounds: "used_bytes b + (res_bytes t - lease_bytes b l) \<le> lim_bytes (limits b)"
    "used_frames b + (of_bool (res_payload t) - lease_frame b l) \<le> lim_frames (limits b)"
    using fit by (simp_all add: available_def)
  show ?thesis
    using inv pos upd bounds
    by (auto simp: budget_defs lease_bytes_assign lease_frame_assign)
qed

lemma same_kind_create:
  assumes "next_lease b \<notin> set (leases b)"
  shows "filter (\<lambda>l. staged (((lease_obj b)(next_lease b := x)) l) = s) (leases b) = same_kind b s"
  using assms by (auto simp: same_kind_def intro!: filter_cong)

lemma inv_create:
  assumes inv: "budget_inv b" and c: "create_lease b s = Inr (l, b')"
  shows "budget_inv b'"
proof -
  let ?n = "next_lease b"
  let ?o = "(lease_obj b)(?n := \<lparr>staged = s, reservation = no_reservation\<rparr>)"
  from c have room: "int (length (same_kind b s)) < kind_limit (limits b) s"
    and b': "b' = b\<lparr>leases := leases b @ [?n], lease_obj := ?o, next_lease := Suc ?n\<rparr>"
    by (auto simp: create_lease_def split: if_splits)
  from inv have fresh: "?n \<notin> set (leases b)" by (auto simp: budget_defs)
  have old: "sum_list (map (lease_bytes b') (leases b)) = sum_list (map (lease_bytes b) (leases b))"
    "sum_list (map (lease_frame b') (leases b)) = sum_list (map (lease_frame b) (leases b))"
    using fresh by (auto simp: b' lease_bytes_def lease_frame_def
      intro!: arg_cong [of _ _ sum_list] map_cong)
  have new: "lease_bytes b' ?n = 0" "lease_frame b' ?n = 0"
    by (simp_all add: b' lease_bytes_def lease_frame_def no_reservation_def)
  have live: "\<And>k. k \<in> set (leases b) \<Longrightarrow> lease_bytes b' k = lease_bytes b k"
    using fresh by (auto simp: b' lease_bytes_def)
  have kinds: "int (length (same_kind b' u)) \<le> kind_limit (limits b) u" for u
    using inv room fresh same_kind_create [OF fresh]
    by (auto simp: b' budget_inv_def same_kind_def)
  have "leases b' = leases b @ [?n]" "used_bytes b' = used_bytes b" "used_frames b' = used_frames b"
    "waiting b' = waiting b" "limits b' = limits b" "next_lease b' = Suc ?n"
    by (simp_all add: b')
  then show ?thesis
    using inv fresh new kinds live old
    by (auto simp: budget_inv_def held_bytes_def held_frames_def less_SucI)
qed

definition enqueue :: "read_budget \<Rightarrow> nat \<Rightarrow> read_reservation \<Rightarrow> read_budget" where
  "enqueue b l t =
     b\<lparr>waiting := waiting b @ [\<lparr>w_id = next_waiter b, w_lease = l, w_target = t\<rparr>],
       next_waiter := Suc (next_waiter b)\<rparr>"

lemma enqueue_frame [simp]:
  "leases (enqueue b l t) = leases b" "limits (enqueue b l t) = limits b"
  "waiting (enqueue b l t) = waiting b @ [\<lparr>w_id = next_waiter b, w_lease = l, w_target = t\<rparr>]"
  "used_bytes (enqueue b l t) = used_bytes b" "used_frames (enqueue b l t) = used_frames b"
  "next_lease (enqueue b l t) = next_lease b" "next_waiter (enqueue b l t) = Suc (next_waiter b)"
  "lease_obj (enqueue b l t) = lease_obj b" "lease_bytes (enqueue b l t) = lease_bytes b"
  "lease_frame (enqueue b l t) = lease_frame b" "available (enqueue b l t) = available b"
  "dominates (enqueue b l t) = dominates b"
  by (auto simp: enqueue_def lease_bytes_def lease_frame_def available_def dominates_def fun_eq_iff)

lemma request_cases:
  assumes "request now b l t = (r, b')"
  obtains (rejected) e where "r = Rejected e" "b' = b"
  | (granted) "r = Granted" "l \<in> set (leases b)" "available b l t" "b' = assign now b l t"
  | (queued) "r = Queued (next_waiter b)" "l \<in> set (leases b)" "\<not> available b l t" "b' = enqueue b l t"
  using assms unfolding request_def enqueue_def by (metis prod.inject)

lemma inv_request:
  assumes inv: "budget_inv b" and pos: "0 \<le> res_bytes t" and r: "request now b l t = (r, b')"
  shows "budget_inv b'"
  using r
proof (cases rule: request_cases)
  case rejected
  with inv show ?thesis by simp
next
  case granted
  with inv pos show ?thesis by (simp add: inv_assign)
next
  case queued
  with inv pos show ?thesis by (auto simp: budget_defs)
qed

lemma inv_cancel: "budget_inv b \<Longrightarrow> cancel b l err = (b', evs) \<Longrightarrow> budget_inv b'"
  by (auto simp: cancel_eq intro: inv_fewer_waiters)

lemma inv_deadline: "budget_inv b \<Longrightarrow> deadline_fired b i = (b', evs) \<Longrightarrow> budget_inv b'"
  by (auto simp: deadline_fired_def split: option.splits intro: inv_cancel)

text \<open>One turn of the \<open>release\<close> loop: the waiter at \<open>i\<close> leaves the queue and is granted.\<close>

definition grant_nth :: "int \<Rightarrow> read_budget \<Rightarrow> nat \<Rightarrow> read_budget" where
  "grant_nth now b i = assign now (b\<lparr>waiting := remove_nth i (waiting b)\<rparr>)
     (w_lease (waiting b ! i)) (w_target (waiting b ! i))"

lemma release_loop_induct [consumes 1, case_names finish skip grant]:
  assumes "release_loop now i b evs = (b', evs')"
    and "\<And>i b evs. length (waiting b) \<le> i \<Longrightarrow> P i b evs b evs"
    and "\<And>i b evs. i < length (waiting b) \<Longrightarrow>
      \<not> available b (w_lease (waiting b ! i)) (w_target (waiting b ! i)) \<Longrightarrow>
      P (Suc i) b evs b' evs' \<Longrightarrow> P i b evs b' evs'"
    and "\<And>i b evs. i < length (waiting b) \<Longrightarrow>
      available b (w_lease (waiting b ! i)) (w_target (waiting b ! i)) \<Longrightarrow>
      P i (grant_nth now b i) (evs @ [Resolve (w_id (waiting b ! i))]) b' evs' \<Longrightarrow> P i b evs b' evs'"
  shows "P i b evs b' evs'"
  using assms(1)
proof (induction "length (waiting b) - i" arbitrary: i b evs rule: less_induct)
  case less
  let ?w = "waiting b ! i"
  note eq = less.prems [unfolded release_loop.simps [of now i b evs] Let_def grant_nth_def [symmetric]]
  show ?case
  proof (cases "i < length (waiting b)")
    case False
    with eq assms(2) show ?thesis by simp
  next
    case i: True
    show ?thesis
    proof (cases "available b (w_lease ?w) (w_target ?w)")
      case False
      with eq i have "release_loop now (Suc i) b evs = (b', evs')" by simp
      with i have "P (Suc i) b evs b' evs'" by (intro less.hyps) auto
      with i False show ?thesis by (rule assms(3))
    next
      case True
      with eq i have "release_loop now i (grant_nth now b i) (evs @ [Resolve (w_id ?w)]) = (b', evs')"
        by simp
      with i have "P i (grant_nth now b i) (evs @ [Resolve (w_id ?w)]) b' evs'"
        by (intro less.hyps) (auto simp: grant_nth_def)
      with i True show ?thesis by (rule assms(4))
    qed
  qed
qed

lemma inv_grant_nth:
  assumes "budget_inv b" "i < length (waiting b)"
    "available b (w_lease (waiting b ! i)) (w_target (waiting b ! i))"
  shows "budget_inv (grant_nth now b i)"
  unfolding grant_nth_def
proof (rule inv_assign)
  show "budget_inv (b\<lparr>waiting := remove_nth i (waiting b)\<rparr>)"
    using assms(1) set_remove_nth by (rule inv_fewer_waiters)
qed (use assms nth_mem [OF assms(2)] in \<open>auto simp: budget_inv_def\<close>)

lemma inv_release_loop: "release_loop now i b evs = (b', evs') \<Longrightarrow> budget_inv b \<Longrightarrow> budget_inv b'"
  by (induction rule: release_loop_induct) (auto intro: inv_grant_nth)

definition drop_lease :: "int \<Rightarrow> read_budget \<Rightarrow> nat \<Rightarrow> read_budget" where
  "drop_lease now b l = b\<lparr>leases := removeAll l (leases b),
     waiting := filter (\<lambda>w. w_lease w \<noteq> l) (waiting b),
     used_bytes := used_bytes b - lease_bytes b l,
     used_frames := used_frames b - lease_frame b l, last_used := now\<rparr>"

lemma drop_lease_frame [simp]:
  "leases (drop_lease now b l) = removeAll l (leases b)" "limits (drop_lease now b l) = limits b"
  "waiting (drop_lease now b l) = filter (\<lambda>w. w_lease w \<noteq> l) (waiting b)"
  "used_bytes (drop_lease now b l) = used_bytes b - lease_bytes b l"
  "used_frames (drop_lease now b l) = used_frames b - lease_frame b l"
  "next_lease (drop_lease now b l) = next_lease b" "next_waiter (drop_lease now b l) = next_waiter b"
  "lease_obj (drop_lease now b l) = lease_obj b" "lease_bytes (drop_lease now b l) = lease_bytes b"
  "lease_frame (drop_lease now b l) = lease_frame b" "dominates (drop_lease now b l) = dominates b"
  by (auto simp: drop_lease_def lease_bytes_def lease_frame_def dominates_def fun_eq_iff)

lemma release_eq:
  "release now b l = (if l \<notin> set (leases b) then (b, [])
     else release_loop now 0 (drop_lease now b l)
       (map (\<lambda>w. Reject (w_id w) ReadCancelled) (rev (filter (\<lambda>w. w_lease w = l) (waiting b)))))"
  by (simp add: release_def cancel_eq drop_lease_def lease_bytes_def lease_frame_def)

lemma lease_frame_nonneg [simp]: "0 \<le> lease_frame b l"
  by (simp add: lease_frame_def)

lemma inv_drop_lease:
  assumes inv: "budget_inv b" and l: "l \<in> set (leases b)"
  shows "budget_inv (drop_lease now b l)"
proof -
  from inv have d: "distinct (leases b)" by (simp add: budget_defs)
  have kinds: "int (length (same_kind (drop_lease now b l) s)) \<le> kind_limit (limits b) s" for s
  proof -
    have "length (same_kind (drop_lease now b l) s) \<le> length (same_kind b s)"
      by (simp add: same_kind_def removeAll_filter_not_eq length_filter_filter_le del: filter_filter)
    with inv show ?thesis unfolding budget_inv_def by (metis of_nat_mono order_trans)
  qed
  have pos: "0 \<le> lease_bytes b l" using inv l by (simp add: budget_defs)
  have "used_bytes b - lease_bytes b l \<le> lim_bytes (limits b)"
    "used_frames b - lease_frame b l \<le> lim_frames (limits b)"
    using inv pos lease_frame_nonneg [of b l] unfolding budget_inv_def by linarith+
  then show ?thesis
    using inv kinds sum_list_removeAll [OF d l, of "lease_bytes b"]
      sum_list_removeAll [OF d l, of "lease_frame b"]
    by (auto simp: budget_inv_def held_bytes_def held_frames_def distinct_removeAll)
qed

lemma inv_release: "budget_inv b \<Longrightarrow> release now b l = (b', evs) \<Longrightarrow> budget_inv b'"
  by (auto simp: release_eq split: if_splits intro: inv_release_loop inv_drop_lease)

section \<open>No waiter that fits is left waiting\<close>

lemma available_assign_other:
  "dominates b l t \<Longrightarrow> k \<noteq> l \<Longrightarrow> available (assign now b l t) k u \<Longrightarrow> available b k u"
  by (auto simp: available_def dominates_def lease_bytes_assign lease_frame_assign)

lemma dominates_assign_other: "k \<noteq> l \<Longrightarrow> dominates (assign now b l t) k u \<longleftrightarrow> dominates b k u"
  by (simp add: dominates_def lease_bytes_assign lease_frame_assign)

lemma grant_nth_waiting [simp]: "waiting (grant_nth now b i) = remove_nth i (waiting b)"
  by (simp add: grant_nth_def)

lemma remove_nth_other_lease:
  assumes "distinct (map w_lease ws)" "i < length ws" "u \<in> set (remove_nth i ws)"
  shows "w_lease u \<noteq> w_lease (ws ! i) \<and> u \<in> set ws"
proof -
  have "ws = take i ws @ ws ! i # drop (Suc i) ws"
    using assms(2) by (rule id_take_nth_drop)
  then have "distinct (map w_lease (take i ws @ ws ! i # drop (Suc i) ws))"
    using assms(1) by simp
  then have "w_lease (ws ! i) \<notin> w_lease ` set (remove_nth i ws)"
    by (auto simp: remove_nth_def)
  then show ?thesis using assms(3) set_remove_nth [of i ws] by (metis image_eqI subsetD)
qed

lemma grows_grant_nth:
  assumes g: "grows b" and i: "i < length (waiting b)"
  shows "grows (grant_nth now b i)"
proof -
  let ?ws = "waiting b"
  from g have d: "distinct (map w_lease ?ws)" by (simp add: grows_def)
  then have "distinct (map w_lease (remove_nth i ?ws))"
    by (simp add: map_remove_nth distinct_remove_nth)
  moreover have "dominates (grant_nth now b i) (w_lease u) (w_target u)"
    if "u \<in> set (remove_nth i ?ws)" for u
    using remove_nth_other_lease [OF d i that] g
    by (auto simp: grows_def grant_nth_def dominates_assign_other)
  ultimately show ?thesis by (simp add: grows_def)
qed

lemma release_loop_work_conserving:
  assumes "release_loop now i b evs = (b', evs')" "grows b"
    "\<forall>j < min i (length (waiting b)). \<not> available b (w_lease (waiting b ! j)) (w_target (waiting b ! j))"
  shows "grows b' \<and> work_conserving b'"
  using assms
proof (induction rule: release_loop_induct)
  case (finish i b evs)
  then show ?case by (auto simp: work_conserving_def in_set_conv_nth)
next
  case (skip i b evs)
  then show ?case by (auto simp: less_Suc_eq)
next
  case (grant i b evs)
  let ?w = "waiting b ! i"
  have d: "distinct (map w_lease (waiting b))" and dom: "dominates b (w_lease ?w) (w_target ?w)"
    using grant.prems(1) grant.hyps(1) by (auto simp: grows_def)
  have "\<not> available (grant_nth now b i) (w_lease (waiting b ! j)) (w_target (waiting b ! j))" if "j < i" for j
  proof -
    have "w_lease (waiting b ! j) \<noteq> w_lease ?w"
      using d that grant.hyps(1) by (simp add: distinct_conv_nth)
    moreover have "\<not> available b (w_lease (waiting b ! j)) (w_target (waiting b ! j))"
      using grant.prems(2) grant.hyps(1) that by simp
    ultimately show ?thesis
      using available_assign_other [of "b\<lparr>waiting := remove_nth i (waiting b)\<rparr>"] dom
      by (auto simp: grant_nth_def)
  qed
  then show ?case
    using grant by (intro grant.IH) (auto simp: grows_grant_nth)
qed

lemma work_conserving_cancel:
  "grows b \<and> work_conserving b \<Longrightarrow> cancel b l err = (b', evs) \<Longrightarrow> grows b' \<and> work_conserving b'"
  by (auto simp: cancel_eq grows_def work_conserving_def distinct_map_filter)

lemma work_conserving_create:
  assumes inv: "budget_inv b" and wc: "grows b \<and> work_conserving b"
    and c: "create_lease b s = Inr (l, b')"
  shows "grows b' \<and> work_conserving b'"
proof -
  from c have b': "b' = b\<lparr>leases := leases b @ [next_lease b], lease_obj := (lease_obj b)
      (next_lease b := \<lparr>staged = s, reservation = no_reservation\<rparr>), next_lease := Suc (next_lease b)\<rparr>"
    by (auto simp: create_lease_def split: if_splits)
  have "w_lease w \<noteq> next_lease b" if "w \<in> set (waiting b)" for w
    using inv that by (fastforce simp: budget_inv_def)
  then show ?thesis
    using wc by (auto simp: b' grows_def work_conserving_def dominates_def available_def
      lease_bytes_def lease_frame_def)
qed

lemma work_conserving_request:
  assumes wc: "grows b \<and> work_conserving b" and dom: "dominates b l t"
    and one: "l \<notin> w_lease ` set (waiting b)" and r: "request now b l t = (r, b')"
  shows "grows b' \<and> work_conserving b'"
  using r
proof (cases rule: request_cases)
  case rejected
  with wc show ?thesis by simp
next
  case granted
  have other: "w_lease w \<noteq> l" if "w \<in> set (waiting b)" for w
    using one that by blast
  have "dominates (assign now b l t) (w_lease w) (w_target w)" if "w \<in> set (waiting b)" for w
    using wc that other [OF that] by (auto simp: grows_def dominates_assign_other)
  moreover have "\<not> available (assign now b l t) (w_lease w) (w_target w)" if "w \<in> set (waiting b)" for w
    using wc that available_assign_other [OF dom other [OF that]] by (auto simp: work_conserving_def)
  ultimately show ?thesis
    using wc granted by (simp add: grows_def work_conserving_def)
next
  case queued
  with wc dom one show ?thesis by (auto simp: grows_def work_conserving_def)
qed

lemma work_conserving_release:
  assumes wc: "grows b \<and> work_conserving b" and r: "release now b l = (b', evs)"
  shows "grows b' \<and> work_conserving b'"
proof (cases "l \<in> set (leases b)")
  case False
  with wc r show ?thesis by (simp add: release_eq)
next
  case True
  have "grows (drop_lease now b l)"
    using wc by (auto simp: grows_def distinct_map_filter)
  with True r show ?thesis
    using release_loop_work_conserving [of now 0 "drop_lease now b l" _ b' evs]
    by (simp add: release_eq)
qed

lemma limits_create: "create_lease b s = Inr (l, b') \<Longrightarrow> limits b' = limits b"
  by (auto simp: create_lease_def split: if_splits)

lemma limits_request: "request now b l t = (r, b') \<Longrightarrow> limits b' = limits b"
  by (erule request_cases) simp_all

lemma limits_cancel: "cancel b l err = (b', evs) \<Longrightarrow> limits b' = limits b"
  by (auto simp: cancel_eq)

lemma limits_release_loop: "release_loop now i b evs = (b', evs') \<Longrightarrow> limits b' = limits b"
  by (induction rule: release_loop_induct) (simp_all add: grant_nth_def)

lemma limits_release: "release now b l = (b', evs) \<Longrightarrow> limits b' = limits b"
  by (auto simp: release_eq split: if_splits dest: limits_release_loop)

lemma deadline_cases:
  assumes "deadline_fired b i = (b', evs)"
  obtains (gone) "b' = b" "evs = []" | (fired) l where "cancel b l QueuedDeadline = (b', evs)"
proof (cases "find (\<lambda>w. w_id w = i) (waiting b)")
  case None
  with assms have "b' = b" "evs = []" by (simp_all add: deadline_fired_def)
  then show ?thesis by (rule gone)
next
  case (Some w)
  with assms have "cancel b (w_lease w) QueuedDeadline = (b', evs)" by (simp add: deadline_fired_def)
  then show ?thesis by (rule fired)
qed

lemma run_invariant:
  "budget_run lim b log \<Longrightarrow> limits b = lim \<and> budget_inv b \<and> grows b \<and> work_conserving b"
proof (induction rule: budget_run.induct)
  case (run_new now)
  then show ?case
    using inv_new by (simp add: new_budget_def grows_def work_conserving_def)
next
  case (run_create b log s l b')
  note c = run_create.hyps(2)
  from run_create.IH inv_create [OF _ c] work_conserving_create [OF _ _ c] limits_create [OF c]
  show ?case by simp
next
  case (run_request b log t l now r b')
  note r = run_request.hyps(5)
  from run_request.IH inv_request [OF _ run_request.hyps(2) r] limits_request [OF r]
    work_conserving_request [OF _ run_request.hyps(3,4) r]
  show ?case by simp
next
  case (run_cancel b log l err b' evs)
  note c = run_cancel.hyps(2)
  from run_cancel.IH inv_cancel [OF _ c] work_conserving_cancel [OF _ c] limits_cancel [OF c]
  show ?case by simp
next
  case (run_deadline b log i b' evs)
  from run_deadline.hyps(2) show ?case
  proof (cases rule: deadline_cases)
    case gone
    with run_deadline.IH show ?thesis by simp
  next
    case (fired l)
    from run_deadline.IH inv_cancel [OF _ fired] work_conserving_cancel [OF _ fired] limits_cancel [OF fired]
    show ?thesis by simp
  qed
next
  case (run_release b log now l b' evs)
  note r = run_release.hyps(2)
  from run_release.IH inv_release [OF _ r] work_conserving_release [OF _ r] limits_release [OF r]
  show ?case by simp
qed

section \<open>Every queued promise is settled once\<close>

definition accounted :: "read_budget \<Rightarrow> settlement list \<Rightarrow> nat multiset" where
  "accounted b log = mset (map settled_id log) + mset (map w_id (waiting b))"

lemma settled_rejects: "map settled_id (map (\<lambda>w. Reject (w_id w) err) ws) = map w_id ws"
  by (simp add: comp_def)

lemma mset_split_lease:
  "mset (map w_id (rev (filter (\<lambda>w. w_lease w = l) ws))) + mset (map w_id (filter (\<lambda>w. w_lease w \<noteq> l) ws))
   = mset (map w_id ws)"
  by (induction ws) auto

lemma accounted_cancel:
  assumes "cancel b l err = (b', evs)"
  shows "accounted b' (log @ evs) = accounted b log \<and> next_waiter b' = next_waiter b"
proof -
  have evs: "map settled_id evs = map w_id (rev (filter (\<lambda>w. w_lease w = l) (waiting b)))"
    and b': "waiting b' = filter (\<lambda>w. w_lease w \<noteq> l) (waiting b)" "next_waiter b' = next_waiter b"
    using assms settled_rejects by (auto simp: cancel_eq)
  show ?thesis
    unfolding accounted_def map_append mset_append evs b' add.assoc mset_split_lease by simp
qed

lemma accounted_release_loop:
  "release_loop now i b evs = (b', evs') \<Longrightarrow>
   accounted b' (log @ evs') = accounted b (log @ evs) \<and> next_waiter b' = next_waiter b"
proof (induction rule: release_loop_induct)
  case (grant i b evs)
  have "add_mset (w_id (waiting b ! i)) (mset (map w_id (remove_nth i (waiting b)))) = mset (map w_id (waiting b))"
    using mset_remove_nth [OF grant.hyps(1)] by (metis image_mset_add_mset mset_map)
  with grant show ?case
    by (simp add: accounted_def) (simp add: grant_nth_def)
qed auto

lemma accounted_drop_lease:
  "accounted (drop_lease now b l)
     (log @ map (\<lambda>w. Reject (w_id w) ReadCancelled) (rev (filter (\<lambda>w. w_lease w = l) (waiting b))))
   = accounted b log"
  unfolding accounted_def map_append mset_append drop_lease_frame settled_rejects add.assoc mset_split_lease
  by (rule refl)

lemma run_accounted: "budget_run lim b log \<Longrightarrow> accounted b log = mset [0..<next_waiter b]"
proof (induction rule: budget_run.induct)
  case (run_new now)
  then show ?case by (simp add: accounted_def new_budget_def)
next
  case (run_create b log s l b')
  then have "waiting b' = waiting b" "next_waiter b' = next_waiter b"
    by (auto simp: create_lease_def split: if_splits)
  with run_create show ?case by (simp add: accounted_def)
next
  case (run_request b log t l now r b')
  from run_request.hyps(5) show ?case
    by (cases rule: request_cases) (use run_request.IH in \<open>auto simp: accounted_def\<close>)
next
  case (run_cancel b log l err b' evs)
  then show ?case using accounted_cancel [OF run_cancel.hyps(2), of log] by simp
next
  case (run_deadline b log i b' evs)
  from run_deadline.hyps(2) have "accounted b' (log @ evs) = accounted b log \<and> next_waiter b' = next_waiter b"
    by (cases rule: deadline_cases) (simp, erule accounted_cancel)
  with run_deadline.IH show ?case by simp
next
  case (run_release b log now l b' evs)
  show ?case
  proof (cases "l \<in> set (leases b)")
    case False
    with run_release show ?thesis by (simp add: release_eq)
  next
    case True
    with run_release.hyps(2) have "release_loop now 0 (drop_lease now b l)
        (map (\<lambda>w. Reject (w_id w) ReadCancelled) (rev (filter (\<lambda>w. w_lease w = l) (waiting b)))) = (b', evs)"
      by (simp add: release_eq)
    from accounted_release_loop [OF this, of log] run_release.IH
    show ?thesis unfolding accounted_drop_lease by simp
  qed
qed

section \<open>The properties of the budget\<close>

text \<open>C1. In every run of a peer's read budget the two counters are exactly what the live
  leases hold, no lease holds a negative amount, and neither the byte limit, the frame limit
  nor the number of concurrent leases of each kind is ever exceeded.\<close>

theorem read_budget_exact:
  assumes "budget_run lim b log"
  shows "used_bytes b = held_bytes b \<and> used_frames b = held_frames b \<and>
    0 \<le> used_bytes b \<and> used_bytes b \<le> lim_bytes lim \<and> used_frames b \<le> lim_frames lim \<and>
    int (length (same_kind b True)) \<le> lim_headers lim \<and>
    int (length (same_kind b False)) \<le> lim_frames lim * 2 \<and>
    (budget_idle b \<longrightarrow> used_bytes b = 0 \<and> used_frames b = 0 \<and> waiting b = [])"
proof -
  from run_invariant [OF assms] have inv: "budget_inv b" and lim: "limits b = lim" by auto
  have "0 \<le> held_bytes b"
    using inv by (auto simp: budget_inv_def held_bytes_def intro!: sum_list_nonneg)
  moreover have "int (length (same_kind b s)) \<le> kind_limit lim s" for s
    using inv lim by (simp add: budget_inv_def)
  from this [of True] this [of False]
  have "int (length (same_kind b True)) \<le> lim_headers lim"
    "int (length (same_kind b False)) \<le> lim_frames lim * 2" by (simp_all add: kind_limit_def)
  moreover have "waiting b = []" if "leases b = []"
    using inv that by (cases "waiting b") (auto simp: budget_inv_def)
  moreover have "held_bytes b = 0 \<and> held_frames b = 0" if "leases b = []"
    using that by (simp add: held_bytes_def held_frames_def)
  ultimately show ?thesis
    using inv lim by (auto simp: budget_inv_def budget_idle_def)
qed


text \<open>C3. Every promise that \<open>request\<close> has handed out to a queued caller is either still in
  the queue or has been settled exactly once, never both.\<close>

theorem read_budget_settles_once:
  assumes "budget_run lim b log"
  shows "mset (map settled_id log) + mset (map w_id (waiting b)) = mset [0..<next_waiter b] \<and>
    distinct (map settled_id log @ map w_id (waiting b))"
proof -
  have eq: "mset (map settled_id log @ map w_id (waiting b)) = mset [0..<next_waiter b]"
    using run_accounted [OF assms] by (simp add: accounted_def)
  then have "distinct (map settled_id log @ map w_id (waiting b))"
    using mset_eq_imp_distinct_iff [OF eq] by simp
  with eq show ?thesis by simp
qed

section \<open>A concrete run\<close>

text \<open>Ten bytes, one frame and two headers: the first lease takes eight bytes, the second
  queues for five, a third queues for nine; the first lease is released.\<close>

definition demo_limits :: read_limits where
  "demo_limits = \<lparr>lim_bytes = 10, lim_frames = 2, lim_headers = 2, lim_deadline_ms = 100\<rparr>"

definition demo_target :: "int \<Rightarrow> read_reservation" where
  "demo_target n = \<lparr>res_bytes = n, res_payload = True\<rparr>"

definition demo1 :: read_budget where "demo1 = snd (projr (create_lease (new_budget demo_limits 0) False))"
definition demo2 :: read_budget where "demo2 = snd (projr (create_lease demo1 False))"
definition demo3 :: read_budget where "demo3 = snd (projr (create_lease demo2 False))"
definition demo4 :: read_budget where "demo4 = snd (request 1 demo3 0 (demo_target 8))"
definition demo5 :: read_budget where "demo5 = snd (request 2 demo4 1 (demo_target 5))"
definition demo6 :: read_budget where "demo6 = snd (request 3 demo5 2 (demo_target 9))"
definition demo7 :: "read_budget \<times> settlement list" where "demo7 = release 4 demo6 0"

lemmas demo_ops = demo_limits_def demo_target_def new_budget_def create_lease_def request_def
  available_def assign_def same_kind_def kind_limit_def lease_bytes_def lease_frame_def
  no_reservation_def dominates_def

lemma demo3_eval:
  "demo1 = (new_budget demo_limits 0)\<lparr>leases := [0], lease_obj := (\<lambda>_. \<lparr>staged = False, reservation = no_reservation\<rparr>), next_lease := 1\<rparr>"
  "demo2 = demo1\<lparr>leases := [0, 1], next_lease := 2\<rparr>" "demo3 = demo1\<lparr>leases := [0, 1, 2], next_lease := 3\<rparr>"
  by (simp_all add: demo1_def demo2_def demo3_def demo_ops fun_upd_idem)

lemma demo_step4: "request 1 demo3 0 (demo_target 8) = (Granted, demo4)"
  by (simp add: demo4_def demo3_eval demo_ops)

lemma demo4_eval: "demo4 = demo3\<lparr>used_bytes := 8, used_frames := 1, last_used := 1,
    lease_obj := (\<lambda>_. \<lparr>staged = False, reservation = no_reservation\<rparr>)(0 := \<lparr>staged = False, reservation = demo_target 8\<rparr>)\<rparr>"
  by (simp add: demo4_def demo3_eval demo_ops)

lemma demo_step5: "request 2 demo4 1 (demo_target 5) = (Queued 0, demo5)"
  by (simp add: demo5_def demo4_eval demo3_eval demo_ops)

lemma demo5_eval: "demo5 = demo4\<lparr>waiting := [\<lparr>w_id = 0, w_lease = 1, w_target = demo_target 5\<rparr>], next_waiter := 1\<rparr>"
  by (simp add: demo5_def demo4_eval demo3_eval demo_ops)

lemma demo_step6: "request 3 demo5 2 (demo_target 9) = (Queued 1, demo6)"
  by (simp add: demo6_def demo5_eval demo4_eval demo3_eval demo_ops)

lemma demo7_eval:
  "snd demo7 = [Resolve 0] \<and> map w_id (waiting (fst demo7)) = [1] \<and> used_bytes (fst demo7) = 5"
  by code_simp

lemma demo_run: "budget_run demo_limits (fst demo7) (snd demo7)"
proof -
  have r0: "budget_run demo_limits (new_budget demo_limits 0) []"
    by (rule run_new) (simp_all add: demo_limits_def)
  have r1: "budget_run demo_limits demo1 []"
    by (rule run_create [OF r0, of False 0]) (simp add: demo1_def demo_ops)
  have r2: "budget_run demo_limits demo2 []"
    by (rule run_create [OF r1, of False 1]) (simp add: demo3_eval demo_ops fun_upd_idem)
  have r3: "budget_run demo_limits demo3 []"
    by (rule run_create [OF r2, of False 2]) (simp add: demo3_eval demo_ops fun_upd_idem)
  have r4: "budget_run demo_limits demo4 []"
    by (rule run_request [OF r3 _ _ _ demo_step4]) (simp_all add: demo3_eval demo_ops)
  have r5: "budget_run demo_limits demo5 []"
    by (rule run_request [OF r4 _ _ _ demo_step5]) (simp_all add: demo4_eval demo3_eval demo_ops)
  have r6: "budget_run demo_limits demo6 []"
    by (rule run_request [OF r5 _ _ _ demo_step6]) (simp_all add: demo5_eval demo4_eval demo3_eval demo_ops)
  show ?thesis
    using run_release [OF r6, of 4 0 "fst demo7" "snd demo7"] by (simp add: demo7_def)
qed

theorem read_budget_exact_witness:
  "used_bytes (fst demo7) = held_bytes (fst demo7) \<and> used_bytes (fst demo7) \<le> lim_bytes demo_limits"
  using read_budget_exact [OF demo_run] by simp


theorem read_budget_settles_once_witness:
  "distinct (map settled_id (snd demo7) @ map w_id (waiting (fst demo7))) \<and> snd demo7 = [Resolve 0]"
  using read_budget_settles_once [OF demo_run] demo7_eval by simp

end
