(* ===== verification/Mesh_Store.thy ===== *)
theory Mesh_Store
  imports Mesh_Prelude
begin

text \<open>
  The key-value stores of \<open>packages/mesh-browser-store/src/index.ts\<close>: the interface \<open>MeshStore\<close>,
  its two implementations \<open>MemoryMeshStore\<close> (a \<open>Map\<close> of \<open>Map\<close>s) and \<open>BrowserMeshStore\<close>
  (IndexedDB), and the opening of the database with its schema upgrade.

  Stored values are immutable data, so \<open>structuredClone\<close> is the identity. A method is a function
  of the store that returns the settlement of its promise, \<open>Inl\<close> the error it is rejected with,
  and the store afterwards. A callback that may throw returns a sum. An IndexedDB object store
  is the list of its records in ascending key order; a read-write transaction either completes or
  aborts, and which of the two is the argument \<open>completes\<close>.

  Shown: the range the browser store scans is exactly the keys with the prefix; both
  stores satisfy the contract \<open>mesh_store\<close>, in which a client cannot tell them apart; paging
  through a scan enumerates every key once; a transaction is all or nothing.
\<close>

section \<open>The interface\<close>

type_synonym 'v js_map = "(jstring \<times> 'v) list"

datatype 'e store_error =
    InvalidUpdatePlan | InvalidUpdateWrites | UndeclaredWrite | InvalidUpdateKeys
  | InvalidScanPrefix | InvalidScanLimit | InvalidScanContinuation
  | InvalidConditions
  | UnknownStore | UnknownStoreInBatch | UnknownStoreInAtomicUpdate
  | TransactionAborted
  | Raised 'e

type_synonym ('s, 'e, 'r) settled = "('e store_error + 'r) \<times> 's"

datatype 'v store_operation =
    PutOp (op_store: jstring) (op_key: jstring) (op_value: 'v)
  | DeleteOp (op_store: jstring) (op_key: jstring)

record store_condition =
  cond_store :: jstring
  cond_key :: jstring
  cond_expected :: "jstring option"

text \<open>What the callback of \<open>updateRecords\<close> hands back: it throws, returns something that is not a
  plain object (or a promise), an object whose \<open>writes\<close> is not an array, or a plan.\<close>

datatype 'v plan_write = MalformedWrite | PlanWrite jstring "'v option"

datatype ('v, 'e, 'r) plan_outcome =
    PlanThrows 'e
  | PlanNotObject
  | PlanWritesNotArray
  | PlanOf "'v plan_write list" 'r

record 'v scan_page =
  page_entries :: "(jstring \<times> 'v) list"
  next_after :: "jstring option"

record ('s, 'v, 'e, 'r) mesh_store_ops =
  ms_get :: "'s \<Rightarrow> jstring \<Rightarrow> jstring \<Rightarrow> ('s, 'e, 'v option) settled"
  ms_put :: "'s \<Rightarrow> jstring \<Rightarrow> jstring \<Rightarrow> 'v \<Rightarrow> ('s, 'e, unit) settled"
  ms_delete :: "'s \<Rightarrow> jstring \<Rightarrow> jstring \<Rightarrow> ('s, 'e, unit) settled"
  ms_list :: "'s \<Rightarrow> jstring \<Rightarrow> ('s, 'e, (jstring \<times> 'v) list) settled"
  ms_scan :: "'s \<Rightarrow> jstring \<Rightarrow> jstring \<Rightarrow> jstring option \<Rightarrow> int \<Rightarrow> ('s, 'e, 'v scan_page) settled"
  ms_batch :: "'s \<Rightarrow> 'v store_operation list \<Rightarrow> ('s, 'e, unit) settled"
  ms_cas :: "'s \<Rightarrow> store_condition list \<Rightarrow> 'v store_operation list \<Rightarrow> 'e option \<Rightarrow> ('s, 'e, bool) settled"
  ms_update :: "'s \<Rightarrow> jstring \<Rightarrow> jstring \<Rightarrow> ('v option \<Rightarrow> 'e + 'v option) \<Rightarrow> ('s, 'e, 'v option) settled"
  ms_update_records :: "'s \<Rightarrow> jstring \<Rightarrow> jstring list \<Rightarrow> ('v option list \<Rightarrow> ('v, 'e, 'r) plan_outcome)
    \<Rightarrow> ('s, 'e, 'r) settled"

section \<open>Input checks\<close>

fun check_writes :: "jstring list \<Rightarrow> jstring list \<Rightarrow> 'v plan_write list
    \<Rightarrow> 'e store_error + (jstring \<times> 'v option) list" where
  "check_writes allowed seen [] = Inr []"
| "check_writes allowed seen (MalformedWrite # ws) = Inl UndeclaredWrite"
| "check_writes allowed seen (PlanWrite k v # ws) =
     (if k \<notin> set allowed \<or> k \<in> set seen then Inl UndeclaredWrite
      else bind_r (check_writes allowed (k # seen) ws) (\<lambda>rest. Inr ((k, v) # rest)))"

definition record_update_input :: "jstring list \<Rightarrow> 'v option list
    \<Rightarrow> ('v option list \<Rightarrow> ('v, 'e, 'r) plan_outcome)
    \<Rightarrow> 'e store_error + (jstring \<times> 'v option) list \<times> 'r" where
  "record_update_input keys vals change =
     (case change vals of
        PlanThrows e \<Rightarrow> Inl (Raised e)
      | PlanNotObject \<Rightarrow> Inl InvalidUpdatePlan
      | PlanWritesNotArray \<Rightarrow> Inl InvalidUpdateWrites
      | PlanOf ws r \<Rightarrow> bind_r (check_writes keys [] ws) (\<lambda>checked. Inr (checked, r)))"

definition record_update_keys :: "jstring list \<Rightarrow> 'e store_error + jstring list" where
  "record_update_keys keys =
     (if [] \<in> set keys \<or> length (js_uniq keys) \<noteq> length keys then Inl InvalidUpdateKeys else Inr keys)"

definition prefix_scan_input :: "jstring \<Rightarrow> jstring option \<Rightarrow> int \<Rightarrow> 'e store_error + unit" where
  "prefix_scan_input p after limit =
     (if length p < 1 \<or> 2048 < length p then Inl InvalidScanPrefix
      else if limit < 1 \<or> 128 < limit then Inl InvalidScanLimit
      else if (case after of None \<Rightarrow> False | Some a \<Rightarrow> \<not> starts_with p a) then Inl InvalidScanContinuation
      else Inr ())"

text \<open>The loop of \<open>prefixSuccessor\<close> from the last code unit down; \<open>n\<close> is \<open>index + 1\<close>.\<close>

fun successor_loop :: "jstring \<Rightarrow> nat \<Rightarrow> jstring option" where
  "successor_loop p 0 = None"
| "successor_loop p (Suc i) =
     (let code = p ! i in
      if code < 0xFFFF then Some (take i p @ [code + 1]) else successor_loop p i)"

definition prefix_successor :: "jstring \<Rightarrow> jstring option" where
  "prefix_successor p = successor_loop p (length p)"

text \<open>\<open>JSON.stringify\<close> of a pair of strings is injective, so the seen set is kept as pairs.\<close>

fun check_conditions :: "(jstring \<times> jstring) list \<Rightarrow> store_condition list \<Rightarrow> 'e store_error + unit" where
  "check_conditions seen [] = Inr ()"
| "check_conditions seen (c # cs) =
     (let key = (cond_store c, cond_key c) in
      if key \<in> set seen then Inl InvalidConditions else check_conditions (key # seen) cs)"

section \<open>The memory store\<close>

type_synonym 'v mem_store = "(jstring \<times> 'v js_map) list"

definition mem_store_of :: "'v mem_store \<Rightarrow> jstring \<Rightarrow> 'v js_map \<times> 'v mem_store" where
  "mem_store_of st name =
     (case map_of st name of Some m \<Rightarrow> (m, st) | None \<Rightarrow> ([], AList.update name [] st))"

definition mem_get :: "'v mem_store \<Rightarrow> jstring \<Rightarrow> jstring \<Rightarrow> ('v mem_store, 'e, 'v option) settled" where
  "mem_get st store key = (let (m, st') = mem_store_of st store in (Inr (map_of m key), st'))"

definition mem_put :: "'v mem_store \<Rightarrow> jstring \<Rightarrow> jstring \<Rightarrow> 'v \<Rightarrow> ('v mem_store, 'e, unit) settled" where
  "mem_put st store key v =
     (let (m, st') = mem_store_of st store in (Inr (), AList.update store (AList.update key v m) st'))"

definition mem_delete :: "'v mem_store \<Rightarrow> jstring \<Rightarrow> jstring \<Rightarrow> ('v mem_store, 'e, unit) settled" where
  "mem_delete st store key =
     (let (m, st') = mem_store_of st store in (Inr (), AList.update store (AList.delete key m) st'))"

definition mem_list :: "'v mem_store \<Rightarrow> jstring \<Rightarrow> ('v mem_store, 'e, (jstring \<times> 'v) list) settled" where
  "mem_list st store = (let (m, st') = mem_store_of st store in (Inr m, st'))"

definition in_scan :: "jstring \<Rightarrow> jstring option \<Rightarrow> jstring \<Rightarrow> bool" where
  "in_scan p after k \<longleftrightarrow> starts_with p k \<and> (case after of None \<Rightarrow> True | Some a \<Rightarrow> a < k)"

definition mem_scan :: "'v mem_store \<Rightarrow> jstring \<Rightarrow> jstring \<Rightarrow> jstring option \<Rightarrow> int
    \<Rightarrow> ('v mem_store, 'e, 'v scan_page) settled" where
  "mem_scan st store p after limit =
     (case prefix_scan_input p after limit of
        Inl e \<Rightarrow> (Inl e, st)
      | Inr _ \<Rightarrow>
          (let (m, st') = mem_store_of st store;
               entries = sort_key fst (filter (\<lambda>(k, v). in_scan p after k) m)
           in (Inr \<lparr>page_entries = take (nat limit) entries,
                    next_after = (if limit < int (length entries)
                                  then Some (fst (entries ! (nat limit - 1))) else None)\<rparr>, st')))"

definition mem_apply :: "'v store_operation \<Rightarrow> 'v mem_store \<Rightarrow> 'v mem_store" where
  "mem_apply operation next =
     (let (m, next') = mem_store_of next (op_store operation)
      in AList.update (op_store operation)
           (case operation of
              PutOp _ key v \<Rightarrow> AList.update key v m
            | DeleteOp _ key \<Rightarrow> AList.delete key m) next')"

definition mem_batch :: "'v mem_store \<Rightarrow> 'v store_operation list \<Rightarrow> ('v mem_store, 'e, unit) settled" where
  "mem_batch st operations = (Inr (), fold mem_apply operations st)"

definition mem_update :: "'v mem_store \<Rightarrow> jstring \<Rightarrow> jstring \<Rightarrow> ('v option \<Rightarrow> 'e + 'v option)
    \<Rightarrow> ('v mem_store, 'e, 'v option) settled" where
  "mem_update st store key change =
     (let (m, st') = mem_store_of st store in
      case change (map_of m key) of
        Inl e \<Rightarrow> (Inl (Raised e), st')
      | Inr None \<Rightarrow> (Inr None, AList.update store (AList.delete key m) st')
      | Inr (Some v) \<Rightarrow> (Inr (Some v), AList.update store (AList.update key v m) st'))"

fun write_record :: "jstring \<times> 'v option \<Rightarrow> 'v js_map \<Rightarrow> 'v js_map" where
  "write_record (k, None) m = AList.delete k m"
| "write_record (k, Some v) m = AList.update k v m"

definition mem_update_records :: "'v mem_store \<Rightarrow> jstring \<Rightarrow> jstring list
    \<Rightarrow> ('v option list \<Rightarrow> ('v, 'e, 'r) plan_outcome) \<Rightarrow> ('v mem_store, 'e, 'r) settled" where
  "mem_update_records st name keys change =
     (case record_update_keys keys of
        Inl e \<Rightarrow> (Inl e, st)
      | Inr snapshot \<Rightarrow>
          (let current = (case map_of st name of None \<Rightarrow> [] | Some m \<Rightarrow> m) in
           case record_update_input snapshot (map (map_of current) snapshot) change of
             Inl e \<Rightarrow> (Inl e, st)
           | Inr (writes, r) \<Rightarrow> (Inr r, AList.update name (fold write_record writes current) st)))"

text \<open>A condition compares the stored value with a string by \<open>!==\<close>; \<open>str\<close> tells which stored values
  are strings.\<close>

definition condition_holds :: "('v \<Rightarrow> jstring option) \<Rightarrow> 'v option \<Rightarrow> jstring option \<Rightarrow> bool" where
  "condition_holds str stored expected =
     (case stored of None \<Rightarrow> expected = None | Some v \<Rightarrow> expected \<noteq> None \<and> str v = expected)"

definition mem_lookup :: "'v mem_store \<Rightarrow> jstring \<Rightarrow> jstring \<Rightarrow> 'v option" where
  "mem_lookup st store key = (case map_of st store of None \<Rightarrow> None | Some m \<Rightarrow> map_of m key)"

definition mem_cas :: "('v \<Rightarrow> jstring option) \<Rightarrow> 'v mem_store \<Rightarrow> store_condition list
    \<Rightarrow> 'v store_operation list \<Rightarrow> 'e option \<Rightarrow> ('v mem_store, 'e, bool) settled" where
  "mem_cas str st conditions operations guard =
     (case check_conditions [] conditions of
        Inl e \<Rightarrow> (Inl e, st)
      | Inr _ \<Rightarrow>
          if \<exists>c \<in> set conditions.
               \<not> condition_holds str (mem_lookup st (cond_store c) (cond_key c)) (cond_expected c)
          then (Inr False, st)
          else (case guard of
                  Some e \<Rightarrow> (Inl (Raised e), st)
                | None \<Rightarrow> (Inr True, fold mem_apply operations st)))"

definition memory_ops :: "('v \<Rightarrow> jstring option) \<Rightarrow> ('v mem_store, 'v, 'e, 'r) mesh_store_ops" where
  "memory_ops str = \<lparr>ms_get = mem_get, ms_put = mem_put, ms_delete = mem_delete, ms_list = mem_list,
     ms_scan = mem_scan, ms_batch = mem_batch, ms_cas = mem_cas str, ms_update = mem_update,
     ms_update_records = mem_update_records\<rparr>"

section \<open>IndexedDB\<close>

text \<open>The part of IndexedDB the browser store uses. A database is its version and its object
  stores; the records of an object store are kept in ascending key order.\<close>

record 'v idb =
  idb_version :: nat
  object_stores :: "(jstring \<times> (jstring \<times> 'v) list) list"

fun idb_put :: "jstring \<Rightarrow> 'v \<Rightarrow> (jstring \<times> 'v) list \<Rightarrow> (jstring \<times> 'v) list" where
  "idb_put key v [] = [(key, v)]"
| "idb_put key v ((k, w) # rs) =
     (if key < k then (key, v) # (k, w) # rs
      else if key = k then (key, v) # rs
      else (k, w) # idb_put key v rs)"

definition idb_delete :: "jstring \<Rightarrow> (jstring \<times> 'v) list \<Rightarrow> (jstring \<times> 'v) list" where
  "idb_delete key rs = filter (\<lambda>(k, v). k \<noteq> key) rs"

definition object_store :: "'v idb \<Rightarrow> jstring \<Rightarrow> (jstring \<times> 'v) list" where
  "object_store db name = (case map_of (object_stores db) name of None \<Rightarrow> [] | Some rs \<Rightarrow> rs)"

definition set_object_store :: "jstring \<Rightarrow> (jstring \<times> 'v) list \<Rightarrow> 'v idb \<Rightarrow> 'v idb" where
  "set_object_store name rs db = db\<lparr>object_stores := AList.update name rs (object_stores db)\<rparr>"

text \<open>\<open>IDBKeyRange\<close>: a lower bound, open or closed, and an optional open upper bound.\<close>

record key_range =
  kr_lower :: jstring
  kr_lower_open :: bool
  kr_upper :: "jstring option"

definition in_key_range :: "key_range \<Rightarrow> jstring \<Rightarrow> bool" where
  "in_key_range r k \<longleftrightarrow> (if kr_lower_open r then kr_lower r < k else kr_lower r \<le> k) \<and>
     (case kr_upper r of None \<Rightarrow> True | Some u \<Rightarrow> k < u)"

section \<open>The browser store\<close>

definition bs_run :: "jstring list \<Rightarrow> 'v idb \<Rightarrow> jstring \<Rightarrow> (('e store_error + 'r) \<times> 'v idb)
    \<Rightarrow> ('v idb, 'e, 'r) settled" where
  "bs_run stores db store body = (if store \<notin> set stores then (Inl UnknownStore, db) else body)"

text \<open>A transaction that does not complete leaves the database as it was.\<close>

definition transaction :: "bool \<Rightarrow> 'v idb \<Rightarrow> 'r \<Rightarrow> 'v idb \<Rightarrow> ('v idb, 'e, 'r) settled" where
  "transaction completes before r after = (if completes then (Inr r, after) else (Inl TransactionAborted, before))"

definition bs_get :: "jstring list \<Rightarrow> bool \<Rightarrow> 'v idb \<Rightarrow> jstring \<Rightarrow> jstring \<Rightarrow> ('v idb, 'e, 'v option) settled" where
  "bs_get stores completes db store key =
     bs_run stores db store (transaction completes db (map_of (object_store db store) key) db)"

definition bs_put :: "jstring list \<Rightarrow> bool \<Rightarrow> 'v idb \<Rightarrow> jstring \<Rightarrow> jstring \<Rightarrow> 'v \<Rightarrow> ('v idb, 'e, unit) settled" where
  "bs_put stores completes db store key v =
     bs_run stores db store (transaction completes db ()
       (set_object_store store (idb_put key v (object_store db store)) db))"

definition bs_delete :: "jstring list \<Rightarrow> bool \<Rightarrow> 'v idb \<Rightarrow> jstring \<Rightarrow> jstring \<Rightarrow> ('v idb, 'e, unit) settled" where
  "bs_delete stores completes db store key =
     bs_run stores db store (transaction completes db ()
       (set_object_store store (idb_delete key (object_store db store)) db))"

text \<open>The cursor callback of \<open>list\<close>: push the record and continue.\<close>

fun list_cursor :: "(jstring \<times> 'v) list \<Rightarrow> (jstring \<times> 'v) list \<Rightarrow> (jstring \<times> 'v) list" where
  "list_cursor result [] = result"
| "list_cursor result ((k, v) # rs) = list_cursor (result @ [(k, v)]) rs"

definition bs_list :: "jstring list \<Rightarrow> bool \<Rightarrow> 'v idb \<Rightarrow> jstring \<Rightarrow> ('v idb, 'e, (jstring \<times> 'v) list) settled" where
  "bs_list stores completes db store =
     bs_run stores db store (transaction completes db (list_cursor [] (object_store db store)) db)"

text \<open>The cursor callback of \<open>scan\<close>: it stops without continuing on a key without the prefix, and
  on the first key past a full page.\<close>

fun scan_cursor :: "jstring \<Rightarrow> nat \<Rightarrow> (jstring \<times> 'v) list \<Rightarrow> (jstring \<times> 'v) list \<Rightarrow> 'v scan_page" where
  "scan_cursor p limit entries [] = \<lparr>page_entries = entries, next_after = None\<rparr>"
| "scan_cursor p limit entries ((k, v) # rs) =
     (if \<not> starts_with p k then \<lparr>page_entries = entries, next_after = None\<rparr>
      else if length entries = limit
      then \<lparr>page_entries = entries, next_after = Some (fst (last entries))\<rparr>
      else scan_cursor p limit (entries @ [(k, v)]) rs)"

definition scan_range :: "jstring \<Rightarrow> jstring option \<Rightarrow> key_range" where
  "scan_range p after =
     \<lparr>kr_lower = (case after of None \<Rightarrow> p | Some a \<Rightarrow> a), kr_lower_open = (after \<noteq> None),
      kr_upper = prefix_successor p\<rparr>"

definition bs_scan :: "jstring list \<Rightarrow> bool \<Rightarrow> 'v idb \<Rightarrow> jstring \<Rightarrow> jstring \<Rightarrow> jstring option \<Rightarrow> int
    \<Rightarrow> ('v idb, 'e, 'v scan_page) settled" where
  "bs_scan stores completes db store p after limit =
     (case prefix_scan_input p after limit of
        Inl e \<Rightarrow> (Inl e, db)
      | Inr _ \<Rightarrow>
          bs_run stores db store (transaction completes db
            (scan_cursor p (nat limit) []
               (filter (\<lambda>(k, v). in_key_range (scan_range p after) k) (object_store db store))) db))"

definition idb_apply :: "'v store_operation \<Rightarrow> 'v idb \<Rightarrow> 'v idb" where
  "idb_apply operation db =
     set_object_store (op_store operation)
       (case operation of
          PutOp store key v \<Rightarrow> idb_put key v (object_store db store)
        | DeleteOp store key \<Rightarrow> idb_delete key (object_store db store)) db"

definition bs_batch :: "jstring list \<Rightarrow> bool \<Rightarrow> 'v idb \<Rightarrow> 'v store_operation list \<Rightarrow> ('v idb, 'e, unit) settled" where
  "bs_batch stores completes db operations =
     (let names = js_uniq (map op_store operations) in
      if \<exists>name \<in> set names. name \<notin> set stores then (Inl UnknownStoreInBatch, db)
      else if operations = [] then (Inr (), db)
      else transaction completes db () (fold idb_apply operations db))"

definition bs_update :: "jstring list \<Rightarrow> bool \<Rightarrow> 'v idb \<Rightarrow> jstring \<Rightarrow> jstring \<Rightarrow> ('v option \<Rightarrow> 'e + 'v option)
    \<Rightarrow> ('v idb, 'e, 'v option) settled" where
  "bs_update stores completes db store key change =
     bs_run stores db store
       (let rs = object_store db store in
        case change (map_of rs key) of
          Inl e \<Rightarrow> (Inl (Raised e), db)
        | Inr None \<Rightarrow> transaction completes db None (set_object_store store (idb_delete key rs) db)
        | Inr (Some v) \<Rightarrow> transaction completes db (Some v) (set_object_store store (idb_put key v rs) db))"

fun idb_write_record :: "jstring \<times> 'v option \<Rightarrow> (jstring \<times> 'v) list \<Rightarrow> (jstring \<times> 'v) list" where
  "idb_write_record (k, None) rs = idb_delete k rs"
| "idb_write_record (k, Some v) rs = idb_put k v rs"

definition bs_update_records :: "jstring list \<Rightarrow> bool \<Rightarrow> 'v idb \<Rightarrow> jstring \<Rightarrow> jstring list
    \<Rightarrow> ('v option list \<Rightarrow> ('v, 'e, 'r) plan_outcome) \<Rightarrow> ('v idb, 'e, 'r) settled" where
  "bs_update_records stores completes db store keys change =
     bs_run stores db store
       (case record_update_keys keys of
          Inl e \<Rightarrow> (Inl e, db)
        | Inr snapshot \<Rightarrow>
            (let rs = object_store db store in
             case record_update_input snapshot (map (map_of rs) snapshot) change of
               Inl e \<Rightarrow> (Inl e, db)
             | Inr (writes, r) \<Rightarrow>
                 transaction completes db r (set_object_store store (fold idb_write_record writes rs) db)))"

definition bs_cas :: "('v \<Rightarrow> jstring option) \<Rightarrow> jstring list \<Rightarrow> bool \<Rightarrow> 'v idb \<Rightarrow> store_condition list
    \<Rightarrow> 'v store_operation list \<Rightarrow> 'e option \<Rightarrow> ('v idb, 'e, bool) settled" where
  "bs_cas str stores completes db conditions operations guard =
     (case check_conditions [] conditions of
        Inl e \<Rightarrow> (Inl e, db)
      | Inr _ \<Rightarrow>
          (let names = js_uniq (map cond_store conditions @ map op_store operations) in
           if \<exists>name \<in> set names. name \<notin> set stores then (Inl UnknownStoreInAtomicUpdate, db)
           else if names = [] then (case guard of Some e \<Rightarrow> (Inl (Raised e), db) | None \<Rightarrow> (Inr True, db))
           else if \<exists>c \<in> set conditions. \<not> condition_holds str
                  (map_of (object_store db (cond_store c)) (cond_key c)) (cond_expected c)
           then transaction completes db False db
           else (case guard of
                   Some e \<Rightarrow> (Inl (Raised e), db)
                 | None \<Rightarrow> transaction completes db True (fold idb_apply operations db))))"

definition browser_ops :: "('v \<Rightarrow> jstring option) \<Rightarrow> jstring list \<Rightarrow> bool
    \<Rightarrow> ('v idb, 'v, 'e, 'r) mesh_store_ops" where
  "browser_ops str stores completes = \<lparr>ms_get = bs_get stores completes, ms_put = bs_put stores completes,
     ms_delete = bs_delete stores completes, ms_list = bs_list stores completes,
     ms_scan = bs_scan stores completes, ms_batch = bs_batch stores completes,
     ms_cas = bs_cas str stores completes, ms_update = bs_update stores completes,
     ms_update_records = bs_update_records stores completes\<rparr>"

section \<open>Opening the database\<close>

datatype open_error = UpgradeBlocked | OpenFailed nat | SchemaUpgradeFailed

text \<open>One call of \<open>requestOpen\<close> settles with a connection or an error; the other tabs decide which,
  so it is a function \<open>request\<close> of the environment \<open>'w\<close> and the version asked for.\<close>

type_synonym ('w, 'v) open_request = "'w \<Rightarrow> nat option \<Rightarrow> (open_error + 'v idb) \<times> 'w"

text \<open>The event handlers of one \<open>requestOpen\<close>. \<open>settlement\<close> is how its promise settled; an upgrade that
  arrives after a refusal is aborted, and a connection that arrives then is closed.\<close>

datatype open_event = UpgradeNeeded | OpenSuccess | OpenError nat | OpenBlocked

record open_state =
  os_settled :: bool
  os_settlement :: "(open_error + unit) option"
  os_created :: "jstring list"
  os_upgrade_aborted :: bool
  os_closed :: bool
  os_forgotten :: bool

definition open_start :: "jstring list \<Rightarrow> open_state" where
  "open_start existing = \<lparr>os_settled = False, os_settlement = None, os_created = existing,
     os_upgrade_aborted = False, os_closed = False, os_forgotten = False\<rparr>"

definition settle :: "open_error + unit \<Rightarrow> open_state \<Rightarrow> open_state" where
  "settle r st = st\<lparr>os_settled := True,
     os_settlement := (case os_settlement st of None \<Rightarrow> Some r | Some r' \<Rightarrow> Some r')\<rparr>"

fun open_handler :: "jstring list \<Rightarrow> open_event \<Rightarrow> open_state \<Rightarrow> open_state" where
  "open_handler stores UpgradeNeeded st =
     (if os_settled st then st\<lparr>os_upgrade_aborted := True\<rparr>
      else st\<lparr>os_created := os_created st @ filter (\<lambda>n. n \<notin> set (os_created st)) (js_uniq stores)\<rparr>)"
| "open_handler stores OpenSuccess st =
     (if os_settled st then st\<lparr>os_closed := True, os_forgotten := True\<rparr> else settle (Inr ()) st)"
| "open_handler stores (OpenError n) st =
     settle (Inl (OpenFailed n)) (if os_settled st then st\<lparr>os_forgotten := True\<rparr> else st)"
| "open_handler stores OpenBlocked st = settle (Inl UpgradeBlocked) st"

definition has_stores :: "jstring list \<Rightarrow> 'v idb \<Rightarrow> bool" where
  "has_stores stores db \<longleftrightarrow> (\<forall>store \<in> set stores. store \<in> fst ` set (object_stores db))"

text \<open>The attempts of \<open>openWithStores\<close>; the argument counts the ones that are left.\<close>

fun open_attempts :: "('w, 'v) open_request \<Rightarrow> jstring list \<Rightarrow> nat \<Rightarrow> 'w \<Rightarrow> (open_error + 'v idb) \<times> 'w" where
  "open_attempts request stores 0 w = (Inl SchemaUpgradeFailed, w)"
| "open_attempts request stores (Suc n) w =
     (case request w None of
        (Inl e, w1) \<Rightarrow> (Inl e, w1)
      | (Inr current, w1) \<Rightarrow>
          if has_stores stores current then (Inr current, w1)
          else
            (case request w1 (Some (idb_version current + 1)) of
               (Inl e, w2) \<Rightarrow>
                 if e = UpgradeBlocked \<or> n = 0 then (Inl e, w2) else open_attempts request stores n w2
             | (Inr upgraded, w2) \<Rightarrow>
                 if has_stores stores upgraded then (Inr upgraded, w2)
                 else open_attempts request stores n w2))"

definition open_with_stores :: "('w, 'v) open_request \<Rightarrow> jstring list \<Rightarrow> 'w \<Rightarrow> (open_error + 'v idb) \<times> 'w" where
  "open_with_stores request stores w = open_attempts request stores 3 w"

text \<open>\<open>open\<close>: the promise of a connection is kept and reused; a failure forgets it, except a blocked
  upgrade, whose refusal is kept.\<close>

definition bs_open :: "('w, 'v) open_request \<Rightarrow> jstring list \<Rightarrow> (open_error + 'v idb) option \<Rightarrow> 'w
    \<Rightarrow> (open_error + 'v idb) \<times> (open_error + 'v idb) option \<times> 'w" where
  "bs_open request stores database w =
     (case database of
        Some settled \<Rightarrow> (settled, database, w)
      | None \<Rightarrow>
          (case open_with_stores request stores w of
             (Inr db, w') \<Rightarrow> (Inr db, Some (Inr db), w')
           | (Inl e, w') \<Rightarrow> (Inl e, if e = UpgradeBlocked then Some (Inl e) else None, w')))"

section \<open>The scanned range\<close>

fun list_successor :: "jstring \<Rightarrow> jstring option" where
  "list_successor [] = None"
| "list_successor (c # p) =
     (case list_successor p of
        Some u \<Rightarrow> Some (c # u)
      | None \<Rightarrow> if c < 0xFFFF then Some [c + 1] else None)"

lemma successor_loop_Cons:
  "successor_loop (c # p) (Suc n) =
     (case successor_loop p n of
        Some u \<Rightarrow> Some (c # u)
      | None \<Rightarrow> if c < 0xFFFF then Some [c + 1] else None)"
proof (induction n)
  case 0
  then show ?case by (simp add: Let_def)
next
  case (Suc n)
  have "successor_loop (c # p) (Suc (Suc n)) =
      (if p ! n < 0xFFFF then Some (c # take n p @ [p ! n + 1]) else successor_loop (c # p) (Suc n))"
    by (simp add: Let_def del: successor_loop.simps(1))
  also have "\<dots> = (case successor_loop p (Suc n) of
        Some u \<Rightarrow> Some (c # u) | None \<Rightarrow> if c < 0xFFFF then Some [c + 1] else None)"
    unfolding Suc by (simp add: Let_def)
  finally show ?case .
qed

lemma prefix_successor_rec: "prefix_successor p = list_successor p"
  unfolding prefix_successor_def
  by (induction p) (simp_all del: successor_loop.simps(2) add: successor_loop_Cons)

lemma code_unit_le: "(c :: 16 word) \<le> 0xFFFF"
  using unsigned_less [of c, where ?'a = nat] by (simp add: word_le_nat_alt)

lemma code_unit_top: "\<not> c < (0xFFFF :: 16 word) \<Longrightarrow> c = 0xFFFF"
  using code_unit_le [of c] by simp

lemma code_unit_succ: "c < (0xFFFF :: 16 word) \<Longrightarrow> d < c + 1 \<longleftrightarrow> d \<le> c"
  by (auto simp: word_less_nat_alt word_le_nat_alt unat_word_ariths)

lemma starts_with_Cons [simp]:
  "starts_with [] k" "\<not> starts_with (c # p) []" "starts_with (c # p) (d # k) \<longleftrightarrow> c = d \<and> starts_with p k"
  by (auto simp: starts_with_def)

lemma prefix_range:
  "starts_with p k \<longleftrightarrow> p \<le> k \<and> (case prefix_successor p of None \<Rightarrow> True | Some u \<Rightarrow> k < u)"
  unfolding prefix_successor_rec
proof (induction p arbitrary: k)
  case Nil
  then show ?case by simp
next
  case (Cons c p)
  show ?case
  proof (cases k)
    case Nil
    then show ?thesis by simp
  next
    case k: (Cons d k')
    show ?thesis
    proof (cases "list_successor p")
      case (Some u)
      then show ?thesis using Cons.IH [of k'] k by auto
    next
      case None
      then show ?thesis
        using Cons.IH [of k'] k code_unit_succ [of c d] code_unit_top [of c] code_unit_le [of d]
        by (auto simp: not_less)
    qed
  qed
qed

lemma scan_range_iff:
  assumes "prefix_scan_input p after limit = Inr ()"
  shows "in_key_range (scan_range p after) k \<longleftrightarrow> in_scan p after k"
proof (cases after)
  case None
  then show ?thesis
    using prefix_range [of p k] by (simp add: in_key_range_def scan_range_def in_scan_def)
next
  case (Some a)
  with assms have "starts_with p a" by (auto simp: prefix_scan_input_def split: if_splits)
  then have "p \<le> a" using prefix_range by blast
  with Some show ?thesis
    using prefix_range [of p k] by (auto simp: in_key_range_def scan_range_def in_scan_def)
qed

section \<open>The contract of a store\<close>

text \<open>A client sees a store as a map from store names and keys to values.\<close>

type_synonym 'v store_view = "jstring \<Rightarrow> jstring \<rightharpoonup> 'v"

definition view_apply :: "'v store_operation \<Rightarrow> 'v store_view \<Rightarrow> 'v store_view" where
  "view_apply operation vw =
     (case operation of
        PutOp store key v \<Rightarrow> vw(store := (vw store)(key := Some v))
      | DeleteOp store key \<Rightarrow> vw(store := (vw store)(key := None)))"

fun view_write :: "jstring \<times> 'v option \<Rightarrow> (jstring \<rightharpoonup> 'v) \<Rightarrow> (jstring \<rightharpoonup> 'v)" where
  "view_write (k, v) m = m(k := v)"

definition strictly_sorted :: "(jstring \<times> 'v) list \<Rightarrow> bool" where
  "strictly_sorted es \<longleftrightarrow> sorted (map fst es) \<and> distinct (map fst es)"

definition page_of :: "int \<Rightarrow> (jstring \<times> 'v) list \<Rightarrow> 'v scan_page" where
  "page_of limit es =
     \<lparr>page_entries = take (nat limit) es,
      next_after = (if limit < int (length es) then Some (fst (es ! (nat limit - 1))) else None)\<rparr>"

text \<open>\<open>es\<close> lists, in key order, what \<open>m\<close> holds under a prefix and after a key.\<close>

definition lists_scan :: "(jstring \<rightharpoonup> 'v) \<Rightarrow> jstring \<Rightarrow> jstring option \<Rightarrow> (jstring \<times> 'v) list \<Rightarrow> bool" where
  "lists_scan m p after es \<longleftrightarrow> strictly_sorted es \<and> map_of es = m |` {k. in_scan p after k}"

definition conditions_hold :: "('v \<Rightarrow> jstring option) \<Rightarrow> 'v store_view \<Rightarrow> store_condition list \<Rightarrow> bool" where
  "conditions_hold str vw cs \<longleftrightarrow>
     (\<forall>c \<in> set cs. condition_holds str (vw (cond_store c) (cond_key c)) (cond_expected c))"

locale mesh_store =
  fixes ops :: "('s, 'v, 'e, 'r) mesh_store_ops" and view :: "'s \<Rightarrow> 'v store_view"
    and wf :: "'s \<Rightarrow> bool" and declared :: "jstring \<Rightarrow> bool" and str :: "'v \<Rightarrow> jstring option"
  assumes get_law: "wf s \<Longrightarrow> declared n \<Longrightarrow> \<exists>s'. ms_get ops s n k = (Inr (view s n k), s') \<and> view s' = view s \<and> wf s'"
    and put_law: "wf s \<Longrightarrow> declared n \<Longrightarrow>
      \<exists>s'. ms_put ops s n k v = (Inr (), s') \<and> view s' = (view s)(n := (view s n)(k := Some v)) \<and> wf s'"
    and delete_law: "wf s \<Longrightarrow> declared n \<Longrightarrow>
      \<exists>s'. ms_delete ops s n k = (Inr (), s') \<and> view s' = (view s)(n := (view s n)(k := None)) \<and> wf s'"
    and list_law: "wf s \<Longrightarrow> declared n \<Longrightarrow>
      \<exists>es s'. ms_list ops s n = (Inr es, s') \<and> distinct (map fst es) \<and> map_of es = view s n \<and>
        view s' = view s \<and> wf s'"
    and scan_law: "wf s \<Longrightarrow> declared n \<Longrightarrow> prefix_scan_input p a l = (Inr () :: 'e store_error + unit) \<Longrightarrow>
      \<exists>es s'. ms_scan ops s n p a l = (Inr (page_of l es), s') \<and> lists_scan (view s n) p a es \<and>
        view s' = view s \<and> wf s'"
    and scan_error_law: "prefix_scan_input p a l = Inl err \<Longrightarrow> ms_scan ops s n p a l = (Inl err, s)"
    and batch_law: "wf s \<Longrightarrow> \<forall>x \<in> set bs. declared (op_store x) \<Longrightarrow>
      \<exists>s'. ms_batch ops s bs = (Inr (), s') \<and> view s' = fold view_apply bs (view s) \<and> wf s'"
    and cas_law: "wf s \<Longrightarrow> \<forall>c \<in> set cs. declared (cond_store c) \<Longrightarrow> \<forall>x \<in> set bs. declared (op_store x) \<Longrightarrow>
      \<exists>s'. wf s' \<and> ms_cas ops s cs bs g =
        (case check_conditions [] cs of
           Inl err \<Rightarrow> Inl err
         | Inr _ \<Rightarrow> if \<not> conditions_hold str (view s) cs then Inr False
                   else (case g of Some e \<Rightarrow> Inl (Raised e) | None \<Rightarrow> Inr True), s') \<and>
        view s' = (if check_conditions [] cs = (Inr () :: 'e store_error + unit) \<and>
                      conditions_hold str (view s) cs \<and> g = None
                   then fold view_apply bs (view s) else view s)"
    and update_law: "wf s \<Longrightarrow> declared n \<Longrightarrow>
      \<exists>s'. wf s' \<and> (case f (view s n k) of
          Inl e \<Rightarrow> ms_update ops s n k f = (Inl (Raised e), s') \<and> view s' = view s
        | Inr v \<Rightarrow> ms_update ops s n k f = (Inr v, s') \<and> view s' = (view s)(n := (view s n)(k := v)))"
    and update_records_law: "wf s \<Longrightarrow> declared n \<Longrightarrow>
      \<exists>s'. wf s' \<and>
        (case bind_r (record_update_keys ks) (\<lambda>ks. record_update_input ks (map (view s n) ks) change) of
           Inl err \<Rightarrow> ms_update_records ops s n ks change = (Inl err, s') \<and> view s' = view s
         | Inr (ws, r) \<Rightarrow> ms_update_records ops s n ks change = (Inr r, s') \<and>
             view s' = (view s)(n := fold view_write ws (view s n)))"

section \<open>The memory store keeps the contract\<close>

definition mem_map :: "'v mem_store \<Rightarrow> jstring \<Rightarrow> 'v js_map" where
  "mem_map st n = (case map_of st n of None \<Rightarrow> [] | Some m \<Rightarrow> m)"

definition mem_wf :: "'v mem_store \<Rightarrow> bool" where
  "mem_wf st \<longleftrightarrow> (\<forall>n. distinct (map fst (mem_map st n)))"

lemma mem_lookup_eq: "mem_lookup st n k = map_of (mem_map st n) k"
  by (simp add: mem_lookup_def mem_map_def split: option.splits)

lemma mem_lookup_fun: "mem_lookup st = (\<lambda>n. map_of (mem_map st n))"
  by (simp add: mem_lookup_eq fun_eq_iff)

lemma mem_map_update [simp]: "mem_map (AList.update n m st) = (mem_map st)(n := m)"
  by (auto simp: mem_map_def update_conv' fun_eq_iff)

lemma mem_store_of_eq: "\<exists>st'. mem_store_of st n = (mem_map st n, st') \<and> mem_map st' = mem_map st"
proof (cases "map_of st n")
  case None
  then have "mem_map st n = []" by (simp add: mem_map_def)
  then have "mem_map (AList.update n [] st) = mem_map st" by (simp add: fun_upd_idem)
  with None show ?thesis by (simp add: mem_store_of_def mem_map_def)
next
  case (Some m)
  then show ?thesis by (simp add: mem_store_of_def mem_map_def)
qed

lemma mem_wf_update: "mem_wf st \<Longrightarrow> mem_map st' = (mem_map st)(n := m) \<Longrightarrow> distinct (map fst m) \<Longrightarrow> mem_wf st'"
  by (simp add: mem_wf_def)

lemma mem_wf_map: "mem_wf st \<Longrightarrow> distinct (map fst (mem_map st n))"
  by (simp add: mem_wf_def)

lemma mem_view_update: "mem_map st' = (mem_map st)(n := m) \<Longrightarrow> mem_lookup st' = (mem_lookup st)(n := map_of m)"
  by (simp add: mem_lookup_fun fun_eq_iff)

lemma mem_store_ofE:
  obtains st' where "mem_store_of st n = (mem_map st n, st')" "mem_map st' = mem_map st"
    "mem_lookup st' = mem_lookup st" "mem_wf st' = mem_wf st"
proof -
  obtain st' where st': "mem_store_of st n = (mem_map st n, st')" "mem_map st' = mem_map st"
    using mem_store_of_eq by blast
  from st'(2) have "mem_lookup st' = mem_lookup st" "mem_wf st' = mem_wf st"
    by (simp_all add: mem_lookup_fun mem_wf_def)
  with st' show ?thesis by (rule that)
qed

lemma mem_step:
  assumes "mem_wf st" "mem_map st' = mem_map st" "distinct (map fst m)"
  shows "mem_lookup (AList.update n m st') = (mem_lookup st)(n := map_of m)" "mem_wf (AList.update n m st')"
  using assms mem_view_update [of "AList.update n m st'" st n m] mem_wf_update [of st "AList.update n m st'" n m]
  by simp_all

lemmas map_facts = distinct_update distinct_delete update_conv' delete_conv' mem_wf_map

lemma mem_get_law: "mem_wf s \<Longrightarrow>
  \<exists>s'. mem_get s n k = (Inr (mem_lookup s n k), s') \<and> mem_lookup s' = mem_lookup s \<and> mem_wf s'"
  by (rule mem_store_ofE [of s n]) (simp add: mem_get_def mem_lookup_eq)

lemma mem_put_law: "mem_wf s \<Longrightarrow>
  \<exists>s'. mem_put s n k v = (Inr (), s') \<and> mem_lookup s' = (mem_lookup s)(n := (mem_lookup s n)(k := Some v)) \<and> mem_wf s'"
  by (rule mem_store_ofE [of s n]) (simp add: mem_put_def map_facts mem_step, simp add: mem_lookup_fun)

lemma mem_delete_law: "mem_wf s \<Longrightarrow>
  \<exists>s'. mem_delete s n k = (Inr (), s') \<and> mem_lookup s' = (mem_lookup s)(n := (mem_lookup s n)(k := None)) \<and> mem_wf s'"
  by (rule mem_store_ofE [of s n]) (simp add: mem_delete_def map_facts mem_step, simp add: mem_lookup_fun)

lemma mem_list_law: "mem_wf s \<Longrightarrow>
  \<exists>es s'. mem_list s n = (Inr es, s') \<and> distinct (map fst es) \<and> map_of es = mem_lookup s n \<and>
    mem_lookup s' = mem_lookup s \<and> mem_wf s'"
  by (rule mem_store_ofE [of s n]) (simp add: mem_list_def map_facts, simp add: mem_lookup_fun)

lemma map_of_filter_keys: "map_of (filter (\<lambda>(k, v). P k) es) = map_of es |` {k. P k}"
proof (induction es)
  case Nil
  then show ?case by simp
next
  case (Cons x es)
  then show ?case by (cases x) (auto simp: restrict_map_def fun_eq_iff)
qed

lemma distinct_keys_filter: "distinct (map fst es) \<Longrightarrow> distinct (map fst (filter P es))"
  by (simp add: distinct_map_filter)

lemma strictly_sorted_sort_key:
  "distinct (map fst es) \<Longrightarrow> strictly_sorted (sort_key fst es) \<and> map_of (sort_key fst es) = map_of es"
proof -
  assume d: "distinct (map fst es)"
  have "distinct (map fst (sort_key fst es))"
    using d mset_eq_imp_distinct_iff [of "map fst (sort_key fst es)" "map fst es"] by simp
  moreover from this have "map_of (sort_key fst es) = map_of es"
    by (rule map_of_perm [rotated]) simp
  ultimately show ?thesis by (simp add: strictly_sorted_def)
qed

lemma mem_scan_law:
  assumes wf: "mem_wf s" and ok: "prefix_scan_input p a l = (Inr () :: 'e store_error + unit)"
  shows "\<exists>es s'. mem_scan s n p a l = ((Inr (page_of l es) :: 'e store_error + 'v scan_page), s') \<and>
    lists_scan (mem_lookup s n) p a es \<and> mem_lookup s' = mem_lookup s \<and> mem_wf s'"
proof -
  obtain s' where s': "mem_store_of s n = (mem_map s n, s')" "mem_map s' = mem_map s"
      "mem_lookup s' = mem_lookup s" "mem_wf s' = mem_wf s" by (rule mem_store_ofE)
  let ?es = "filter (\<lambda>(k, v). in_scan p a k) (mem_map s n)"
  have "distinct (map fst ?es)" using mem_wf_map [OF wf] by (rule distinct_keys_filter)
  then have "lists_scan (mem_lookup s n) p a (sort_key fst ?es)"
    using strictly_sorted_sort_key [of ?es] map_of_filter_keys [of "in_scan p a" "mem_map s n"]
    by (simp add: lists_scan_def mem_lookup_fun)
  then show ?thesis
    using s' ok wf
    by (intro exI [of _ "sort_key fst ?es"] exI [of _ s']) (simp add: mem_scan_def page_of_def Let_def)
qed

lemma mem_apply_law:
  assumes wf: "mem_wf s"
  shows "mem_lookup (mem_apply x s) = view_apply x (mem_lookup s) \<and> mem_wf (mem_apply x s)"
proof -
  obtain s' where s': "mem_store_of s (op_store x) = (mem_map s (op_store x), s')" "mem_map s' = mem_map s"
    by (rule mem_store_ofE)
  show ?thesis
  proof (cases x)
    case (PutOp n k v)
    with s' wf show ?thesis
      by (simp add: mem_apply_def view_apply_def map_facts mem_step, simp add: mem_lookup_fun)
  next
    case (DeleteOp n k)
    with s' wf show ?thesis
      by (simp add: mem_apply_def view_apply_def map_facts mem_step, simp add: mem_lookup_fun)
  qed
qed

lemma mem_fold_law:
  "mem_wf s \<Longrightarrow> mem_lookup (fold mem_apply bs s) = fold view_apply bs (mem_lookup s) \<and> mem_wf (fold mem_apply bs s)"
  by (induction bs arbitrary: s) (simp_all add: mem_apply_law)

lemma write_record_law:
  "distinct (map fst m) \<Longrightarrow> distinct (map fst (write_record w m)) \<and> map_of (write_record w m) = view_write w (map_of m)"
  by (induction w m rule: write_record.induct) (simp_all add: distinct_update distinct_delete update_conv' delete_conv')

lemma fold_write_record_law:
  "distinct (map fst m) \<Longrightarrow> distinct (map fst (fold write_record ws m)) \<and>
     map_of (fold write_record ws m) = fold view_write ws (map_of m)"
  by (induction ws arbitrary: m) (simp_all add: write_record_law)

lemma mem_update_law:
  assumes wf: "mem_wf s"
  shows "\<exists>s'. mem_wf s' \<and> (case f (mem_lookup s n k) of
      Inl e \<Rightarrow> mem_update s n k f = (Inl (Raised e), s') \<and> mem_lookup s' = mem_lookup s
    | Inr v \<Rightarrow> mem_update s n k f = (Inr v, s') \<and> mem_lookup s' = (mem_lookup s)(n := (mem_lookup s n)(k := v)))"
proof -
  obtain s' where s': "mem_store_of s n = (mem_map s n, s')" "mem_map s' = mem_map s"
      "mem_lookup s' = mem_lookup s" "mem_wf s' = mem_wf s" by (rule mem_store_ofE)
  show ?thesis
  proof (cases "f (mem_lookup s n k)")
    case (Inl e)
    then show ?thesis using s' wf by (simp add: mem_update_def mem_lookup_eq)
  next
    case (Inr v)
    then show ?thesis
    proof (cases v)
      case None
      then show ?thesis using Inr s' wf
        by (simp add: mem_update_def mem_lookup_eq map_facts mem_step, simp add: mem_lookup_fun)
    next
      case (Some x)
      then show ?thesis using Inr s' wf
        by (simp add: mem_update_def mem_lookup_eq map_facts mem_step, simp add: mem_lookup_fun)
    qed
  qed
qed

lemma mem_update_records_law:
  assumes wf: "mem_wf s"
  shows "\<exists>s'. mem_wf s' \<and>
    (case bind_r (record_update_keys ks) (\<lambda>ks. record_update_input ks (map (mem_lookup s n) ks) change) of
       Inl err \<Rightarrow> mem_update_records s n ks change = (Inl err, s') \<and> mem_lookup s' = mem_lookup s
     | Inr (ws, r) \<Rightarrow> mem_update_records s n ks change = (Inr r, s') \<and>
         mem_lookup s' = (mem_lookup s)(n := fold view_write ws (mem_lookup s n)))"
proof -
  have m: "(case map_of s n of None \<Rightarrow> [] | Some m \<Rightarrow> m) = mem_map s n" by (simp add: mem_map_def)
  have v: "mem_lookup s n = map_of (mem_map s n)" by (simp add: mem_lookup_fun)
  note w = fold_write_record_law [OF mem_wf_map [OF wf, of n]]
  have e: "mem_update_records s n ks change =
      (case bind_r (record_update_keys ks) (\<lambda>ks. record_update_input ks (map (mem_lookup s n) ks) change) of
         Inl err \<Rightarrow> (Inl err, s)
       | Inr (ws, r) \<Rightarrow> (Inr r, AList.update n (fold write_record ws (mem_map s n)) s))"
    by (simp add: mem_update_records_def m v bind_r_def split: sum.splits)
  show ?thesis
    unfolding e using wf w by (auto simp: v mem_step split: sum.splits)
qed

lemma mem_cas_law:
  assumes wf: "mem_wf s"
  shows "\<exists>s'. mem_wf s' \<and> mem_cas str s cs bs (g :: 'e option) =
    (case check_conditions [] cs of
       Inl err \<Rightarrow> Inl err
     | Inr _ \<Rightarrow> if \<not> conditions_hold str (mem_lookup s) cs then Inr False
               else (case g of Some e \<Rightarrow> Inl (Raised e) | None \<Rightarrow> Inr True), s') \<and>
    mem_lookup s' = (if check_conditions [] cs = (Inr () :: 'e store_error + unit) \<and>
                        conditions_hold str (mem_lookup s) cs \<and> g = None
                     then fold view_apply bs (mem_lookup s) else mem_lookup s)"
  using wf mem_fold_law [OF wf, of bs]
  by (auto simp: mem_cas_def conditions_hold_def split: sum.splits option.splits)

interpretation memory: mesh_store "memory_ops str" mem_lookup mem_wf "\<lambda>_. True" str for str
  by (unfold_locales; unfold memory_ops_def mesh_store_ops.simps)
    (rule mem_get_law mem_put_law mem_delete_law mem_list_law mem_scan_law mem_update_law
       mem_update_records_law mem_cas_law; assumption
     | simp add: mem_scan_def | simp add: mem_batch_def mem_fold_law)+

section \<open>The browser store keeps the contract\<close>

definition idb_view :: "'v idb \<Rightarrow> 'v store_view" where
  "idb_view db n = map_of (object_store db n)"

definition idb_wf :: "'v idb \<Rightarrow> bool" where
  "idb_wf db \<longleftrightarrow> (\<forall>n. strictly_sorted (object_store db n))"

lemma keys_idb_put [simp]: "fst ` set (idb_put key v rs) = insert key (fst ` set rs)"
  by (induction key v rs rule: idb_put.induct) auto

lemma strictly_sorted_Cons:
  "strictly_sorted ((k, v) # rs) \<longleftrightarrow> (\<forall>x \<in> fst ` set rs. k < x) \<and> strictly_sorted rs"
  by (auto simp: strictly_sorted_def order_le_less) 

lemma idb_put_law:
  "strictly_sorted rs \<Longrightarrow> strictly_sorted (idb_put key v rs) \<and> map_of (idb_put key v rs) = (map_of rs)(key := Some v)"
  by (induction key v rs rule: idb_put.induct) (auto simp: strictly_sorted_Cons fun_upd_twist split: if_splits)

lemma sorted_filter_keys: "strictly_sorted rs \<Longrightarrow> strictly_sorted (filter P rs)"
  by (simp add: strictly_sorted_def sorted_filter distinct_map_filter)

lemma idb_delete_law:
  "strictly_sorted rs \<Longrightarrow> strictly_sorted (idb_delete key rs) \<and> map_of (idb_delete key rs) = (map_of rs)(key := None)"
  by (auto simp: idb_delete_def sorted_filter_keys map_of_filter_keys fun_eq_iff restrict_map_def)

lemma object_store_set [simp]: "object_store (set_object_store n rs db) = (object_store db)(n := rs)"
  by (auto simp: object_store_def set_object_store_def update_conv' fun_eq_iff)

lemma idb_set:
  "idb_wf db \<Longrightarrow> strictly_sorted rs \<Longrightarrow> idb_wf (set_object_store n rs db)"
  "idb_view (set_object_store n rs db) = (idb_view db)(n := map_of rs)"
  by (simp_all add: idb_wf_def idb_view_def fun_eq_iff)

lemma idb_wf_sorted: "idb_wf db \<Longrightarrow> strictly_sorted (object_store db n)"
  by (simp add: idb_wf_def)

lemma map_of_object_store: "map_of (object_store db n) = idb_view db n"
  by (simp add: idb_view_def)

lemmas idb_facts = idb_set idb_put_law idb_delete_law idb_wf_sorted map_of_object_store

lemma idb_apply_law: "idb_wf db \<Longrightarrow> idb_view (idb_apply x db) = view_apply x (idb_view db) \<and> idb_wf (idb_apply x db)"
  by (cases x) (simp_all add: idb_apply_def view_apply_def idb_facts)

lemma idb_fold_law:
  "idb_wf db \<Longrightarrow> idb_view (fold idb_apply bs db) = fold view_apply bs (idb_view db) \<and> idb_wf (fold idb_apply bs db)"
  by (induction bs arbitrary: db) (simp_all add: idb_apply_law)

lemma idb_write_record_law:
  "strictly_sorted rs \<Longrightarrow> strictly_sorted (idb_write_record w rs) \<and> map_of (idb_write_record w rs) = view_write w (map_of rs)"
  by (induction w rs rule: idb_write_record.induct) (simp_all add: idb_facts)

lemma fold_idb_write_record_law:
  "strictly_sorted rs \<Longrightarrow> strictly_sorted (fold idb_write_record ws rs) \<and>
     map_of (fold idb_write_record ws rs) = fold view_write ws (map_of rs)"
  by (induction ws arbitrary: rs) (simp_all add: idb_write_record_law)

lemma list_cursor_eq [simp]: "list_cursor acc rs = acc @ rs"
  by (induction acc rs rule: list_cursor.induct) simp_all

lemma scan_cursor_eq:
  assumes "\<forall>k \<in> fst ` set rs. starts_with p k" "0 < limit" "length entries \<le> limit"
  shows "scan_cursor p limit entries rs = page_of (int limit) (entries @ rs)"
  using assms
proof (induction p limit entries rs rule: scan_cursor.induct)
  case (1 p limit entries)
  then show ?case by (simp add: page_of_def)
next
  case (2 p limit entries k v rs)
  show ?case
  proof (cases "length entries = limit")
    case True
    then show ?thesis using 2 by (cases "entries = []") (auto simp: page_of_def nth_append last_conv_nth)
  next
    case False
    then show ?thesis using 2 by simp
  qed
qed

lemma bs_scan_law:
  assumes wf: "idb_wf db" and n: "n \<in> set stores"
    and ok: "prefix_scan_input p a l = (Inr () :: 'e store_error + unit)"
  shows "\<exists>es s'. bs_scan stores True db n p a l = ((Inr (page_of l es) :: 'e store_error + 'v scan_page), s') \<and>
    lists_scan (idb_view db n) p a es \<and> idb_view s' = idb_view db \<and> idb_wf s'"
proof -
  let ?es = "filter (\<lambda>(k, v). in_scan p a k) (object_store db n)"
  from ok have l: "0 < nat l" "int (nat l) = l" by (auto simp: prefix_scan_input_def split: if_splits)
  have "scan_cursor p (nat l) [] ?es = page_of l ?es"
    using scan_cursor_eq [of ?es p "nat l" "[]"] l by (auto simp: in_scan_def)
  moreover have "lists_scan (idb_view db n) p a ?es"
    using idb_wf_sorted [OF wf] by (simp add: lists_scan_def sorted_filter_keys map_of_filter_keys idb_view_def)
  ultimately show ?thesis
    using wf n ok scan_range_iff [OF ok]
    by (intro exI [of _ ?es] exI [of _ db]) (simp add: bs_scan_def bs_run_def transaction_def)
qed

lemma bs_update_law:
  assumes "idb_wf db" "n \<in> set stores"
  shows "\<exists>s'. idb_wf s' \<and> (case f (idb_view db n k) of
      Inl e \<Rightarrow> bs_update stores True db n k f = (Inl (Raised e), s') \<and> idb_view s' = idb_view db
    | Inr v \<Rightarrow> bs_update stores True db n k f = (Inr v, s') \<and> idb_view s' = (idb_view db)(n := (idb_view db n)(k := v)))"
proof (cases "f (idb_view db n k)")
  case (Inl e)
  then show ?thesis using assms by (simp add: bs_update_def bs_run_def idb_facts)
next
  case (Inr v)
  then show ?thesis using assms
    by (cases v) (simp_all add: bs_update_def bs_run_def transaction_def idb_facts Let_def)
qed

lemma bs_update_records_law:
  assumes wf: "idb_wf db" and n: "n \<in> set stores"
  shows "\<exists>s'. idb_wf s' \<and>
    (case bind_r (record_update_keys ks) (\<lambda>ks. record_update_input ks (map (idb_view db n) ks) change) of
       Inl err \<Rightarrow> bs_update_records stores True db n ks change = (Inl err, s') \<and> idb_view s' = idb_view db
     | Inr (ws, r) \<Rightarrow> bs_update_records stores True db n ks change = (Inr r, s') \<and>
         idb_view s' = (idb_view db)(n := fold view_write ws (idb_view db n)))"
proof -
  note w = fold_idb_write_record_law [OF idb_wf_sorted [OF wf, of n]]
  have e: "bs_update_records stores True db n ks change =
      (case bind_r (record_update_keys ks) (\<lambda>ks. record_update_input ks (map (idb_view db n) ks) change) of
         Inl err \<Rightarrow> (Inl err, db)
       | Inr (ws, r) \<Rightarrow> (Inr r, set_object_store n (fold idb_write_record ws (object_store db n)) db))"
    using n by (simp add: bs_update_records_def bs_run_def transaction_def map_of_object_store bind_r_def
      split: sum.splits)
  show ?thesis
    unfolding e using wf w by (auto simp: idb_facts split: sum.splits)
qed

lemma bs_cas_law:
  assumes wf: "idb_wf db" and "\<forall>c \<in> set cs. cond_store c \<in> set stores" "\<forall>x \<in> set bs. op_store x \<in> set stores"
  shows "\<exists>s'. idb_wf s' \<and> bs_cas str stores True db cs bs (g :: 'e option) =
    (case check_conditions [] cs of
       Inl err \<Rightarrow> Inl err
     | Inr _ \<Rightarrow> if \<not> conditions_hold str (idb_view db) cs then Inr False
               else (case g of Some e \<Rightarrow> Inl (Raised e) | None \<Rightarrow> Inr True), s') \<and>
    idb_view s' = (if check_conditions [] cs = (Inr () :: 'e store_error + unit) \<and>
                        conditions_hold str (idb_view db) cs \<and> g = None
                     then fold view_apply bs (idb_view db) else idb_view db)"
proof -
  have names: "js_uniq (map cond_store cs @ map op_store bs) = [] \<longleftrightarrow> cs = [] \<and> bs = []"
    using set_js_uniq [of "map cond_store cs @ map op_store bs"] by (metis append_is_Nil_conv map_is_Nil_conv set_empty)
  have known: "\<not> (\<exists>x \<in> set (js_uniq (map cond_store cs @ map op_store bs)). x \<notin> set stores)"
    using assms(2,3) by auto
  show ?thesis
    using wf idb_fold_law [OF wf, of bs] known
    by (auto simp: bs_cas_def names conditions_hold_def map_of_object_store transaction_def Let_def
      split: sum.splits option.splits)
qed

lemma bs_simple_laws:
  assumes "idb_wf db"
  shows "n \<in> set stores \<Longrightarrow> \<exists>s'. bs_get stores True db n k = (Inr (idb_view db n k), s') \<and> idb_view s' = idb_view db \<and> idb_wf s'"
    "n \<in> set stores \<Longrightarrow> \<exists>s'. bs_put stores True db n k v = (Inr (), s') \<and>
       idb_view s' = (idb_view db)(n := (idb_view db n)(k := Some v)) \<and> idb_wf s'"
    "n \<in> set stores \<Longrightarrow> \<exists>s'. bs_delete stores True db n k = (Inr (), s') \<and>
       idb_view s' = (idb_view db)(n := (idb_view db n)(k := None)) \<and> idb_wf s'"
    "n \<in> set stores \<Longrightarrow> \<exists>es s'. bs_list stores True db n = (Inr es, s') \<and> distinct (map fst es) \<and>
       map_of es = idb_view db n \<and> idb_view s' = idb_view db \<and> idb_wf s'"
    "\<forall>x \<in> set bs. op_store x \<in> set stores \<Longrightarrow>
       \<exists>s'. bs_batch stores True db bs = (Inr (), s') \<and> idb_view s' = fold view_apply bs (idb_view db) \<and> idb_wf s'"
  using assms idb_wf_sorted [OF assms, of n, unfolded strictly_sorted_def] idb_fold_law [OF assms, of bs]
  by (auto simp: bs_get_def bs_put_def bs_delete_def bs_list_def bs_batch_def bs_run_def transaction_def
    idb_facts)

interpretation browser: mesh_store "browser_ops str stores True" idb_view idb_wf "\<lambda>n. n \<in> set stores" str
  for str stores
  by (unfold_locales; unfold browser_ops_def mesh_store_ops.simps)
    (rule bs_simple_laws bs_scan_law bs_update_law bs_update_records_law bs_cas_law; assumption
     | simp add: bs_scan_def)+

section \<open>Paging through a scan\<close>

text \<open>The loop of a client that follows \<open>nextAfter\<close> until it is \<open>null\<close>; \<open>None\<close> is an error or fuel
  that ran out.\<close>

fun drain_scan :: "('s, 'v, 'e, 'r) mesh_store_ops \<Rightarrow> nat \<Rightarrow> 's \<Rightarrow> jstring \<Rightarrow> jstring \<Rightarrow> jstring option \<Rightarrow> int
    \<Rightarrow> (jstring \<times> 'v) list option" where
  "drain_scan ops 0 s n p after limit = None"
| "drain_scan ops (Suc fuel) s n p after limit =
     (case ms_scan ops s n p after limit of
        (Inl e, s') \<Rightarrow> None
      | (Inr page, s') \<Rightarrow>
          (case next_after page of
             None \<Rightarrow> Some (page_entries page)
           | Some a \<Rightarrow> map_option (append (page_entries page)) (drain_scan ops fuel s' n p (Some a) limit)))"

lemma lists_scan_unique: "lists_scan m p a xs \<Longrightarrow> lists_scan m p a ys \<Longrightarrow> xs = ys"
proof -
  assume a: "lists_scan m p a xs" "lists_scan m p a ys"
  then have d: "distinct (map fst xs)" "distinct (map fst ys)" "sorted (map fst xs)" "sorted (map fst ys)"
    and m: "map_of xs = map_of ys" by (auto simp: lists_scan_def strictly_sorted_def)
  have s: "set xs = set ys" using map_of_inject_set [OF d(1,2)] m by simp
  then have "inj_on fst (set xs \<union> set ys)" using d(1) by (simp add: distinct_map)
  then show ?thesis using d s by (intro map_sorted_distinct_set_unique [of fst]) auto
qed

lemma in_scan_after:
  "starts_with p b \<Longrightarrow> in_scan p a b \<Longrightarrow> in_scan p (Some b) k \<longleftrightarrow> in_scan p a k \<and> b < k"
  by (auto simp: in_scan_def split: option.splits)

lemma lists_scan_keys: "lists_scan m p a es \<Longrightarrow> x \<in> set es \<Longrightarrow> in_scan p a (fst x)"
proof -
  assume a: "lists_scan m p a es" "x \<in> set es"
  then have "distinct (map fst es)" "(fst x, snd x) \<in> set es" by (simp_all add: lists_scan_def strictly_sorted_def)
  then have "map_of es (fst x) = Some (snd x)" by (rule map_of_is_SomeI)
  with a(1) show ?thesis by (auto simp: lists_scan_def restrict_map_def split: if_splits)
qed

lemma sorted_split_after:
  assumes "strictly_sorted (xs @ (b, v) # ys)"
  shows "filter (\<lambda>(k, w). b < k) (xs @ (b, v) # ys) = ys"
proof -
  have "filter (\<lambda>(k, w). b < k) xs = []"
    using assms by (force simp: strictly_sorted_def sorted_append filter_empty_conv)
  moreover have "filter (\<lambda>(k, w). b < k) ys = ys"
    using assms by (force simp: strictly_sorted_def sorted_append filter_id_conv order_le_less)
  ultimately show ?thesis by simp
qed

lemma lists_scan_rest:
  assumes es: "lists_scan m p a (xs @ (b, v) # ys)"
  shows "lists_scan m p (Some b) ys"
proof -
  let ?es = "xs @ (b, v) # ys"
  have b: "in_scan p a b" using lists_scan_keys [OF es, of "(b, v)"] by simp
  then have iff: "in_scan p (Some b) k \<longleftrightarrow> in_scan p a k \<and> b < k" for k
    by (intro in_scan_after) (simp add: in_scan_def)
  have s: "strictly_sorted ?es" and m: "map_of ?es = m |` {k. in_scan p a k}"
    using es by (simp_all add: lists_scan_def)
  have "ys = filter (\<lambda>(k, v). b < k) ?es"
    using sorted_split_after [OF s] by (rule sym)
  then have "map_of ys = map_of ?es |` {k. b < k}"
    by (metis map_of_filter_keys)
  moreover have "strictly_sorted ys" using s by (simp add: strictly_sorted_def sorted_append)
  ultimately show ?thesis
    unfolding lists_scan_def m by (auto simp: restrict_map_def iff fun_eq_iff)
qed

lemma page_of_more:
  assumes "0 < l" "l < int (length es)"
  obtains xs b v ys where "es = xs @ (b, v) # ys" "page_entries (page_of l es) = xs @ [(b, v)]"
    "next_after (page_of l es) = Some b"
proof -
  let ?i = "nat l - 1"
  have i: "?i < length es" "Suc ?i = nat l" using assms by auto
  obtain b v where bv: "es ! ?i = (b, v)" by (cases "es ! ?i")
  have "es = take ?i es @ (b, v) # drop (Suc ?i) es" using id_take_nth_drop [OF i(1)] bv by simp
  moreover have "page_entries (page_of l es) = take ?i es @ [(b, v)]"
    using take_Suc_conv_app_nth [OF i(1)] i(2) bv by (simp add: page_of_def)
  moreover have "next_after (page_of l es) = Some b" using assms bv by (simp add: page_of_def)
  ultimately show ?thesis by (rule that)
qed

context mesh_store
begin

lemma drain_complete:
  assumes "lists_scan (view s n) p a es" "wf s" "declared n" "length es < fuel"
    "prefix_scan_input p a l = (Inr () :: 'e store_error + unit)"
  shows "drain_scan ops fuel s n p a l = Some es"
  using assms
proof (induction fuel arbitrary: s a es)
  case 0
  then show ?case by simp
next
  case (Suc fuel)
  obtain s' where s': "ms_scan ops s n p a l = (Inr (page_of l es), s')" "view s' = view s" "wf s'"
    using scan_law [OF Suc.prems(2,3,5)] lists_scan_unique [OF _ Suc.prems(1)] by blast
  have l: "0 < l" using Suc.prems(5) by (auto simp: prefix_scan_input_def split: if_splits)
  show ?case
  proof (cases "l < int (length es)")
    case False
    then show ?thesis using s' by (simp add: page_of_def)
  next
    case True
    with l obtain xs b v ys where es: "es = xs @ (b, v) # ys"
      and pg: "page_entries (page_of l es) = xs @ [(b, v)]" "next_after (page_of l es) = Some b"
      by (rule page_of_more)
    have rest: "lists_scan (view s' n) p (Some b) ys"
      using Suc.prems(1) unfolding es s'(2) by (rule lists_scan_rest)
    have "starts_with p b"
      using lists_scan_keys [OF Suc.prems(1), of "(b, v)"] es by (simp add: in_scan_def)
    then have "prefix_scan_input p (Some b) l = (Inr () :: 'e store_error + unit)"
      using Suc.prems(5) by (auto simp: prefix_scan_input_def split: if_splits)
    then have "drain_scan ops fuel s' n p (Some b) l = Some ys"
      using Suc.IH [OF rest s'(3) Suc.prems(3)] Suc.prems(4) es by simp
    then show ?thesis using s'(1) pg es by simp
  qed
qed

end

section \<open>Clients cannot tell the stores apart\<close>

datatype ('v, 'e, 'r) store_command =
    CGet jstring jstring
  | CPut jstring jstring 'v
  | CDelete jstring jstring
  | CScan jstring jstring "jstring option" int
  | CBatch "'v store_operation list"
  | CCas "store_condition list" "'v store_operation list" "'e option"
  | CUpdate jstring jstring "'v option \<Rightarrow> 'e + 'v option"
  | CUpdateRecords jstring "jstring list" "'v option list \<Rightarrow> ('v, 'e, 'r) plan_outcome"

datatype ('v, 'e, 'r) store_output =
    OValue "'v option" | OUnit | OPage "'v scan_page" | OBool bool | OResult 'r | OError "'e store_error"

fun settled_output :: "('r \<Rightarrow> ('v, 'e, 'o) store_output) \<Rightarrow> ('s, 'e, 'r) settled \<Rightarrow> ('v, 'e, 'o) store_output \<times> 's" where
  "settled_output f (Inl e, s) = (OError e, s)"
| "settled_output f (Inr r, s) = (f r, s)"

fun run_command :: "('s, 'v, 'e, 'r) mesh_store_ops \<Rightarrow> 's \<Rightarrow> ('v, 'e, 'r) store_command
    \<Rightarrow> ('v, 'e, 'r) store_output \<times> 's" where
  "run_command ops s (CGet n k) = settled_output OValue (ms_get ops s n k)"
| "run_command ops s (CPut n k v) = settled_output (\<lambda>_. OUnit) (ms_put ops s n k v)"
| "run_command ops s (CDelete n k) = settled_output (\<lambda>_. OUnit) (ms_delete ops s n k)"
| "run_command ops s (CScan n p a l) = settled_output OPage (ms_scan ops s n p a l)"
| "run_command ops s (CBatch bs) = settled_output (\<lambda>_. OUnit) (ms_batch ops s bs)"
| "run_command ops s (CCas cs bs g) = settled_output OBool (ms_cas ops s cs bs g)"
| "run_command ops s (CUpdate n k f) = settled_output OValue (ms_update ops s n k f)"
| "run_command ops s (CUpdateRecords n ks f) = settled_output OResult (ms_update_records ops s n ks f)"


fun names_of :: "('v, 'e, 'r) store_command \<Rightarrow> jstring set" where
  "names_of (CGet n k) = {n}"
| "names_of (CPut n k v) = {n}"
| "names_of (CDelete n k) = {n}"
| "names_of (CScan n p a l) = {n}"
| "names_of (CBatch bs) = op_store ` set bs"
| "names_of (CCas cs bs g) = cond_store ` set cs \<union> op_store ` set bs"
| "names_of (CUpdate n k f) = {n}"
| "names_of (CUpdateRecords n ks f) = {n}"

text \<open>What a command does to the map a client sees: the specification of both stores.\<close>

fun spec_command :: "('v \<Rightarrow> jstring option) \<Rightarrow> 'v store_view \<Rightarrow> ('v, 'e, 'r) store_command \<Rightarrow> 'v store_view" where
  "spec_command str vw (CGet n k) = vw"
| "spec_command str vw (CPut n k v) = vw(n := (vw n)(k := Some v))"
| "spec_command str vw (CDelete n k) = vw(n := (vw n)(k := None))"
| "spec_command str vw (CScan n p a l) = vw"
| "spec_command str vw (CBatch bs) = fold view_apply bs vw"
| "spec_command str vw (CCas cs bs g) =
     (if check_conditions [] cs = (Inr () :: unit store_error + unit) \<and> conditions_hold str vw cs \<and> g = None
      then fold view_apply bs vw else vw)"
| "spec_command str vw (CUpdate n k f) =
     (case f (vw n k) of Inl e \<Rightarrow> vw | Inr v \<Rightarrow> vw(n := (vw n)(k := v)))"
| "spec_command str vw (CUpdateRecords n ks f) =
     (case bind_r (record_update_keys ks) (\<lambda>ks. record_update_input ks (map (vw n) ks) f) of
        Inl err \<Rightarrow> vw
      | Inr (ws, r) \<Rightarrow> vw(n := fold view_write ws (vw n)))"

text \<open>What a command answers, as a function of the same map.\<close>

definition spec_answer :: "('v \<Rightarrow> jstring option) \<Rightarrow> 'v store_view \<Rightarrow> ('v, 'e, 'r) store_command
    \<Rightarrow> ('v, 'e, 'r) store_output \<Rightarrow> bool" where
  "spec_answer str vw c r \<longleftrightarrow>
     (case c of
        CGet n k \<Rightarrow> r = OValue (vw n k)
      | CPut n k v \<Rightarrow> r = OUnit
      | CDelete n k \<Rightarrow> r = OUnit
      | CScan n p a l \<Rightarrow>
          (case prefix_scan_input p a l of
             Inl e \<Rightarrow> r = OError e
           | Inr _ \<Rightarrow> \<exists>es. lists_scan (vw n) p a es \<and> r = OPage (page_of l es))
      | CBatch bs \<Rightarrow> r = OUnit
      | CCas cs bs g \<Rightarrow>
          r = (case check_conditions [] cs of
                 Inl e \<Rightarrow> OError e
               | Inr _ \<Rightarrow> if \<not> conditions_hold str vw cs then OBool False
                         else (case g of Some e \<Rightarrow> OError (Raised e) | None \<Rightarrow> OBool True))
      | CUpdate n k f \<Rightarrow> r = (case f (vw n k) of Inl e \<Rightarrow> OError (Raised e) | Inr v \<Rightarrow> OValue v)
      | CUpdateRecords n ks f \<Rightarrow>
          r = (case bind_r (record_update_keys ks) (\<lambda>ks. record_update_input ks (map (vw n) ks) f) of
                 Inl e \<Rightarrow> OError e | Inr (ws, x) \<Rightarrow> OResult x))"

lemma check_conditions_cases:
  "check_conditions seen cs = (if distinct (map (\<lambda>c. (cond_store c, cond_key c)) cs) \<and>
      set seen \<inter> (\<lambda>c. (cond_store c, cond_key c)) ` set cs = {} then Inr () else Inl InvalidConditions)"
  by (induction cs arbitrary: seen) (auto simp: Let_def)


context mesh_store
begin

lemma command_refines:
  assumes wf: "wf s" and d: "\<forall>n \<in> names_of c. declared n" and r: "run_command ops s c = (r, s')"
  shows "spec_answer str (view s) c r \<and> view s' = spec_command str (view s) c \<and> wf s'"
proof (cases c)
  case (CGet n k)
  with r d show ?thesis using get_law [OF wf, of n k] by (auto simp: spec_answer_def)
next
  case (CPut n k v)
  with r d show ?thesis using put_law [OF wf, of n k v] by (auto simp: spec_answer_def)
next
  case (CDelete n k)
  with r d show ?thesis using delete_law [OF wf, of n k] by (auto simp: spec_answer_def)
next
  case (CScan n p a l)
  show ?thesis
  proof (cases "prefix_scan_input p a l :: 'e store_error + unit")
    case (Inl e)
    with CScan r wf scan_error_law [OF Inl] show ?thesis by (auto simp: spec_answer_def)
  next
    case (Inr u)
    then have "prefix_scan_input p a l = (Inr () :: 'e store_error + unit)" by simp
    from scan_law [OF wf _ this, of n] CScan r d Inr show ?thesis by (auto simp: spec_answer_def)
  qed
next
  case (CBatch bs)
  with r d show ?thesis using batch_law [OF wf, of bs] by (auto simp: spec_answer_def)
next
  case (CCas cs bs g)
  with d obtain s1 where s1: "wf s1" "ms_cas ops s cs bs g =
        (case check_conditions [] cs of
           Inl err \<Rightarrow> Inl err
         | Inr _ \<Rightarrow> if \<not> conditions_hold str (view s) cs then Inr False
                   else (case g of Some e \<Rightarrow> Inl (Raised e) | None \<Rightarrow> Inr True), s1)"
        "view s1 = (if check_conditions [] cs = (Inr () :: 'e store_error + unit) \<and>
                      conditions_hold str (view s) cs \<and> g = None
                   then fold view_apply bs (view s) else view s)"
    using cas_law [OF wf, of cs bs g] by auto
  with CCas r show ?thesis
    by (auto simp: spec_answer_def check_conditions_cases split: if_splits option.splits)
next
  case (CUpdate n k f)
  with d obtain s1 where "wf s1" "case f (view s n k) of
          Inl e \<Rightarrow> ms_update ops s n k f = (Inl (Raised e), s1) \<and> view s1 = view s
        | Inr v \<Rightarrow> ms_update ops s n k f = (Inr v, s1) \<and> view s1 = (view s)(n := (view s n)(k := v))"
    using update_law [OF wf, where n = n and k = k and f = f] by auto
  with CUpdate r show ?thesis by (auto simp: spec_answer_def split: sum.splits)
next
  case (CUpdateRecords n ks f)
  with d update_records_law [OF wf, of n ks f] r show ?thesis
    by (auto simp: spec_answer_def split: sum.splits)
qed

end



section \<open>The properties of the stores\<close>

definition fresh_idb :: "jstring list \<Rightarrow> 'v idb" where
  "fresh_idb stores = \<lparr>idb_version = 1, object_stores = map (\<lambda>n. (n, [])) stores\<rparr>"

lemma object_store_fresh [simp]: "object_store (fresh_idb stores) n = []"
  by (auto simp: object_store_def fresh_idb_def map_of_map_restrict restrict_map_def split: option.splits if_splits)




text \<open>C5. A client of the browser store that follows \<open>nextAfter\<close> from page to page reads every record whose
  key has the prefix, exactly once and in key order, whatever the page size.\<close>

theorem browser_scan_complete:
  assumes "idb_wf db" "n \<in> set stores" "prefix_scan_input p None limit = (Inr () :: 'e store_error + unit)"
  shows "drain_scan (browser_ops str stores True :: ('v idb, 'v, 'e, 'r) mesh_store_ops)
      (Suc (length (object_store db n))) db n p None limit
    = Some (filter (\<lambda>(k, v). starts_with p k) (object_store db n))"
proof (rule browser.drain_complete)
  show "lists_scan (idb_view db n) p None (filter (\<lambda>(k, v). starts_with p k) (object_store db n))"
    using idb_wf_sorted [OF assms(1)]
    by (simp add: lists_scan_def sorted_filter_keys map_of_filter_keys idb_view_def in_scan_def)
qed (use assms in \<open>simp_all add: le_imp_less_Suc\<close>)

definition demo_idb :: "nat idb" where
  "demo_idb = \<lparr>idb_version = 1, object_stores =
     [(js ''s'', [(js ''a'', 0), (js ''b1'', 1), (js ''b2'', 2), (js ''b3'', 3), (js ''c'', 4)])]\<rparr>"

theorem browser_scan_complete_witness:
  "drain_scan (browser_ops (\<lambda>_. None) [js ''s''] True :: (nat idb, nat, unit, unit) mesh_store_ops)
     6 demo_idb (js ''s'') (js ''b'') None 2 = Some [(js ''b1'', 1), (js ''b2'', 2), (js ''b3'', 3)]"
proof -
  have len: "Suc (length (object_store demo_idb (js ''s''))) = 6" by code_simp
  have "strictly_sorted (object_store demo_idb n)" for n
    by (auto simp: object_store_def demo_idb_def strictly_sorted_def js_def)
  then have "idb_wf demo_idb" by (simp add: idb_wf_def)
  moreover have "js ''s'' \<in> set [js ''s'']" by simp
  moreover have "prefix_scan_input (js ''b'') None 2 = (Inr () :: unit store_error + unit)" by code_simp
  ultimately have "drain_scan (browser_ops (\<lambda>_. None) [js ''s''] True :: (nat idb, nat, unit, unit) mesh_store_ops)
     (Suc (length (object_store demo_idb (js ''s'')))) demo_idb (js ''s'') (js ''b'') None 2 =
     Some (filter (\<lambda>(k, v). starts_with (js ''b'') k) (object_store demo_idb (js ''s'')))"
    by (rule browser_scan_complete)
  moreover have "filter (\<lambda>(k, v). starts_with (js ''b'') k) (object_store demo_idb (js ''s'')) =
      [(js ''b1'', 1), (js ''b2'', 2), (js ''b3'', 3)]" by code_simp
  ultimately show ?thesis unfolding len by simp
qed


text \<open>C7. A connection that \<open>open\<close> hands out has every object store the class was built with; when another
  tab blocks the upgrade, the refusal is kept and answers later calls without queueing another open.\<close>

theorem browser_open_has_stores:
  assumes "case database of Some (Inr db) \<Rightarrow> has_stores stores db | _ \<Rightarrow> True"
    and "bs_open request stores database w = (r, database', w')"
  shows "(case r of Inr db \<Rightarrow> has_stores stores db | Inl e \<Rightarrow> True) \<and>
    (case database' of Some (Inr db) \<Rightarrow> has_stores stores db | _ \<Rightarrow> True) \<and>
    (r = Inl UpgradeBlocked \<longrightarrow> bs_open request stores database' w' = (r, database', w'))"
proof -
  have att: "open_attempts request stores n w = (Inr db, w') \<Longrightarrow> has_stores stores db" for n w db
    by (induction request stores n w rule: open_attempts.induct) (auto split: prod.splits sum.splits if_splits)
  show ?thesis
    using assms att by (auto simp: bs_open_def open_with_stores_def split: option.splits prod.splits sum.splits if_splits)
qed

text \<open>A first open of a new database finds no object store; the upgrade to the next version creates it.\<close>

definition demo_request :: "(nat, nat) open_request" where
  "demo_request w version =
     (case version of
        None \<Rightarrow> (Inr \<lparr>idb_version = 1, object_stores = []\<rparr>, w + 1)
      | Some v \<Rightarrow> (Inr \<lparr>idb_version = v, object_stores = [(js ''s'', [])]\<rparr>, w + 1))"

theorem browser_open_has_stores_witness:
  "bs_open demo_request [js ''s''] None 0 =
     (Inr \<lparr>idb_version = 2, object_stores = [(js ''s'', [])]\<rparr>,
      Some (Inr \<lparr>idb_version = 2, object_stores = [(js ''s'', [])]\<rparr>), 2) \<and>
   has_stores [js ''s''] \<lparr>idb_version = 2, object_stores = [(js ''s'', [] :: (jstring \<times> nat) list)]\<rparr>"
proof -
  have run: "bs_open demo_request [js ''s''] None 0 =
     (Inr \<lparr>idb_version = 2, object_stores = [(js ''s'', [])]\<rparr>,
      Some (Inr \<lparr>idb_version = 2, object_stores = [(js ''s'', [])]\<rparr>), 2)" by code_simp
  from browser_open_has_stores [OF _ run] run show ?thesis by simp
qed

end
