(* ===== verification/Durable_Replica_Store.thy ===== *)
theory Durable_Replica_Store
  imports Mesh_Store
begin

text \<open>
  The client classes of \<open>packages/mesh-browser-store/src/index.ts\<close>: \<open>DurableReplicaStore\<close>, which
  keeps document changes, snapshots and outbox claims in any \<open>MeshStore\<close>, and
  \<open>BrowserReplicaInvalidation\<close>, which reconciles tabs over a broadcast channel. The planner
  functions it calls through the wasm runtime are the ones of
  \<open>crates/meta-mesh-core/src/persistence.rs\<close>.

  The definitions take the store as its record of operations; the lemmas are proved once over the
  contract \<open>mesh_store\<close> and hold for both implementations. Shown: an admitted change is never
  overwritten, an outbox batch has at most one owner while its claim lives, and a tab
  reconciles exactly when the announced heads differ from its own.
\<close>

section \<open>Change admission\<close>

record 'p document_change =
  ch_hash :: jstring
  ch_bytes :: bytes
  ch_proof :: 'p

record 'p incoming_change =
  in_hash :: jstring
  in_bytes :: bytes
  in_proof :: 'p
  in_verified :: bool
  in_existing :: "bytes option"

record 'p stored_change =
  sc_document :: jstring
  sc_hash :: jstring
  sc_bytes :: bytes
  sc_proof :: 'p
  sc_verified_at :: jstring

record stored_snapshot =
  sn_version :: int
  sn_document :: jstring
  sn_heads :: "jstring list"
  sn_bytes :: bytes
  sn_created_at :: jstring

record outbox_claim =
  oc_document :: jstring
  oc_target :: jstring
  oc_batch :: jstring
  oc_owner :: jstring
  oc_claimed_at :: int
  oc_expires_at :: int

datatype 'p replica_value = VChange "'p stored_change" | VSnapshot stored_snapshot | VClaim outbox_claim

datatype replica_error =
    InvalidChangeBatch | ChangeVerificationFailed | ChangeHashCollision
  | InvalidSnapshot | InvalidClaimLifetime | MalformedClaim

record 'p change_admission_plan =
  plan_accepted_hashes :: "jstring list"
  plan_duplicate_hashes :: "jstring list"
  plan_accepted :: "'p stored_change list"

fun admission_loop :: "jstring \<Rightarrow> jstring \<Rightarrow> jstring set \<Rightarrow> 'p change_admission_plan \<Rightarrow> 'p incoming_change list
    \<Rightarrow> replica_error + 'p change_admission_plan" where
  "admission_loop document verified_at seen plan [] = Inr plan"
| "admission_loop document verified_at seen plan (c # cs) =
     (if in_hash c = [] \<or> \<not> in_verified c \<or> in_hash c \<in> seen then Inl ChangeVerificationFailed
      else
        (case in_existing c of
           Some existing \<Rightarrow>
             if existing \<noteq> in_bytes c then Inl ChangeHashCollision
             else admission_loop document verified_at (insert (in_hash c) seen)
                    (plan\<lparr>plan_duplicate_hashes := plan_duplicate_hashes plan @ [in_hash c]\<rparr>) cs
         | None \<Rightarrow>
             admission_loop document verified_at (insert (in_hash c) seen)
               (plan\<lparr>plan_accepted_hashes := plan_accepted_hashes plan @ [in_hash c],
                     plan_accepted := plan_accepted plan @
                       [\<lparr>sc_document = document, sc_hash = in_hash c, sc_bytes = in_bytes c,
                         sc_proof = in_proof c, sc_verified_at = verified_at\<rparr>]\<rparr>) cs))"

definition plan_change_admission :: "jstring \<Rightarrow> 'p incoming_change list \<Rightarrow> jstring
    \<Rightarrow> replica_error + 'p change_admission_plan" where
  "plan_change_admission document changes verified_at =
     (if document = [] \<or> changes = [] \<or> verified_at = [] then Inl InvalidChangeBatch
      else admission_loop document verified_at {}
             \<lparr>plan_accepted_hashes = [], plan_duplicate_hashes = [], plan_accepted = []\<rparr> changes)"

record replica_names =
  names_changes :: jstring
  names_snapshots :: jstring
  names_claims :: jstring

definition default_names :: replica_names where
  "default_names = \<lparr>names_changes = js ''replica-changes'', names_snapshots = js ''replica-snapshots'',
     names_claims = js ''replica-claims''\<rparr>"

definition change_key :: "jstring \<Rightarrow> jstring \<Rightarrow> jstring" where
  "change_key document hash = document @ [0] @ hash"

definition claim_key :: "jstring \<Rightarrow> jstring \<Rightarrow> jstring \<Rightarrow> jstring" where
  "claim_key document target batch = document @ [0] @ target @ [0] @ batch"

text \<open>\<open>existing?.bytes\<close> of whatever record is stored under the key.\<close>

fun value_bytes :: "'p replica_value \<Rightarrow> bytes option" where
  "value_bytes (VChange c) = Some (sc_bytes c)"
| "value_bytes (VSnapshot s) = Some (sn_bytes s)"
| "value_bytes (VClaim c) = None"

text \<open>The first loop of \<open>admitChanges\<close>: look up each change and verify it. A settlement of the store
  that is rejected, or a verifier that throws, ends it.\<close>

fun gather_changes :: "('s, 'p replica_value, replica_error, 'r) mesh_store_ops \<Rightarrow> replica_names \<Rightarrow> jstring
    \<Rightarrow> ('p document_change \<Rightarrow> replica_error + bool) \<Rightarrow> 's \<Rightarrow> 'p document_change list
    \<Rightarrow> 'p incoming_change list \<Rightarrow> ('s, replica_error, 'p incoming_change list) settled" where
  "gather_changes ops names document verify s [] acc = (Inr acc, s)"
| "gather_changes ops names document verify s (c # cs) acc =
     (case ms_get ops s (names_changes names) (change_key document (ch_hash c)) of
        (Inl e, s') \<Rightarrow> (Inl e, s')
      | (Inr existing, s') \<Rightarrow>
          (case verify c of
             Inl e \<Rightarrow> (Inl (Raised e), s')
           | Inr ok \<Rightarrow> gather_changes ops names document verify s' cs
               (acc @ [\<lparr>in_hash = ch_hash c, in_bytes = ch_bytes c, in_proof = ch_proof c, in_verified = ok,
                        in_existing = Option.bind existing value_bytes\<rparr>])))"

definition admit_operation :: "replica_names \<Rightarrow> jstring \<Rightarrow> 'p stored_change \<Rightarrow> 'p replica_value store_operation" where
  "admit_operation names document c = PutOp (names_changes names) (change_key document (sc_hash c)) (VChange c)"

definition admit_changes :: "('s, 'p replica_value, replica_error, 'r) mesh_store_ops \<Rightarrow> replica_names \<Rightarrow> jstring
    \<Rightarrow> 'p document_change list \<Rightarrow> jstring \<Rightarrow> ('p document_change \<Rightarrow> replica_error + bool) \<Rightarrow> 's
    \<Rightarrow> ('s, replica_error, jstring list \<times> jstring list) settled" where
  "admit_changes ops names document changes verified_at verify s =
     (case gather_changes ops names document verify s changes [] of
        (Inl e, s1) \<Rightarrow> (Inl e, s1)
      | (Inr incoming, s1) \<Rightarrow>
          (case plan_change_admission document incoming verified_at of
             Inl e \<Rightarrow> (Inl (Raised e), s1)
           | Inr plan \<Rightarrow>
               (case ms_batch ops s1 (map (admit_operation names document) (plan_accepted plan)) of
                  (Inl e, s2) \<Rightarrow> (Inl e, s2)
                | (Inr _, s2) \<Rightarrow> (Inr (plan_accepted_hashes plan, plan_duplicate_hashes plan), s2))))"

text \<open>\<open>changes\<close>: the records under the document's prefix, sorted by hash; \<open>le\<close> is \<open>localeCompare\<close>.\<close>

fun value_hash :: "'p replica_value \<Rightarrow> jstring" where
  "value_hash (VChange c) = sc_hash c"
| "value_hash v = []"

definition replica_changes :: "('s, 'p replica_value, replica_error, 'r) mesh_store_ops \<Rightarrow> replica_names
    \<Rightarrow> (jstring \<Rightarrow> jstring \<Rightarrow> bool) \<Rightarrow> jstring \<Rightarrow> 's \<Rightarrow> ('s, replica_error, 'p replica_value list) settled" where
  "replica_changes ops names le document s =
     (case ms_list ops s (names_changes names) of
        (Inl e, s') \<Rightarrow> (Inl e, s')
      | (Inr entries, s') \<Rightarrow>
          (Inr (js_sort (\<lambda>x y. le (value_hash x) (value_hash y))
             (map snd (filter (\<lambda>entry. starts_with (document @ [0]) (fst entry)) entries))), s'))"

definition put_snapshot :: "('s, 'p replica_value, replica_error, 'r) mesh_store_ops \<Rightarrow> replica_names
    \<Rightarrow> stored_snapshot \<Rightarrow> 's \<Rightarrow> ('s, replica_error, unit) settled" where
  "put_snapshot ops names snapshot s =
     (if sn_version snapshot \<noteq> 1 \<or> sn_document snapshot = [] \<or> length (sn_heads snapshot) = 0
      then (Inl (Raised InvalidSnapshot), s)
      else ms_put ops s (names_snapshots names) (sn_document snapshot) (VSnapshot snapshot))"

definition get_snapshot :: "('s, 'p replica_value, replica_error, 'r) mesh_store_ops \<Rightarrow> replica_names
    \<Rightarrow> jstring \<Rightarrow> 's \<Rightarrow> ('s, replica_error, 'p replica_value option) settled" where
  "get_snapshot ops names document s = ms_get ops s (names_snapshots names) document"

section \<open>Outbox claims\<close>

record claim_input =
  ci_document :: jstring
  ci_target :: jstring
  ci_batch :: jstring
  ci_owner :: jstring
  ci_now :: int
  ci_ttl_ms :: int

definition max_i64 :: int where
  "max_i64 = 2 ^ 63 - 1"

definition transition_outbox_claim :: "outbox_claim option \<Rightarrow> claim_input
    \<Rightarrow> replica_error + outbox_claim \<times> bool" where
  "transition_outbox_claim current i =
     (if ci_document i = [] \<or> ci_target i = [] \<or> ci_batch i = [] \<or> ci_owner i = [] \<or> ci_ttl_ms i \<le> 0
      then Inl InvalidClaimLifetime
      else
        (let granted =
           (if max_i64 < ci_now i + ci_ttl_ms i then Inl InvalidClaimLifetime
            else Inr (\<lparr>oc_document = ci_document i, oc_target = ci_target i, oc_batch = ci_batch i,
                       oc_owner = ci_owner i, oc_claimed_at = ci_now i,
                       oc_expires_at = ci_now i + ci_ttl_ms i\<rparr>, True))
         in case current of
              Some c \<Rightarrow>
                if ci_now i < oc_expires_at c \<and> oc_owner c \<noteq> ci_owner i then Inr (c, False) else granted
            | None \<Rightarrow> granted))"

fun claim_change :: "claim_input \<Rightarrow> 'p replica_value option \<Rightarrow> replica_error + 'p replica_value option" where
  "claim_change i None = bind_r (transition_outbox_claim None i) (\<lambda>(c, a). Inr (Some (VClaim c)))"
| "claim_change i (Some (VClaim c)) = bind_r (transition_outbox_claim (Some c) i) (\<lambda>(c, a). Inr (Some (VClaim c)))"
| "claim_change i (Some v) = Inl MalformedClaim"

text \<open>\<open>claimOutbox\<close>: the callback of \<open>update\<close> also records \<open>acquired\<close>. The transition sets it exactly when the
  claim it returns has the caller's owner (\<open>transition_acquired\<close> below), which is how it is read here.\<close>

definition claim_outbox :: "('s, 'p replica_value, replica_error, 'r) mesh_store_ops \<Rightarrow> replica_names
    \<Rightarrow> claim_input \<Rightarrow> 's \<Rightarrow> ('s, replica_error, outbox_claim option) settled" where
  "claim_outbox ops names i s =
     (case ms_update ops s (names_claims names) (claim_key (ci_document i) (ci_target i) (ci_batch i)) (claim_change i) of
        (Inr (Some (VClaim c)), s') \<Rightarrow> (Inr (if oc_owner c = ci_owner i then Some c else None), s')
      | (Inr v, s') \<Rightarrow> (Inr None, s')
      | (Inl e, s') \<Rightarrow> (Inl e, s'))"

fun claim_all :: "('s, 'p replica_value, replica_error, 'r) mesh_store_ops \<Rightarrow> replica_names
    \<Rightarrow> claim_input list \<Rightarrow> 's \<Rightarrow> (replica_error store_error + outbox_claim option) list \<times> 's" where
  "claim_all ops names [] s = ([], s)"
| "claim_all ops names (i # is) s =
     (let (r, s1) = claim_outbox ops names i s; (rs, s2) = claim_all ops names is s1 in (r # rs, s2))"

section \<open>Invalidation between tabs\<close>

record invalidation_channel =
  inv_closed :: bool
  inv_listening :: bool
  inv_channel_open :: bool
  inv_posted :: "jsval list"

definition invalidation_message :: "jstring \<Rightarrow> jstring list \<Rightarrow> jsval" where
  "invalidation_message document heads =
     JObj [(js ''version'', JNum 1), (js ''documentId'', JStr document), (js ''heads'', JArr (map JStr heads))]"

definition invalidation_publish :: "jstring \<Rightarrow> jstring list \<Rightarrow> invalidation_channel \<Rightarrow> invalidation_channel" where
  "invalidation_publish document heads c =
     (if inv_closed c then c else c\<lparr>inv_posted := inv_posted c @ [invalidation_message document heads]\<rparr>)"

definition invalidation_close :: "invalidation_channel \<Rightarrow> invalidation_channel" where
  "invalidation_close c =
     (if inv_closed c then c else c\<lparr>inv_closed := True, inv_listening := False, inv_channel_open := False\<rparr>)"

text \<open>\<open>receive\<close> up to its \<open>await\<close>: the document and heads of a well-formed message.\<close>

definition receive_begin :: "bool \<Rightarrow> jsval \<Rightarrow> (jstring \<times> jstring list) option" where
  "receive_begin closed raw =
     (if closed then None
      else if js_prop raw (js ''version'') \<noteq> JNum 1 then None
      else
        (case js_str (js_prop raw (js ''documentId'')) of
           None \<Rightarrow> None
         | Some document \<Rightarrow>
             if document = [] then None
             else
               (case js_strs (js_prop raw (js ''heads'')) of
                  None \<Rightarrow> None
                | Some heads \<Rightarrow> if [] \<in> set heads then None else Some (document, heads))))"

text \<open>\<open>receive\<close> after \<open>currentHeads\<close> has answered: the call of \<open>reconcile\<close>, if any.\<close>

definition receive_resume :: "bool \<Rightarrow> jstring list \<Rightarrow> jstring \<times> jstring list \<Rightarrow> (jstring \<times> jstring list) option" where
  "receive_resume closed current_heads m =
     (let current = sort current_heads in
      if closed then None
      else
        (let announced = sort (snd m) in
         if length current \<noteq> length announced \<or>
            (\<exists>i \<in> set [0..<length current]. i < length announced \<and> current ! i \<noteq> announced ! i)
         then Some (fst m, announced) else None))"

text \<open>\<open>reconcileOnFocus\<close>. \<open>closed_at n\<close> tells whether the object is closed when the \<open>n\<close>-th \<open>await\<close> resumes;
  the result lists the calls of \<open>reconcile\<close>.\<close>

fun reconcile_on_focus :: "(nat \<Rightarrow> bool) \<Rightarrow> (jstring \<Rightarrow> jstring list) \<Rightarrow> (jstring \<Rightarrow> jstring list) \<Rightarrow> nat \<Rightarrow> jstring list
    \<Rightarrow> (jstring \<times> jstring list) list" where
  "reconcile_on_focus closed_at current_heads durable_heads n [] = []"
| "reconcile_on_focus closed_at current_heads durable_heads n (d # ds) =
     (if closed_at n then []
      else if closed_at (n + 1) then []
      else
        (case receive_begin (closed_at (n + 1)) (invalidation_message d (durable_heads d)) of
           None \<Rightarrow> reconcile_on_focus closed_at current_heads durable_heads (n + 2) ds
         | Some m \<Rightarrow>
             (case receive_resume (closed_at (n + 2)) (current_heads d) m of
                None \<Rightarrow> reconcile_on_focus closed_at current_heads durable_heads (n + 3) ds
              | Some call \<Rightarrow> call # reconcile_on_focus closed_at current_heads durable_heads (n + 4) ds)))"

section \<open>Lemmas\<close>

lemma transition_acquired:
  "transition_outbox_claim current i = Inr (c, a) \<Longrightarrow> a \<longleftrightarrow> oc_owner c = ci_owner i"
  by (auto simp: transition_outbox_claim_def Let_def split: if_splits option.splits)

lemma transition_refused:
  assumes "ci_now i < oc_expires_at c" "oc_owner c \<noteq> ci_owner i"
  shows "transition_outbox_claim (Some c) i = Inl InvalidClaimLifetime \<or>
    transition_outbox_claim (Some c) i = Inr (c, False)"
  using assms by (auto simp: transition_outbox_claim_def)

lemma claim_change_refused:
  assumes "ci_now i < oc_expires_at c" "oc_owner c \<noteq> ci_owner i"
  shows "claim_change i (Some (VClaim c)) = Inl InvalidClaimLifetime \<or>
    claim_change i (Some (VClaim c)) = Inr (Some (VClaim c))"
  using transition_refused [OF assms] by auto

text \<open>What a successful admission plan holds.\<close>

definition stored_of :: "jstring \<Rightarrow> jstring \<Rightarrow> 'p incoming_change \<Rightarrow> 'p stored_change" where
  "stored_of document verified_at c = \<lparr>sc_document = document, sc_hash = in_hash c, sc_bytes = in_bytes c,
     sc_proof = in_proof c, sc_verified_at = verified_at\<rparr>"

lemma admission_loop_ok:
  assumes "admission_loop document verified_at seen plan cs = Inr plan'"
  shows "plan_accepted plan' = plan_accepted plan @ map (stored_of document verified_at) (filter (\<lambda>c. in_existing c = None) cs) \<and>
    plan_accepted_hashes plan' = plan_accepted_hashes plan @ map in_hash (filter (\<lambda>c. in_existing c = None) cs) \<and>
    plan_duplicate_hashes plan' = plan_duplicate_hashes plan @ map in_hash (filter (\<lambda>c. in_existing c \<noteq> None) cs) \<and>
    distinct (map in_hash cs) \<and> seen \<inter> in_hash ` set cs = {} \<and>
    (\<forall>c \<in> set cs. in_hash c \<noteq> [] \<and> in_verified c \<and> (in_existing c = None \<or> in_existing c = Some (in_bytes c)))"
  using assms
proof (induction cs arbitrary: seen plan)
  case Nil
  then show ?case by simp
next
  case (Cons c cs)
  then show ?case by (cases "in_existing c") (force simp: stored_of_def split: if_splits)+
qed

lemma plan_change_admission_ok:
  assumes "plan_change_admission document cs verified_at = Inr plan"
  shows "plan_accepted plan = map (stored_of document verified_at) (filter (\<lambda>c. in_existing c = None) cs)"
    "plan_accepted_hashes plan = map in_hash (filter (\<lambda>c. in_existing c = None) cs)"
    "plan_duplicate_hashes plan = map in_hash (filter (\<lambda>c. in_existing c \<noteq> None) cs)"
    "distinct (map in_hash cs)"
    "\<forall>c \<in> set cs. in_hash c \<noteq> [] \<and> in_verified c \<and> (in_existing c = None \<or> in_existing c = Some (in_bytes c))"
  using assms admission_loop_ok [of document verified_at "{}" _ cs plan]
  by (auto simp: plan_change_admission_def split: if_splits)

section \<open>The replica store over any store\<close>

definition incoming_of :: "('p replica_value store_view) \<Rightarrow> replica_names \<Rightarrow> jstring \<Rightarrow> 'p document_change
    \<Rightarrow> 'p incoming_change" where
  "incoming_of vw names document c = \<lparr>in_hash = ch_hash c, in_bytes = ch_bytes c, in_proof = ch_proof c,
     in_verified = True,
     in_existing = Option.bind (vw (names_changes names) (change_key document (ch_hash c))) value_bytes\<rparr>"

text \<open>The records of the change store all carry bytes.\<close>

definition changes_wf :: "'p replica_value store_view \<Rightarrow> replica_names \<Rightarrow> bool" where
  "changes_wf vw names \<longleftrightarrow> (\<forall>k v. vw (names_changes names) k = Some v \<longrightarrow> value_bytes v \<noteq> None)"

lemma change_key_inj [simp]: "change_key d h = change_key d h' \<longleftrightarrow> h = h'"
  by (simp add: change_key_def)

lemma view_apply_admit:
  "view_apply (admit_operation names d c) vw =
     vw(names_changes names := (vw (names_changes names))(change_key d (sc_hash c) := Some (VChange c)))"
  by (simp add: admit_operation_def view_apply_def)

lemma all_verified:
  assumes "length oks = length cs" "map verify cs = map Inr oks"
    "\<forall>x \<in> set (map2 (\<lambda>c ok. (incoming_of vw names d c)\<lparr>in_verified := ok\<rparr>) cs oks). in_verified x"
  shows "map2 (\<lambda>c ok. (incoming_of vw names d c)\<lparr>in_verified := ok\<rparr>) cs oks = map (incoming_of vw names d) cs \<and>
    (\<forall>c \<in> set cs. verify c = Inr True)"
  using assms by (induction oks cs rule: list_induct2) (auto simp: incoming_of_def)

lemma fold_admit_other:
  "n \<noteq> names_changes names \<or> k \<notin> (\<lambda>c. change_key d (sc_hash c)) ` set cs \<Longrightarrow>
   fold view_apply (map (admit_operation names d) cs) vw n k = vw n k"
  by (induction cs arbitrary: vw) (auto simp: view_apply_admit)

lemma fold_admit_same:
  "distinct (map sc_hash cs) \<Longrightarrow> c \<in> set cs \<Longrightarrow>
   fold view_apply (map (admit_operation names d) cs) vw (names_changes names) (change_key d (sc_hash c)) = Some (VChange c)"
proof (induction cs arbitrary: vw)
  case Nil
  then show ?case by simp
next
  case (Cons x cs)
  show ?case
  proof (cases "c = x")
    case True
    then have "change_key d (sc_hash c) \<notin> (\<lambda>c. change_key d (sc_hash c)) ` set cs" using Cons.prems by auto
    then show ?thesis using True fold_admit_other [of "names_changes names" names "change_key d (sc_hash c)" d cs]
      by (simp add: view_apply_admit)
  next
    case False
    then show ?thesis using Cons by simp
  qed
qed

locale replica_store = mesh_store ops view wf declared str
  for ops :: "('s, 'p replica_value, replica_error, 'r) mesh_store_ops" and view wf declared str +
  fixes names :: replica_names
  assumes declared_names: "declared (names_changes names)" "declared (names_snapshots names)" "declared (names_claims names)"
begin

lemma gather_law:
  assumes "wf s" "gather_changes ops names d verify s cs acc = (r, s')"
  shows "view s' = view s \<and> wf s' \<and>
    (\<forall>incoming. r = Inr incoming \<longrightarrow> (\<exists>oks. length oks = length cs \<and>
       incoming = acc @ map2 (\<lambda>c ok. (incoming_of (view s) names d c)\<lparr>in_verified := ok\<rparr>) cs oks \<and>
       map verify cs = map Inr oks))"
  using assms
proof (induction cs arbitrary: s acc)
  case Nil
  then show ?case by auto
next
  case (Cons c cs)
  obtain s1 where s1: "ms_get ops s (names_changes names) (change_key d (ch_hash c)) =
      (Inr (view s (names_changes names) (change_key d (ch_hash c))), s1)" "view s1 = view s" "wf s1"
    using get_law [OF Cons.prems(1) declared_names(1)] by blast
  show ?case
  proof (cases "verify c")
    case (Inl e)
    then show ?thesis using Cons.prems s1 by auto
  next
    case (Inr ok)
    let ?x = "(incoming_of (view s) names d c)\<lparr>in_verified := ok\<rparr>"
    have g: "gather_changes ops names d verify s1 cs (acc @ [?x]) = (r, s')"
      using Cons.prems(2) s1(1) Inr by (simp add: incoming_of_def)
    from Cons.IH [OF s1(3) g] have ih: "view s' = view s" "wf s'" and
      step: "\<And>incoming. r = Inr incoming \<Longrightarrow> \<exists>oks. length oks = length cs \<and>
        incoming = (acc @ [?x]) @ map2 (\<lambda>c ok. (incoming_of (view s) names d c)\<lparr>in_verified := ok\<rparr>) cs oks \<and>
        map verify cs = map Inr oks"
      by (simp_all add: s1(2))
    have "\<exists>oks. length oks = length (c # cs) \<and>
       incoming = acc @ map2 (\<lambda>c ok. (incoming_of (view s) names d c)\<lparr>in_verified := ok\<rparr>) (c # cs) oks \<and>
       map verify (c # cs) = map Inr oks" if r: "r = Inr incoming" for incoming
    proof -
      obtain oks where "length oks = length cs"
        "incoming = (acc @ [?x]) @ map2 (\<lambda>c ok. (incoming_of (view s) names d c)\<lparr>in_verified := ok\<rparr>) cs oks"
        "map verify cs = map Inr oks" using step [OF r] by blast
      with Inr show ?thesis by (intro exI [of _ "ok # oks"]) simp
    qed
    with ih show ?thesis by blast
  qed
qed

lemma admit_cases:
  assumes wf: "wf s" and r: "admit_changes ops names d cs at verify s = (r, s')"
  obtains (refused) e where "r = Inl e" "view s' = view s" "wf s'"
  | (admitted) plan where "wf s'" "r = Inr (plan_accepted_hashes plan, plan_duplicate_hashes plan)"
      "plan_change_admission d (map (incoming_of (view s) names d) cs) at = Inr plan"
      "view s' = fold view_apply (map (admit_operation names d) (plan_accepted plan)) (view s)"
      "\<forall>c \<in> set cs. verify c = Inr True"
proof -
  obtain g s1 where g: "gather_changes ops names d verify s cs [] = (g, s1)" by fastforce
  note gl = gather_law [OF wf g]
  show ?thesis
  proof (cases g)
    case (Inl e)
    then show ?thesis using r g gl refused by (auto simp: admit_changes_def)
  next
    case (Inr incoming)
    show ?thesis
    proof (cases "plan_change_admission d incoming at")
      case (Inl e)
      then show ?thesis using r g gl Inr refused by (auto simp: admit_changes_def)
    next
      case plan: (Inr plan)
      obtain oks where oks: "length oks = length cs" "map verify cs = map Inr oks"
        "incoming = map2 (\<lambda>c ok. (incoming_of (view s) names d c)\<lparr>in_verified := ok\<rparr>) cs oks"
        using gl Inr by auto
      then have "incoming = map (incoming_of (view s) names d) cs \<and> (\<forall>c \<in> set cs. verify c = Inr True)"
        using plan_change_admission_ok(5) [OF plan] all_verified [OF oks(1,2)] by blast
      moreover obtain s2 where "ms_batch ops s1 (map (admit_operation names d) (plan_accepted plan)) = (Inr (), s2)"
        "view s2 = fold view_apply (map (admit_operation names d) (plan_accepted plan)) (view s)" "wf s2"
        using batch_law [of s1 "map (admit_operation names d) (plan_accepted plan)"] gl declared_names(1)
        by (auto simp: admit_operation_def)
      ultimately show ?thesis
        using admitted [of plan] r g Inr plan by (simp add: admit_changes_def)
    qed
  qed
qed

lemma admit_append_only:
  assumes wf: "wf s" and cw: "changes_wf (view s) names" and r: "admit_changes ops names d cs at verify s = (r, s')"
    and v: "view s n k = Some v"
  shows "view s' n k = Some v"
  using wf r
proof (cases rule: admit_cases)
  case refused
  with v show ?thesis by simp
next
  case (admitted plan)
  note ok = plan_change_admission_ok [OF admitted(3)]
  have vb: "value_bytes v \<noteq> None" if "n = names_changes names" using cw v that by (auto simp: changes_wf_def)
  have "k \<noteq> change_key d (sc_hash c)" if "c \<in> set (plan_accepted plan)" "n = names_changes names" for c
    using that v vb ok(1) by (auto simp: incoming_of_def stored_of_def)
  then show ?thesis
    using fold_admit_other [of n names k d "plan_accepted plan" "view s"] v admitted(4) by fastforce
qed

lemma admit_stores:
  assumes wf: "wf s" and r: "admit_changes ops names d cs at verify s = (Inr (accepted, duplicate), s')"
  shows "(\<forall>c \<in> set cs. verify c = Inr True \<and>
      Option.bind (view s' (names_changes names) (change_key d (ch_hash c))) value_bytes = Some (ch_bytes c)) \<and>
    mset (accepted @ duplicate) = mset (map ch_hash cs) \<and> distinct (map ch_hash cs)"
  using wf r
proof (cases rule: admit_cases)
  case refused
  then show ?thesis by simp
next
  case (admitted plan)
  note ok = plan_change_admission_ok [OF admitted(3)]
  let ?in = "incoming_of (view s) names d"
  have h: "map in_hash (map ?in cs) = map ch_hash cs" by (simp add: incoming_of_def)
  then have d: "distinct (map ch_hash cs)" using ok(4) by metis
  have da: "distinct (map sc_hash (plan_accepted plan))"
    using ok(4) by (simp add: ok(1) stored_of_def comp_def distinct_map_filter)
  have "Option.bind (view s' (names_changes names) (change_key d (ch_hash c))) value_bytes = Some (ch_bytes c)"
    if c: "c \<in> set cs" for c
  proof (cases "in_existing (?in c)")
    case None
    then have a: "stored_of d at (?in c) \<in> set (plan_accepted plan)" using c by (simp add: ok(1))
    from fold_admit_same [OF da a, of names d "view s"] admitted(4) show ?thesis
      by (simp add: stored_of_def incoming_of_def)
  next
    case (Some b)
    then have b: "b = ch_bytes c" using ok(5) c by (auto simp: incoming_of_def)
    have "change_key d (ch_hash c) \<notin> (\<lambda>x. change_key d (sc_hash x)) ` set (plan_accepted plan)"
      using c Some by (auto simp: ok(1) stored_of_def incoming_of_def)
    with b Some admitted(4) fold_admit_other [of _ names "change_key d (ch_hash c)" d "plan_accepted plan" "view s"]
    show ?thesis by (simp add: incoming_of_def)
  qed
  moreover have "mset (accepted @ duplicate) = mset (map ch_hash cs)"
    using admitted(2) mset_filter_partition [of in_hash "\<lambda>c. in_existing c = None" "map ?in cs"]
    unfolding h ok(2,3) mset_append by (simp del: mset_map filter_map)
  ultimately show ?thesis using admitted(5) d by simp
qed

lemma claim_law:
  assumes wf: "wf s" and r: "claim_outbox ops names i s = (r, s')"
  shows "wf s' \<and> (case claim_change i (view s (names_claims names) (claim_key (ci_document i) (ci_target i) (ci_batch i))) of
     Inl e \<Rightarrow> r = Inl (Raised e) \<and> view s' = view s
   | Inr v \<Rightarrow> view s' = (view s)(names_claims names :=
         (view s (names_claims names))(claim_key (ci_document i) (ci_target i) (ci_batch i) := v)) \<and>
       r = Inr (case v of Some (VClaim c) \<Rightarrow> if oc_owner c = ci_owner i then Some c else None | _ \<Rightarrow> None))"
proof -
  let ?k = "claim_key (ci_document i) (ci_target i) (ci_batch i)"
  obtain s1 where "wf s1" "case claim_change i (view s (names_claims names) ?k) of
      Inl e \<Rightarrow> ms_update ops s (names_claims names) ?k (claim_change i) = (Inl (Raised e), s1) \<and> view s1 = view s
    | Inr v \<Rightarrow> ms_update ops s (names_claims names) ?k (claim_change i) = (Inr v, s1) \<and>
        view s1 = (view s)(names_claims names := (view s (names_claims names))(?k := v))"
    using update_law [OF wf declared_names(3), where k = ?k and f = "claim_change i"] by blast
  with r show ?thesis
    by (auto simp: claim_outbox_def split: sum.splits option.splits replica_value.splits if_splits)
qed

lemma claims_exclusive:
  assumes "wf s" "view s (names_claims names) key = Some (VClaim c)"
    and "\<forall>i \<in> set is. claim_key (ci_document i) (ci_target i) (ci_batch i) = key \<longrightarrow>
      ci_owner i \<noteq> oc_owner c \<and> ci_now i < oc_expires_at c"
    and "claim_all ops names is s = (rs, s')"
  shows "view s' (names_claims names) key = Some (VClaim c) \<and> length rs = length is \<and>
    (\<forall>j < length is. claim_key (ci_document (is ! j)) (ci_target (is ! j)) (ci_batch (is ! j)) = key \<longrightarrow>
       rs ! j = Inr None \<or> rs ! j = Inl (Raised InvalidClaimLifetime))"
  using assms
proof (induction "is" arbitrary: s rs)
  case Nil
  then show ?case by simp
next
  case (Cons i "is")
  obtain r s1 where r: "claim_outbox ops names i s = (r, s1)" by fastforce
  obtain rs1 where rs: "claim_all ops names is s1 = (rs1, s')" "rs = r # rs1"
    using Cons.prems(4) r by (auto split: prod.splits)
  note law = claim_law [OF Cons.prems(1) r]
  have step: "view s1 (names_claims names) key = Some (VClaim c) \<and>
      (claim_key (ci_document i) (ci_target i) (ci_batch i) = key \<longrightarrow> r = Inr None \<or> r = Inl (Raised InvalidClaimLifetime))"
  proof (cases "claim_key (ci_document i) (ci_target i) (ci_batch i) = key")
    case True
    then have o: "ci_now i < oc_expires_at c" "oc_owner c \<noteq> ci_owner i" using Cons.prems(3) by auto
    note law' = law [unfolded True Cons.prems(2)]
    let ?cur = "Some (VClaim c :: 'p replica_value)"
    have "claim_change i ?cur = Inl InvalidClaimLifetime \<or> claim_change i ?cur = Inr ?cur"
      using o by (rule claim_change_refused)
    then show ?thesis
    proof
      assume "claim_change i ?cur = Inl InvalidClaimLifetime"
      from law' [unfolded this] Cons.prems(2) show ?thesis by simp
    next
      assume "claim_change i ?cur = Inr ?cur"
      from law' [unfolded this] o(2) show ?thesis by simp
    qed
  next
    case False
    with law Cons.prems(2) show ?thesis by (auto split: sum.splits)
  qed
  have "view s' (names_claims names) key = Some (VClaim c) \<and> length rs1 = length is \<and>
    (\<forall>j < length is. claim_key (ci_document (is ! j)) (ci_target (is ! j)) (ci_batch (is ! j)) = key \<longrightarrow>
       rs1 ! j = Inr None \<or> rs1 ! j = Inl (Raised InvalidClaimLifetime))"
    by (rule Cons.IH) (use law step Cons.prems(3) rs(1) in auto)
  with step rs(2) show ?case by (auto simp: nth_Cons split: nat.splits)
qed

end

text \<open>A browser database opened with the three default stores and any others.\<close>

definition replica_stores :: "jstring list \<Rightarrow> jstring list" where
  "replica_stores extra =
     names_changes default_names # names_snapshots default_names # names_claims default_names # extra"

interpretation browser_replica: replica_store "browser_ops str (replica_stores extra) True" idb_view idb_wf
    "\<lambda>n. n \<in> set (replica_stores extra)" str default_names
  for str extra
  by unfold_locales (simp_all add: replica_stores_def)

interpretation memory_replica: replica_store "memory_ops str" mem_lookup mem_wf "\<lambda>_. True" str default_names
  for str
  by unfold_locales simp_all

section \<open>The properties of the replica store\<close>





text \<open>C9. An outbox claim is exclusive: while a claim on a batch has not expired, no sequence of claim attempts of
  other instances, on any batches, acquires that batch or disturbs its claim.\<close>

theorem outbox_claim_exclusive:
  assumes "idb_wf db" "idb_view db (names_claims default_names) key = Some (VClaim c)"
    and "\<forall>i \<in> set is. claim_key (ci_document i) (ci_target i) (ci_batch i) = key \<longrightarrow>
      ci_owner i \<noteq> oc_owner c \<and> ci_now i < oc_expires_at c"
    and "claim_all (browser_ops str (replica_stores extra) True) default_names is db = (rs, db')"
  shows "idb_view db' (names_claims default_names) key = Some (VClaim c) \<and>
    (\<forall>j < length is. claim_key (ci_document (is ! j)) (ci_target (is ! j)) (ci_batch (is ! j)) = key \<longrightarrow>
       rs ! j = Inr None \<or> rs ! j = Inl (Raised InvalidClaimLifetime))"
  using browser_replica.claims_exclusive [OF assms] by blast

definition demo_claim :: "string \<Rightarrow> string \<Rightarrow> int \<Rightarrow> claim_input" where
  "demo_claim batch owner now = \<lparr>ci_document = js ''doc'', ci_target = js ''dev'', ci_batch = js batch,
     ci_owner = js owner, ci_now = now, ci_ttl_ms = 100\<rparr>"

definition demo_claim_db :: "unit replica_value idb" where
  "demo_claim_db = snd (claim_outbox (browser_ops (\<lambda>_. None) (replica_stores []) True :: (_, _, _, unit) mesh_store_ops)
     default_names (demo_claim ''b'' ''A'' 0) (fresh_idb (replica_stores [])))"

definition demo_claims :: "(replica_error store_error + outbox_claim option) list \<times> unit replica_value idb" where
  "demo_claims = claim_all (browser_ops (\<lambda>_. None) (replica_stores []) True :: (_, _, _, unit) mesh_store_ops)
     default_names [demo_claim ''x'' ''B'' 10, demo_claim ''b'' ''B'' 50] demo_claim_db"

theorem outbox_claim_exclusive_witness:
  "idb_view (snd demo_claims) (names_claims default_names) (claim_key (js ''doc'') (js ''dev'') (js ''b'')) =
     Some (VClaim \<lparr>oc_document = js ''doc'', oc_target = js ''dev'', oc_batch = js ''b'', oc_owner = js ''A'',
       oc_claimed_at = 0, oc_expires_at = 100\<rparr>) \<and>
   fst demo_claims ! 1 = Inr None"
proof -
  let ?c = "\<lparr>oc_document = js ''doc'', oc_target = js ''dev'', oc_batch = js ''b'', oc_owner = js ''A'',
       oc_claimed_at = 0, oc_expires_at = 100\<rparr>"
  let ?is = "[demo_claim ''x'' ''B'' 10, demo_claim ''b'' ''B'' 50]"
  let ?key = "claim_key (js ''doc'') (js ''dev'') (js ''b'')"
  have "fst (claim_outbox (browser_ops (\<lambda>_. None) (replica_stores []) True :: (_, _, _, unit) mesh_store_ops)
      default_names (demo_claim ''b'' ''A'' 0) (fresh_idb (replica_stores []) :: unit replica_value idb)) = Inr (Some ?c)"
    by code_simp
  then have first: "claim_outbox (browser_ops (\<lambda>_. None) (replica_stores []) True :: (_, _, _, unit) mesh_store_ops)
      default_names (demo_claim ''b'' ''A'' 0) (fresh_idb (replica_stores [])) = (Inr (Some ?c), demo_claim_db)"
    by (simp add: demo_claim_db_def prod_eq_iff)
  have "idb_wf (fresh_idb (replica_stores []) :: unit replica_value idb)"
    by (simp add: idb_wf_def strictly_sorted_def)
  then have "idb_wf demo_claim_db" using browser_replica.claim_law [OF _ first] by simp
  moreover have "idb_view demo_claim_db (names_claims default_names) ?key = Some (VClaim ?c)" by code_simp
  moreover have "\<forall>i \<in> set ?is. claim_key (ci_document i) (ci_target i) (ci_batch i) = ?key \<longrightarrow>
      ci_owner i \<noteq> oc_owner ?c \<and> ci_now i < oc_expires_at ?c" by code_simp
  moreover have "claim_all (browser_ops (\<lambda>_. None) (replica_stores []) True :: (_, _, _, unit) mesh_store_ops)
     default_names ?is demo_claim_db = (fst demo_claims, snd demo_claims)" by (simp add: demo_claims_def)
  ultimately have "idb_view (snd demo_claims) (names_claims default_names) ?key = Some (VClaim ?c)"
    by (rule outbox_claim_exclusive [THEN conjunct1])
  moreover have "fst demo_claims ! 1 = Inr None" by code_simp
  ultimately show ?thesis by simp
qed

lemma differs_somewhere:
  "(length xs \<noteq> length ys \<or> (\<exists>i \<in> set [0..<length xs]. i < length ys \<and> xs ! i \<noteq> ys ! i)) \<longleftrightarrow> xs \<noteq> ys"
proof (cases "length xs = length ys")
  case True
  then have "xs = ys \<longleftrightarrow> (\<forall>i < length xs. xs ! i = ys ! i)" by (simp add: list_eq_iff_nth_eq)
  with True show ?thesis by auto
qed auto

lemma sort_eq_iff_mset:
  fixes xs :: "'a :: linorder list"
  shows "sort xs = sort ys \<longleftrightarrow> mset xs = mset ys"
proof
  assume "sort xs = sort ys"
  then have "mset (sort xs) = mset (sort ys)" by simp
  then show "mset xs = mset ys" by simp
next
  assume "mset xs = mset ys"
  then show "sort xs = sort ys" using properties_for_sort [of "sort xs" ys] by simp
qed

text \<open>A tab that hears a well-formed announcement calls \<open>reconcile\<close> exactly when it is not closed and
  the announced heads, as a multiset, are not its current heads; it then passes on the announced
  heads, sorted.\<close>

lemma invalidation_reconciles_iff:
  "receive_resume closed current (d, heads) =
     (if \<not> closed \<and> mset current \<noteq> mset heads then Some (d, sort heads) else None)"
  unfolding receive_resume_def Let_def snd_conv fst_conv differs_somewhere sort_eq_iff_mset by simp

end
