(* ===== verification/Replica_Engine.thy ===== *)
theory Replica_Engine
  imports Mesh_Prelude
begin

text \<open>
  The outbox, cursor and receipt algorithm of \<open>packages/mesh-replication/src/replicaEngine.ts\<close>.

  The ports of the engine (repository, content, transport, admission, receipt check, guard) belong
  to the host: they are a record of actions on an unknown world \<open>'w\<close>, each of which may throw.
  The model also writes a log of what the engine asked of them, so that the theorems can speak
  about order. \<open>crypto.randomUUID\<close> is a port. The \<open>observe\<close> callback cannot affect the engine
  (its exceptions are swallowed) and is left out; the promise queue of \<open>enqueue\<close> runs one operation
  after the other, so that an engine is a sequence of operations.

  Shown for every behaviour of the ports: progress is committed one generation at a time, the cursor
  only moves forward and only to an object that was just admitted, a saved upload is
  never replaced by newer content, and it is acknowledged only after its receipt was verified.
\<close>

section \<open>Data\<close>

record 'o replica_pending =
  rp_request_id :: jstring
  rp_observed_sequence :: "int option"
  rp_hash :: jstring
  rp_bytes :: int
  rp_object :: 'o
  rp_revision :: "jstring option"
  rp_identity :: "jstring option"

record 'o replica_state =
  rs_version :: int
  rs_binding :: jstring
  rs_generation :: int
  rs_cursor :: int
  rs_last_uploaded :: jstring
  rs_uploaded_revision :: "jstring option"
  rs_content_identity :: "jstring option"
  rs_pending :: "'o replica_pending option"

record inventory_entry =
  ie_object_id :: jstring
  ie_sequence :: int

record replica_inventory =
  inv_objects :: "inventory_entry list"
  inv_cursor :: int
  inv_has_more :: bool

record 'p replica_content =
  rc_hash :: jstring
  rc_bytes :: int
  rc_payload :: 'p
  rc_identity :: "jstring option"

record admitted =
  ad_hash :: jstring
  ad_identity :: "jstring option"

datatype 'e engine_error =
    InvalidBinding | InvalidAcknowledgment | OutboxBeyondProgress | InvalidOutbox
  | InvalidInventory | InvalidInventorySequence | InvalidInventoryCursor
  | CursorBackwards | ContentBounds | BindingRequired | PortError 'e

datatype ('o, 'r) engine_event =
    Admitted 'o int
  | UploadSent 'o jstring int
  | ReceiptVerified 'r 'o jstring
  | Captured
  | Committed "'o replica_state" "'o replica_state"

record ('w, 'p, 'o, 'r, 'e) replica_ports =
  port_read :: "('w, 'e, 'o replica_state) action"
  port_commit :: "int \<Rightarrow> 'o replica_state \<Rightarrow> ('w, 'e, unit) action"
  port_revision :: "('w, 'e, jstring option) action"
  port_capture :: "('w, 'e, 'p replica_content) action"
  port_seal :: "'p \<Rightarrow> ('w, 'e, 'o) action"
  port_inventory :: "int \<Rightarrow> ('w, 'e, replica_inventory) action"
  port_download :: "jstring \<Rightarrow> ('w, 'e, 'o) action"
  port_upload :: "'o \<Rightarrow> jstring \<Rightarrow> int \<Rightarrow> ('w, 'e, 'r) action"
  port_admit :: "'o \<Rightarrow> int \<Rightarrow> ('w, 'e, admitted) action"
  port_verify_receipt :: "'r \<Rightarrow> 'o \<Rightarrow> jstring \<Rightarrow> ('w, 'e, unit) action"
  port_guard :: "('w, 'e, unit) action"
  port_uuid :: "('w, 'e, jstring) action"

record ('w, 'o, 'r) engine_state =
  es_world :: 'w
  es_received :: "admitted option"
  es_inventory :: "replica_inventory option"
  es_log :: "('o, 'r) engine_event list"

type_synonym ('w, 'o, 'r, 'e, 'a) engine_action = "(('w, 'o, 'r) engine_state, 'e engine_error, 'a) action"

section \<open>Validation\<close>

definition positive_counter :: "int \<Rightarrow> bool" where
  "positive_counter v \<longleftrightarrow> is_safe_integer v \<and> 0 \<le> v"

definition token :: "jstring \<Rightarrow> bool" where
  "token v \<longleftrightarrow> 0 < length v \<and> int (length v) \<le> 1024 * 1024"

definition optional_token :: "jstring option \<Rightarrow> bool" where
  "optional_token v \<longleftrightarrow> (case v of None \<Rightarrow> True | Some t \<Rightarrow> token t)"

definition maximum_content_bytes :: int where
  "maximum_content_bytes = 16 * 1024 * 1024 - 16"

definition validate_pending :: "'o replica_pending \<Rightarrow> 'e engine_error + unit" where
  "validate_pending p =
     assert_r (token (rp_request_id p) \<and> length (rp_request_id p) \<le> 128 \<and> token (rp_hash p) \<and>
       length (rp_hash p) \<le> 128 \<and> positive_counter (rp_bytes p) \<and> rp_bytes p \<le> maximum_content_bytes \<and>
       optional_token (rp_revision p) \<and> optional_token (rp_identity p) \<and>
       (case rp_observed_sequence p of None \<Rightarrow> True | Some n \<Rightarrow> positive_counter n)) InvalidOutbox"

definition validate_state :: "'o replica_state \<Rightarrow> jstring \<Rightarrow> 'e engine_error + unit" where
  "validate_state st binding =
     bind_r (assert_r (rs_version st = 1 \<and> token (rs_binding st) \<and> rs_binding st = binding \<and>
         positive_counter (rs_generation st) \<and> positive_counter (rs_cursor st)) InvalidBinding) (\<lambda>_.
     bind_r (assert_r (length (rs_last_uploaded st) \<le> 128 \<and> optional_token (rs_uploaded_revision st) \<and>
         optional_token (rs_content_identity st)) InvalidAcknowledgment) (\<lambda>_.
     (case rs_pending st of
        None \<Rightarrow> Inr ()
      | Some p \<Rightarrow>
          bind_r (validate_pending p) (\<lambda>_.
          assert_r ((case rp_observed_sequence p of None \<Rightarrow> 0 | Some n \<Rightarrow> n) \<le> rs_cursor st) OutboxBeyondProgress))))"

definition empty_replica_state :: "jstring \<Rightarrow> int \<Rightarrow> jstring \<Rightarrow> 'e engine_error + 'o replica_state" where
  "empty_replica_state binding cursor last_uploaded =
     (let st = \<lparr>rs_version = 1, rs_binding = binding, rs_generation = 0, rs_cursor = cursor,
                rs_last_uploaded = last_uploaded, rs_uploaded_revision = None, rs_content_identity = None,
                rs_pending = None\<rparr>
      in bind_r (validate_state st binding) (\<lambda>_. Inr st))"

definition parse_replica_state :: "'o replica_state \<Rightarrow> jstring \<Rightarrow> 'e engine_error + 'o replica_state" where
  "parse_replica_state value binding = bind_r (validate_state value binding) (\<lambda>_. Inr value)"

fun inventory_loop :: "int \<Rightarrow> inventory_entry list \<Rightarrow> 'e engine_error + int" where
  "inventory_loop previous [] = Inr previous"
| "inventory_loop previous (e # es) =
     (if \<not> token (ie_object_id e) \<or> \<not> positive_counter (ie_sequence e) \<or> ie_sequence e \<le> previous
      then Inl InvalidInventorySequence else inventory_loop (ie_sequence e) es)"

definition validate_inventory :: "replica_inventory \<Rightarrow> int \<Rightarrow> 'e engine_error + unit" where
  "validate_inventory i after =
     bind_r (assert_r (length (inv_objects i) \<le> 128) InvalidInventory) (\<lambda>_.
     bind_r (inventory_loop after (inv_objects i)) (\<lambda>previous.
     assert_r (inv_cursor i = previous \<and> (inv_has_more i \<longrightarrow> inv_objects i \<noteq> [])) InvalidInventoryCursor))"

section \<open>The engine\<close>

definition port :: "('w, 'e, 'a) action \<Rightarrow> ('w, 'o, 'r, 'e, 'a) engine_action" where
  "port m s = (case m (es_world s) of
     (Inl e, w) \<Rightarrow> (Inl (PortError e), s\<lparr>es_world := w\<rparr>)
   | (Inr x, w) \<Rightarrow> (Inr x, s\<lparr>es_world := w\<rparr>))"

definition check :: "'e engine_error + 'a \<Rightarrow> ('w, 'o, 'r, 'e, 'a) engine_action" where
  "check r s = (r, s)"

definition record_event :: "('o, 'r) engine_event \<Rightarrow> ('w, 'o, 'r, 'e, unit) engine_action" where
  "record_event ev s = (Inr (), s\<lparr>es_log := es_log s @ [ev]\<rparr>)"

definition set_received :: "admitted \<Rightarrow> ('w, 'o, 'r, 'e, unit) engine_action" where
  "set_received a s = (Inr (), s\<lparr>es_received := Some a\<rparr>)"

definition set_inventory :: "replica_inventory \<Rightarrow> ('w, 'o, 'r, 'e, unit) engine_action" where
  "set_inventory i s = (Inr (), s\<lparr>es_inventory := Some i\<rparr>)"

definition get_received :: "('w, 'o, 'r, 'e, admitted option) engine_action" where
  "get_received s = (Inr (es_received s), s)"

definition engine_read :: "jstring \<Rightarrow> ('w, 'p, 'o, 'r, 'e) replica_ports \<Rightarrow> ('w, 'o, 'r, 'e, 'o replica_state) engine_action" where
  "engine_read binding ports =
     bind_s (port (port_guard ports)) (\<lambda>_.
     bind_s (port (port_read ports)) (\<lambda>st.
     bind_s (check (validate_state st binding)) (\<lambda>_.
     bind_s (port (port_guard ports)) (\<lambda>_.
     ret st))))"

definition engine_commit :: "jstring \<Rightarrow> ('w, 'p, 'o, 'r, 'e) replica_ports \<Rightarrow> 'o replica_state \<Rightarrow> 'o replica_state
    \<Rightarrow> ('w, 'o, 'r, 'e, 'o replica_state) engine_action" where
  "engine_commit binding ports previous next =
     (let changed = next\<lparr>rs_generation := rs_generation previous + 1\<rparr> in
      bind_s (check (validate_state changed binding)) (\<lambda>_.
      bind_s (require (rs_cursor previous \<le> rs_cursor changed) CursorBackwards) (\<lambda>_.
      bind_s (port (port_guard ports)) (\<lambda>_.
      bind_s (port (port_commit ports (rs_generation previous) changed)) (\<lambda>_.
      bind_s (record_event (Committed previous changed)) (\<lambda>_.
      bind_s (port (port_guard ports)) (\<lambda>_.
      ret changed)))))))"

fun pull_entries :: "jstring \<Rightarrow> ('w, 'p, 'o, 'r, 'e) replica_ports \<Rightarrow> inventory_entry list \<Rightarrow> 'o replica_state
    \<Rightarrow> ('w, 'o, 'r, 'e, 'o replica_state) engine_action" where
  "pull_entries binding ports [] st = ret st"
| "pull_entries binding ports (e # es) st =
     bind_s (port (port_download ports (ie_object_id e))) (\<lambda>object.
     bind_s (port (port_guard ports)) (\<lambda>_.
     bind_s (port (port_admit ports object (ie_sequence e))) (\<lambda>a.
     bind_s (record_event (Admitted object (ie_sequence e))) (\<lambda>_.
     bind_s (port (port_guard ports)) (\<lambda>_.
     bind_s (engine_commit binding ports st (st\<lparr>rs_cursor := ie_sequence e\<rparr>)) (\<lambda>st'.
     bind_s (set_received a) (\<lambda>_.
     pull_entries binding ports es st')))))))"

fun pull_pages :: "nat \<Rightarrow> jstring \<Rightarrow> ('w, 'p, 'o, 'r, 'e) replica_ports \<Rightarrow> 'o replica_state
    \<Rightarrow> ('w, 'o, 'r, 'e, bool) engine_action" where
  "pull_pages 0 binding ports st = ret False"
| "pull_pages (Suc n) binding ports st =
     bind_s (port (port_guard ports)) (\<lambda>_.
     bind_s (port (port_inventory ports (rs_cursor st))) (\<lambda>i.
     bind_s (check (validate_inventory i (rs_cursor st))) (\<lambda>_.
     bind_s (port (port_guard ports)) (\<lambda>_.
     bind_s (pull_entries binding ports (inv_objects i) st) (\<lambda>st'.
     bind_s (set_inventory i) (\<lambda>_.
     if \<not> inv_has_more i then ret True else pull_pages n binding ports st'))))))"

definition pull_now :: "jstring \<Rightarrow> ('w, 'p, 'o, 'r, 'e) replica_ports \<Rightarrow> ('w, 'o, 'r, 'e, bool) engine_action" where
  "pull_now binding ports = bind_s (engine_read binding ports) (pull_pages 8 binding ports)"

definition deliver :: "jstring \<Rightarrow> ('w, 'p, 'o, 'r, 'e) replica_ports \<Rightarrow> 'o replica_state \<Rightarrow> 'o replica_pending \<Rightarrow> bool
    \<Rightarrow> ('w, 'o, 'r, 'e, bool) engine_action" where
  "deliver binding ports st p inspect_revision =
     bind_s (port (port_guard ports)) (\<lambda>_.
     (let observed = (case rp_observed_sequence p of None \<Rightarrow> 0 | Some n \<Rightarrow> n) in
     bind_s (record_event (UploadSent (rp_object p) (rp_request_id p) observed)) (\<lambda>_.
     bind_s (port (port_upload ports (rp_object p) (rp_request_id p) observed)) (\<lambda>receipt.
     bind_s (port (port_guard ports)) (\<lambda>_.
     bind_s (port (port_verify_receipt ports receipt (rp_object p) (rp_request_id p))) (\<lambda>_.
     bind_s (record_event (ReceiptVerified receipt (rp_object p) (rp_request_id p))) (\<lambda>_.
     bind_s (port (port_guard ports)) (\<lambda>_.
     bind_s (engine_commit binding ports st (st\<lparr>rs_pending := None, rs_last_uploaded := rp_hash p,
         rs_uploaded_revision := rp_revision p, rs_content_identity := rp_identity p\<rparr>)) (\<lambda>_.
     if \<not> inspect_revision then ret True
     else
       bind_s (port (port_revision ports)) (\<lambda>revision.
       bind_s (port (port_guard ports)) (\<lambda>_.
       ret (revision = None \<or> rp_revision p = revision)))))))))))) "

text \<open>An optional string is truthy when it is present and not empty.\<close>

definition truthy :: "jstring option \<Rightarrow> bool" where
  "truthy v \<longleftrightarrow> v \<noteq> None \<and> v \<noteq> Some []"

definition already_stored :: "admitted option \<Rightarrow> 'o replica_state \<Rightarrow> 'p replica_content \<Rightarrow> bool" where
  "already_stored received st content \<longleftrightarrow>
     rc_hash content = rs_last_uploaded st \<or> Some (rc_hash content) = map_option ad_hash received \<or>
     (truthy (rc_identity content) \<and>
       rc_identity content \<in> {rs_content_identity st, Option.bind received ad_identity})"

text \<open>\<open>rev && await revision() === rev ? rev : undefined\<close>.\<close>

definition stable_revision :: "('w, 'p, 'o, 'r, 'e) replica_ports \<Rightarrow> jstring option
    \<Rightarrow> ('w, 'o, 'r, 'e, jstring option) engine_action" where
  "stable_revision ports r =
     (if truthy r then bind_s (port (port_revision ports)) (\<lambda>r'. ret (if r' = r then r else None)) else ret None)"

text \<open>\<open>pushNow\<close> from the capture on, and the whole of it.\<close>

definition push_captured :: "jstring \<Rightarrow> ('w, 'p, 'o, 'r, 'e) replica_ports \<Rightarrow> 'o replica_state \<Rightarrow> jstring option
    \<Rightarrow> ('w, 'o, 'r, 'e, bool) engine_action" where
  "push_captured binding ports st revision =
     bind_s (port (port_capture ports)) (\<lambda>captured.
     bind_s (record_event Captured) (\<lambda>_.
     bind_s (port (port_guard ports)) (\<lambda>_.
     bind_s (stable_revision ports revision) (\<lambda>stable.
     bind_s (require (token (rc_hash captured) \<and> length (rc_hash captured) \<le> 128 \<and>
         positive_counter (rc_bytes captured) \<and> rc_bytes captured \<le> maximum_content_bytes) ContentBounds) (\<lambda>_.
     bind_s get_received (\<lambda>received.
     if already_stored received st captured then
       bind_s (engine_commit binding ports st (st\<lparr>rs_last_uploaded := rc_hash captured,
           rs_uploaded_revision := stable, rs_content_identity := rc_identity captured\<rparr>)) (\<lambda>_.
       ret (stable \<noteq> None \<or> revision = None))
     else
       bind_s (port (port_seal ports (rc_payload captured))) (\<lambda>object.
       bind_s (port (port_guard ports)) (\<lambda>_.
       bind_s (stable_revision ports stable) (\<lambda>final.
       bind_s (port (port_uuid ports)) (\<lambda>uuid.
       let p = \<lparr>rp_request_id = uuid, rp_observed_sequence = Some (rs_cursor st), rp_hash = rc_hash captured,
                rp_bytes = rc_bytes captured, rp_object = object, rp_revision = final,
                rp_identity = rc_identity captured\<rparr>
       in bind_s (engine_commit binding ports st (st\<lparr>rs_pending := Some p\<rparr>)) (\<lambda>st'.
          deliver binding ports st' p True)))))))))))"

definition push_now :: "jstring \<Rightarrow> ('w, 'p, 'o, 'r, 'e) replica_ports \<Rightarrow> ('w, 'o, 'r, 'e, bool) engine_action" where
  "push_now binding ports =
     bind_s (engine_read binding ports) (\<lambda>st.
     case rs_pending st of
       Some p \<Rightarrow> deliver binding ports st p True
     | None \<Rightarrow>
         bind_s (port (port_revision ports)) (\<lambda>revision.
         bind_s (port (port_guard ports)) (\<lambda>_.
         if truthy revision \<and> rs_last_uploaded st \<noteq> [] \<and> revision = rs_uploaded_revision st then ret True
         else push_captured binding ports st revision)))"

definition drain_pending :: "jstring \<Rightarrow> ('w, 'p, 'o, 'r, 'e) replica_ports \<Rightarrow> ('w, 'o, 'r, 'e, bool) engine_action" where
  "drain_pending binding ports =
     bind_s (engine_read binding ports) (\<lambda>st.
     case rs_pending st of None \<Rightarrow> ret True | Some p \<Rightarrow> deliver binding ports st p False)"

definition engine_sync :: "jstring \<Rightarrow> ('w, 'p, 'o, 'r, 'e) replica_ports \<Rightarrow> ('w, 'o, 'r, 'e, bool) engine_action" where
  "engine_sync binding ports =
     bind_s (engine_read binding ports) (\<lambda>original.
     case rs_pending original of
       Some p \<Rightarrow> bind_s (deliver binding ports original p False) (\<lambda>_. ret False)
     | None \<Rightarrow>
         bind_s (pull_now binding ports) (\<lambda>caught_up.
         bind_s (push_now binding ports) (\<lambda>uploaded.
         ret (caught_up \<and> uploaded))))"

datatype engine_operation = Pull | Push | Drain | Sync

fun engine_op :: "jstring \<Rightarrow> ('w, 'p, 'o, 'r, 'e) replica_ports \<Rightarrow> engine_operation \<Rightarrow> ('w, 'o, 'r, 'e, bool) engine_action" where
  "engine_op binding ports Pull = pull_now binding ports"
| "engine_op binding ports Push = push_now binding ports"
| "engine_op binding ports Drain = drain_pending binding ports"
| "engine_op binding ports Sync = engine_sync binding ports"

text \<open>The queue of \<open>enqueue\<close>: operations run in order, whether the one before failed or not.\<close>

fun engine_queue :: "jstring \<Rightarrow> ('w, 'p, 'o, 'r, 'e) replica_ports \<Rightarrow> engine_operation list
    \<Rightarrow> ('w, 'o, 'r) engine_state \<Rightarrow> ('e engine_error + bool) list \<times> ('w, 'o, 'r) engine_state" where
  "engine_queue binding ports [] s = ([], s)"
| "engine_queue binding ports (x # xs) s =
     (let (r, s1) = engine_op binding ports x s; (rs, s2) = engine_queue binding ports xs s1 in (r # rs, s2))"

definition new_engine :: "jstring \<Rightarrow> 'w \<Rightarrow> 'e engine_error + ('w, 'o, 'r) engine_state" where
  "new_engine binding w =
     (if token binding then Inr \<lparr>es_world = w, es_received = None, es_inventory = None, es_log = []\<rparr>
      else Inl BindingRequired)"

section \<open>What a commit may do\<close>

definition next_generation :: "'o replica_state \<Rightarrow> 'o replica_state \<Rightarrow> 'o replica_state" where
  "next_generation a b = b\<lparr>rs_generation := rs_generation a + 1\<rparr>"

text \<open>The four kinds of commit: a pulled object advances the cursor right after its admission; content the
  service already has is acknowledged while nothing is pending; an upload is saved while nothing is
  pending; the pending upload is acknowledged right after its receipt was verified.\<close>

definition pull_commit :: "('o, 'r) engine_event list \<Rightarrow> 'o replica_state \<Rightarrow> 'o replica_state \<Rightarrow> bool" where
  "pull_commit earlier a b \<longleftrightarrow> b = next_generation a (a\<lparr>rs_cursor := rs_cursor b\<rparr>) \<and>
     (\<exists>object. earlier \<noteq> [] \<and> last earlier = Admitted object (rs_cursor b))"

definition stored_commit :: "'o replica_state \<Rightarrow> 'o replica_state \<Rightarrow> bool" where
  "stored_commit a b \<longleftrightarrow> rs_pending a = None \<and> rs_pending b = None \<and> rs_cursor b = rs_cursor a"

definition saved_commit :: "'o replica_state \<Rightarrow> 'o replica_state \<Rightarrow> bool" where
  "saved_commit a b \<longleftrightarrow> rs_pending a = None \<and>
     (\<exists>p. b = next_generation a (a\<lparr>rs_pending := Some p\<rparr>) \<and> rp_observed_sequence p = Some (rs_cursor a))"

definition acknowledged_commit :: "('o, 'r) engine_event list \<Rightarrow> 'o replica_state \<Rightarrow> 'o replica_state \<Rightarrow> bool" where
  "acknowledged_commit earlier a b \<longleftrightarrow>
     (\<exists>p receipt. rs_pending a = Some p \<and> earlier \<noteq> [] \<and>
        last earlier = ReceiptVerified receipt (rp_object p) (rp_request_id p) \<and>
        b = next_generation a (a\<lparr>rs_pending := None, rs_last_uploaded := rp_hash p,
              rs_uploaded_revision := rp_revision p, rs_content_identity := rp_identity p\<rparr>))"

definition valid_pending :: "'o replica_pending \<Rightarrow> bool" where
  "valid_pending p \<longleftrightarrow> rp_request_id p \<noteq> [] \<and> length (rp_request_id p) \<le> 128 \<and> rp_hash p \<noteq> [] \<and>
     length (rp_hash p) \<le> 128 \<and> positive_counter (rp_bytes p) \<and> rp_bytes p \<le> maximum_content_bytes \<and>
     optional_token (rp_revision p) \<and> optional_token (rp_identity p) \<and>
     (\<forall>n. rp_observed_sequence p = Some n \<longrightarrow> positive_counter n)"

definition valid_state :: "'o replica_state \<Rightarrow> jstring \<Rightarrow> bool" where
  "valid_state st binding \<longleftrightarrow> rs_version st = 1 \<and> token binding \<and> rs_binding st = binding \<and>
     positive_counter (rs_generation st) \<and> positive_counter (rs_cursor st) \<and> length (rs_last_uploaded st) \<le> 128 \<and>
     optional_token (rs_uploaded_revision st) \<and> optional_token (rs_content_identity st) \<and>
     (\<forall>p. rs_pending st = Some p \<longrightarrow> valid_pending p \<and>
        (\<forall>n. rp_observed_sequence p = Some n \<longrightarrow> n \<le> rs_cursor st))"

lemma validate_state_iff: "validate_state st binding = Inr u \<longleftrightarrow> valid_state st binding"
  by (auto simp: validate_state_def valid_state_def validate_pending_def valid_pending_def token_def
    positive_counter_def result_simps split: option.splits)

definition commit_ok :: "jstring \<Rightarrow> ('o, 'r) engine_event list \<Rightarrow> 'o replica_state \<Rightarrow> 'o replica_state \<Rightarrow> bool" where
  "commit_ok binding earlier a b \<longleftrightarrow>
     valid_state b binding \<and>
     rs_generation b = rs_generation a + 1 \<and> rs_cursor a \<le> rs_cursor b \<and>
     (pull_commit earlier a b \<or> stored_commit a b \<or> saved_commit a b \<or> acknowledged_commit earlier a b)"

definition log_ok :: "jstring \<Rightarrow> ('o, 'r) engine_event list \<Rightarrow> bool" where
  "log_ok binding log \<longleftrightarrow> (\<forall>earlier a b later. log = earlier @ Committed a b # later \<longrightarrow> commit_ok binding earlier a b)"

lemma log_ok_snoc:
  "log_ok binding (log @ [ev]) \<longleftrightarrow> log_ok binding log \<and> (\<forall>a b. ev = Committed a b \<longrightarrow> commit_ok binding log a b)"
proof
  assume ok: "log_ok binding (log @ [ev])"
  then show "log_ok binding log \<and> (\<forall>a b. ev = Committed a b \<longrightarrow> commit_ok binding log a b)"
    unfolding log_ok_def by fastforce
next
  assume a: "log_ok binding log \<and> (\<forall>a b. ev = Committed a b \<longrightarrow> commit_ok binding log a b)"
  show "log_ok binding (log @ [ev])"
    unfolding log_ok_def
  proof (intro allI impI)
    fix earlier x y later
    assume eq: "log @ [ev] = earlier @ Committed x y # later"
    show "commit_ok binding earlier x y"
    proof (cases later rule: rev_cases)
      case Nil
      with eq a show ?thesis by simp
    next
      case (snoc l z)
      with eq have "log = earlier @ Committed x y # l" by simp
      with a show ?thesis by (auto simp: log_ok_def)
    qed
  qed
qed

lemma log_ok_snoc2:
  "log_ok binding (log @ [x, y]) \<longleftrightarrow> log_ok binding (log @ [x]) \<and>
     (\<forall>a b. y = Committed a b \<longrightarrow> commit_ok binding (log @ [x]) a b)"
  using log_ok_snoc [of binding "log @ [x]" y] by simp

lemmas log_ok_simps = log_ok_snoc log_ok_snoc2

section \<open>Rules for the engine's actions\<close>

text \<open>\<open>on_log P\<close>: the log satisfies \<open>P\<close>.\<close>

abbreviation on_log :: "(('o, 'r) engine_event list \<Rightarrow> bool) \<Rightarrow> ('w, 'o, 'r) engine_state \<Rightarrow> bool" where
  "on_log P \<equiv> \<lambda>s. P (es_log s)"

lemma keeps_port: "(\<And>l. P l \<Longrightarrow> Q l) \<Longrightarrow> keeps (on_log P) (port m) (\<lambda>x. on_log P) (on_log Q)"
  by (auto simp: keeps_def port_def split: prod.splits sum.splits)

lemma keeps_check:
  "(\<And>l. P l \<Longrightarrow> Q l) \<Longrightarrow> keeps (on_log P) (check r) (\<lambda>x. on_log (\<lambda>l. P l \<and> r = Inr x)) (on_log Q)"
  by (auto simp: keeps_def check_def split: sum.splits)

lemma keeps_event:
  "keeps (on_log P) (record_event ev) (\<lambda>x. on_log (\<lambda>l. \<exists>l'. l = l' @ [ev] \<and> P l')) Q"
  by (simp add: keeps_def record_event_def)

lemma keeps_received: "keeps (on_log P) (set_received a) (\<lambda>x. on_log P) Q"
  "keeps (on_log P) get_received (\<lambda>x. on_log P) Q" "keeps (on_log P) (set_inventory i) (\<lambda>x. on_log P) Q"
  by (simp_all add: keeps_def set_received_def get_received_def set_inventory_def)

lemma keeps_assert:
  "(\<And>l. P l \<Longrightarrow> Q l) \<Longrightarrow> keeps (on_log P) (require b e) (\<lambda>x. on_log (\<lambda>l. P l \<and> b)) (on_log Q)"
  by (auto intro: keeps_require)

named_theorems engine_rules \<open>one step of a computation along the engine's code\<close>

lemmas [engine_rules] = keeps_bind keeps_port keeps_check keeps_event keeps_received keeps_assert

lemma keeps_read [engine_rules]:
  assumes "\<And>l. P l \<Longrightarrow> Q l"
  shows "keeps (on_log P) (engine_read binding ports) (\<lambda>st. on_log P) (on_log Q)"
  unfolding engine_read_def by (rule engine_rules keeps_ret | blast intro: assms)+

lemma next_generation_simps [simp]:
  "rs_cursor (next_generation a b) = rs_cursor b" "rs_pending (next_generation a b) = rs_pending b"
  "rs_generation (next_generation a b) = rs_generation a + 1"
  by (simp_all add: next_generation_def)

lemma pull_commit_pending: "pull_commit earlier a b \<Longrightarrow> rs_pending b = rs_pending a"
proof -
  assume "pull_commit earlier a b"
  then have "rs_pending b = rs_pending (next_generation a (a\<lparr>rs_cursor := rs_cursor b\<rparr>))"
    unfolding pull_commit_def by metis
  then show ?thesis by simp
qed

lemma keeps_commit:
  assumes "\<And>l. P l \<Longrightarrow> log_ok binding l"
    and "\<And>l. P l \<Longrightarrow> valid_state (next_generation st nx) binding \<Longrightarrow> rs_cursor st \<le> rs_cursor nx \<Longrightarrow>
      commit_ok binding l st (next_generation st nx)"
  shows "keeps (on_log P) (engine_commit binding ports st nx)
    (\<lambda>st'. on_log (\<lambda>l. log_ok binding l \<and> st' = next_generation st nx)) (on_log (log_ok binding))"
proof -
  have ok: "log_ok binding (l @ [Committed st (next_generation st nx)])"
    if "P l" "valid_state (next_generation st nx) binding" "rs_cursor st \<le> rs_cursor nx" for l
    using assms that by (simp add: log_ok_simps)
  show ?thesis
    unfolding engine_commit_def Let_def next_generation_def [symmetric]
    by (rule engine_rules | rule keeps_ret | auto simp: assms(1) validate_state_iff intro: ok)+
qed

lemma keeps_commit_log:
  assumes "\<And>l. P l \<Longrightarrow> log_ok binding l"
    and "\<And>l. P l \<Longrightarrow> valid_state (next_generation st nx) binding \<Longrightarrow> rs_cursor st \<le> rs_cursor nx \<Longrightarrow>
      commit_ok binding l st (next_generation st nx)"
  shows "keeps (on_log P) (engine_commit binding ports st nx) (\<lambda>st'. on_log (log_ok binding)) (on_log (log_ok binding))"
  by (rule keeps_conseq [OF keeps_commit [of P, OF assms]]) simp_all

lemma keeps_pull_entries:
  "keeps (on_log (log_ok binding)) (pull_entries binding ports es st) (\<lambda>st'. on_log (log_ok binding)) (on_log (log_ok binding))"
proof (induction es arbitrary: st)
  case Nil
  then show ?case by (simp add: keeps_ret)
next
  case (Cons e es)
  have commit: "keeps (on_log (\<lambda>l. \<exists>l'. l = l' @ [Admitted object (ie_sequence e)] \<and> log_ok binding l'))
      (engine_commit binding ports st (st\<lparr>rs_cursor := ie_sequence e\<rparr>))
      (\<lambda>st'. on_log (log_ok binding)) (on_log (log_ok binding))" for object
    by (rule keeps_commit_log) (auto simp: log_ok_simps commit_ok_def pull_commit_def next_generation_def)
  show ?case
    unfolding pull_entries.simps
    by (rule engine_rules commit Cons.IH | force simp: log_ok_simps)+
qed

lemma keeps_pull_pages:
  "keeps (on_log (log_ok binding)) (pull_pages n binding ports st) (\<lambda>b. on_log (log_ok binding)) (on_log (log_ok binding))"
proof (induction n arbitrary: st)
  case 0
  then show ?case by (simp add: keeps_ret)
next
  case (Suc n)
  have tail: "keeps (on_log (log_ok binding)) (if \<not> inv_has_more i then ret True else pull_pages n binding ports st')
      (\<lambda>b. on_log (log_ok binding)) (on_log (log_ok binding))" for i st'
    by (rule keeps_if) (simp_all add: keeps_ret Suc.IH)
  have entries: "keeps (on_log (\<lambda>l. log_ok binding l \<and> c)) (pull_entries binding ports es st)
      (\<lambda>st'. on_log (log_ok binding)) (on_log (log_ok binding))" for es c
    by (rule keeps_conseq [OF keeps_pull_entries]) simp_all
  show ?case
    unfolding pull_pages.simps by (rule engine_rules entries tail | simp)+
qed

lemma keeps_pull_now:
  "keeps (on_log (log_ok binding)) (pull_now binding ports) (\<lambda>b. on_log (log_ok binding)) (on_log (log_ok binding))"
  unfolding pull_now_def by (rule engine_rules keeps_pull_pages | simp)+

lemma keeps_deliver:
  assumes "rs_pending st = Some p"
  shows "keeps (on_log (log_ok binding)) (deliver binding ports st p inspect) (\<lambda>b. on_log (log_ok binding)) (on_log (log_ok binding))"
proof -
  have commit: "keeps (on_log (\<lambda>l. \<exists>l'. l = l' @ [ReceiptVerified receipt (rp_object p) (rp_request_id p)] \<and>
         (\<exists>l''. l' = l'' @ [UploadSent (rp_object p) (rp_request_id p) n] \<and> log_ok binding l'')))
      (engine_commit binding ports st (st\<lparr>rs_pending := None, rs_last_uploaded := rp_hash p,
         rs_uploaded_revision := rp_revision p, rs_content_identity := rp_identity p\<rparr>))
      (\<lambda>st'. on_log (log_ok binding)) (on_log (log_ok binding))" for receipt n
    using assms
    by (intro keeps_commit_log) (auto simp: log_ok_simps commit_ok_def acknowledged_commit_def)
  show ?thesis
    unfolding deliver_def Let_def
    by (rule engine_rules commit keeps_if keeps_ret | force simp: log_ok_simps)+
qed

lemma keeps_stable [engine_rules]:
  "(\<And>l. P l \<Longrightarrow> Q l) \<Longrightarrow> keeps (on_log P) (stable_revision ports r) (\<lambda>x. on_log P) (on_log Q)"
  unfolding stable_revision_def by (rule engine_rules keeps_if keeps_ret | blast)+

lemma keeps_push_new:
  assumes none: "rs_pending st = None"
  shows "keeps (on_log (log_ok binding)) (push_captured binding ports st revision) (\<lambda>b. on_log (log_ok binding)) (on_log (log_ok binding))"
proof -
  have stored: "keeps (on_log (\<lambda>l. (\<exists>l'. l = l' @ [Captured] \<and> log_ok binding l') \<and> c))
      (engine_commit binding ports st (st\<lparr>rs_last_uploaded := h, rs_uploaded_revision := r, rs_content_identity := i\<rparr>))
      (\<lambda>st'. on_log (log_ok binding)) (on_log (log_ok binding))" for h r i c
    by (rule keeps_commit_log) (auto simp: log_ok_simps commit_ok_def stored_commit_def none)
  have saved: "keeps (on_log (\<lambda>l. (\<exists>l'. l = l' @ [Captured] \<and> log_ok binding l') \<and> c))
      (engine_commit binding ports st (st\<lparr>rs_pending := Some p\<rparr>))
      (\<lambda>st'. on_log (\<lambda>l. log_ok binding l \<and> st' = next_generation st (st\<lparr>rs_pending := Some p\<rparr>)))
      (on_log (log_ok binding))" if "rp_observed_sequence p = Some (rs_cursor st)" for p c
    by (rule keeps_commit) (use that in \<open>auto simp: log_ok_simps commit_ok_def saved_commit_def none\<close>)
  have sent: "keeps (on_log (\<lambda>l. log_ok binding l \<and> st' = next_generation st (st\<lparr>rs_pending := Some p\<rparr>)))
      (deliver binding ports st' p True) (\<lambda>b. on_log (log_ok binding)) (on_log (log_ok binding))" for st' p
  proof (cases "st' = next_generation st (st\<lparr>rs_pending := Some p\<rparr>)")
    case True
    then have "rs_pending st' = Some p" by simp
    from keeps_deliver [OF this] show ?thesis by (rule keeps_conseq) simp_all
  qed (simp add: keeps_def)
  show ?thesis
    unfolding push_captured_def Let_def
    by (rule engine_rules stored saved sent keeps_if keeps_ret | force simp: log_ok_simps)+
qed

lemma keeps_pending_case:
  assumes "\<And>p. v = Some p \<Longrightarrow> keeps P (f p) R Q" "v = None \<Longrightarrow> keeps P m R Q"
  shows "keeps P (case v of None \<Rightarrow> m | Some p \<Rightarrow> f p) R Q"
  using assms by (cases v) auto

lemma keeps_push_now:
  "keeps (on_log (log_ok binding)) (push_now binding ports) (\<lambda>b. on_log (log_ok binding)) (on_log (log_ok binding))"
  unfolding push_now_def
  by (rule engine_rules keeps_pending_case keeps_if keeps_ret keeps_deliver keeps_push_new | assumption | simp)+

lemma keeps_drain:
  "keeps (on_log (log_ok binding)) (drain_pending binding ports) (\<lambda>b. on_log (log_ok binding)) (on_log (log_ok binding))"
  unfolding drain_pending_def
  by (rule engine_rules keeps_pending_case keeps_ret keeps_deliver | assumption | simp)+

lemma keeps_sync:
  "keeps (on_log (log_ok binding)) (engine_sync binding ports) (\<lambda>b. on_log (log_ok binding)) (on_log (log_ok binding))"
  unfolding engine_sync_def
  by (rule engine_rules keeps_pending_case keeps_ret keeps_deliver keeps_pull_now keeps_push_now | assumption | simp)+

lemma engine_op_log_ok:
  assumes "log_ok binding (es_log s)" "engine_op binding ports x s = (r, s')"
  shows "log_ok binding (es_log s')"
proof -
  have "keeps (on_log (log_ok binding)) (engine_op binding ports x) (\<lambda>b. on_log (log_ok binding)) (on_log (log_ok binding))"
    by (cases x) (simp_all add: keeps_pull_now keeps_push_now keeps_drain keeps_sync)
  from keepsD [OF this, OF assms] show ?thesis by (simp split: sum.splits)
qed

lemma engine_queue_log_ok:
  "log_ok binding (es_log s) \<Longrightarrow> engine_queue binding ports xs s = (rs, s') \<Longrightarrow> log_ok binding (es_log s')"
proof (induction xs arbitrary: s rs)
  case (Cons x xs)
  obtain r s1 where r: "engine_op binding ports x s = (r, s1)" by fastforce
  obtain rs1 where "engine_queue binding ports xs s1 = (rs1, s')"
    using Cons.prems(2) r by (auto split: prod.splits)
  with Cons.IH engine_op_log_ok [OF Cons.prems(1) r] show ?case by blast
qed simp

section \<open>The properties of the engine\<close>

text \<open>C11. Whatever the host's ports do, whichever operations are queued and whichever of them fail, every state
  the engine commits is valid, carries the next generation and does not move the cursor back; it
  moves the cursor only to an object whose admission just succeeded, saves an upload only when none is
  pending, and clears the pending upload only right after its receipt was verified for its object and
  request.\<close>

theorem replica_engine_commits:
  assumes "new_engine binding w = (Inr s0 :: 'e engine_error + ('w, 'o, 'r) engine_state)"
    and "engine_queue binding (ports :: ('w, 'p, 'o, 'r, 'e) replica_ports) xs s0 = (rs, s)"
    and "es_log s = earlier @ Committed a b # later"
  shows "valid_state b binding \<and> rs_generation b = rs_generation a + 1 \<and> rs_cursor a \<le> rs_cursor b \<and>
    (pull_commit earlier a b \<or> stored_commit a b \<or> saved_commit a b \<or> acknowledged_commit earlier a b)"
proof -
  have "log_ok binding (es_log s0)"
    using assms(1) by (auto simp: new_engine_def log_ok_def split: if_splits)
  then have "log_ok binding (es_log s)" using assms(2) by (rule engine_queue_log_ok)
  then have "commit_ok binding earlier a b" using assms(3) by (auto simp: log_ok_def)
  then show ?thesis by (simp add: commit_ok_def)
qed

text \<open>Nothing is captured by an action, and every upload it sends is of the given pending request.\<close>

definition only_pending :: "'o replica_pending \<Rightarrow> ('o, 'r) engine_event list \<Rightarrow> ('o, 'r) engine_event list \<Rightarrow> bool" where
  "only_pending p l0 l \<longleftrightarrow> (\<exists>t. l = l0 @ t \<and> Captured \<notin> set t \<and>
     (\<forall>object request n. UploadSent object request n \<in> set t \<longrightarrow> object = rp_object p \<and> request = rp_request_id p))"

lemma only_pending_refl: "only_pending p l l"
  by (simp add: only_pending_def)

lemma only_pending_snoc:
  "only_pending p l0 l \<Longrightarrow> ev \<noteq> Captured \<Longrightarrow>
   (\<And>object request n. ev = UploadSent object request n \<Longrightarrow> object = rp_object p \<and> request = rp_request_id p) \<Longrightarrow>
   only_pending p l0 (l @ [ev])"
  unfolding only_pending_def by fastforce

lemma keeps_event_only:
  assumes "ev \<noteq> Captured"
    "\<And>object request n. ev = UploadSent object request n \<Longrightarrow> object = rp_object p \<and> request = rp_request_id p"
  shows "keeps (on_log (only_pending p l0)) (record_event ev) (\<lambda>x. on_log (only_pending p l0)) Q"
  using only_pending_snoc [OF _ assms] by (simp add: keeps_def record_event_def)

lemma keeps_check_only: "keeps (on_log P) (check r) (\<lambda>x. on_log P) (on_log P)"
  "keeps (on_log P) (require b e) (\<lambda>x. on_log P) (on_log P)"
  by (auto simp: keeps_def check_def require_def ret_def throw_def split: sum.splits)

lemma keeps_commit_only:
  "keeps (on_log (only_pending p l0)) (engine_commit binding ports st nx)
     (\<lambda>st'. on_log (only_pending p l0)) (on_log (only_pending p l0))"
  unfolding engine_commit_def Let_def
  by (rule keeps_bind keeps_check_only keeps_port keeps_event_only keeps_ret | assumption | simp)+

lemma keeps_deliver_only:
  "keeps (on_log (only_pending p l0)) (deliver binding ports st p inspect)
     (\<lambda>b. on_log (only_pending p l0)) (on_log (only_pending p l0))"
  unfolding deliver_def Let_def
  by (rule keeps_bind keeps_port keeps_commit_only keeps_event_only keeps_check_only keeps_if keeps_ret | assumption | simp)+

text \<open>C12. A sync pass that finds a saved upload only resolves that request: it captures no newer content, every
  upload it sends is of the saved object under the saved request id, and it never reports that the replica is
  in sync.\<close>

theorem sync_resolves_pending_only:
  assumes "engine_read binding ports s = (Inr st, s1)" "rs_pending st = Some p" "engine_sync binding ports s = (r, s')"
  shows "r \<noteq> Inr True \<and> only_pending p (es_log s) (es_log s')"
proof -
  have log: "es_log s1 = es_log s"
    using keepsD [OF keeps_read [of "\<lambda>l. l = es_log s" "\<lambda>l. l = es_log s"], OF _ _ assms(1)] by simp
  obtain d s2 where d: "deliver binding ports st p False s1 = (d, s2)" by fastforce
  have "only_pending p (es_log s) (es_log s2)"
    using keepsD [OF keeps_deliver_only [of p "es_log s" binding ports st False] _ d] log
    by (simp add: only_pending_refl split: sum.splits)
  moreover have "r \<noteq> Inr True \<and> s' = s2"
    using assms d by (cases d) (auto simp: engine_sync_def bind_s_def ret_def)
  ultimately show ?thesis by simp
qed

section \<open>A concrete host\<close>

text \<open>The repository is the world itself; the service holds one object and accepts every upload.\<close>

definition edemo_ports :: "(int replica_state, int, int, unit, unit) replica_ports" where
  "edemo_ports = \<lparr>
     port_read = (\<lambda>w. (Inr w, w)),
     port_commit = (\<lambda>g next w. if rs_generation w = g then (Inr (), next) else (Inl (), w)),
     port_revision = (\<lambda>w. (Inr None, w)),
     port_capture = (\<lambda>w. (Inr \<lparr>rc_hash = js ''h'', rc_bytes = 1, rc_payload = 5, rc_identity = None\<rparr>, w)),
     port_seal = (\<lambda>p w. (Inr p, w)),
     port_inventory = (\<lambda>c w. (Inr (if c < 1
         then \<lparr>inv_objects = [\<lparr>ie_object_id = js ''o'', ie_sequence = 1\<rparr>], inv_cursor = 1, inv_has_more = False\<rparr>
         else \<lparr>inv_objects = [], inv_cursor = c, inv_has_more = False\<rparr>), w)),
     port_download = (\<lambda>i w. (Inr 7, w)),
     port_upload = (\<lambda>x request n w. (Inr (), w)),
     port_admit = (\<lambda>x n w. (Inr \<lparr>ad_hash = js ''x'', ad_identity = None\<rparr>, w)),
     port_verify_receipt = (\<lambda>r x request w. (Inr (), w)),
     port_guard = (\<lambda>w. (Inr (), w)),
     port_uuid = (\<lambda>w. (Inr (js ''u''), w))\<rparr>"

definition edemo_state :: "int replica_state" where
  "edemo_state = \<lparr>rs_version = 1, rs_binding = js ''b'', rs_generation = 0, rs_cursor = 0, rs_last_uploaded = [],
     rs_uploaded_revision = None, rs_content_identity = None, rs_pending = None\<rparr>"

definition edemo_pending :: "int replica_pending" where
  "edemo_pending = \<lparr>rp_request_id = js ''u'', rp_observed_sequence = Some 0, rp_hash = js ''h'', rp_bytes = 1,
     rp_object = 5, rp_revision = None, rp_identity = None\<rparr>"

definition edemo_engine :: "int replica_state \<Rightarrow> (int replica_state, int, unit) engine_state" where
  "edemo_engine st = \<lparr>es_world = st, es_received = None, es_inventory = None, es_log = []\<rparr>"

definition edemo_run :: "(unit engine_error + bool) list \<times> (int replica_state, int, unit) engine_state" where
  "edemo_run = engine_queue (js ''b'') edemo_ports [Sync] (edemo_engine edemo_state)"

fun is_ack :: "(int, unit) engine_event \<Rightarrow> bool" where
  "is_ack (Committed a b) = (rs_pending a \<noteq> None \<and> rs_pending b = None \<and> rs_generation b = 3)"
| "is_ack _ = False"

theorem replica_engine_commits_witness:
  "fst edemo_run = [Inr True] \<and> length (es_log (snd edemo_run)) = 7 \<and>
   (\<exists>a b. es_log (snd edemo_run) ! 6 = Committed a b \<and> acknowledged_commit (take 6 (es_log (snd edemo_run))) a b)"
proof -
  have run: "fst edemo_run = [Inr True]" "length (es_log (snd edemo_run)) = 7" "is_ack (es_log (snd edemo_run) ! 6)"
    by code_simp+
  then obtain a b where ab: "es_log (snd edemo_run) ! 6 = Committed a b" "rs_pending a \<noteq> None" "rs_pending b = None"
    by (cases "es_log (snd edemo_run) ! 6") auto
  have log: "es_log (snd edemo_run) = take 6 (es_log (snd edemo_run)) @ Committed a b # drop 7 (es_log (snd edemo_run))"
    using id_take_nth_drop [of 6 "es_log (snd edemo_run)"] run(2) ab(1) by simp
  have new: "new_engine (js ''b'') edemo_state = (Inr (edemo_engine edemo_state) :: unit engine_error + _)"
    by (simp add: new_engine_def token_def js_def edemo_engine_def)
  have "engine_queue (js ''b'') edemo_ports [Sync] (edemo_engine edemo_state) = (fst edemo_run, snd edemo_run)"
    by (simp add: edemo_run_def)
  from replica_engine_commits [OF new this log] ab(2,3)
  have "acknowledged_commit (take 6 (es_log (snd edemo_run))) a b"
    by (auto simp: stored_commit_def saved_commit_def dest: pull_commit_pending)
  with run ab(1) show ?thesis by blast
qed

theorem sync_resolves_pending_only_witness:
  "fst (engine_sync (js ''b'') edemo_ports (edemo_engine (edemo_state\<lparr>rs_pending := Some edemo_pending\<rparr>))) = Inr False \<and>
   only_pending edemo_pending [] (es_log (snd (engine_sync (js ''b'') edemo_ports
     (edemo_engine (edemo_state\<lparr>rs_pending := Some edemo_pending\<rparr>)))))"
proof -
  let ?s = "edemo_engine (edemo_state\<lparr>rs_pending := Some edemo_pending\<rparr>)"
  have "engine_read (js ''b'') edemo_ports ?s = (Inr (edemo_state\<lparr>rs_pending := Some edemo_pending\<rparr>), ?s)"
    by code_simp
  moreover have "rs_pending (edemo_state\<lparr>rs_pending := Some edemo_pending\<rparr>) = Some edemo_pending" by simp
  moreover have "engine_sync (js ''b'') edemo_ports ?s =
      (fst (engine_sync (js ''b'') edemo_ports ?s), snd (engine_sync (js ''b'') edemo_ports ?s))" by simp
  ultimately have "only_pending edemo_pending (es_log ?s) (es_log (snd (engine_sync (js ''b'') edemo_ports ?s)))"
    using sync_resolves_pending_only by blast
  moreover have "fst (engine_sync (js ''b'') edemo_ports ?s) = Inr False" by code_simp
  ultimately show ?thesis by (simp add: edemo_engine_def)
qed

end
