(* ===== verification/Base64url.thy ===== *)
theory Base64url
  imports Mesh_Prelude
begin

text \<open>
  \<open>toBase64Url\<close> and \<open>fromBase64Url\<close> of \<open>packages/mesh-identity/src/index.ts\<close>, over models of the
  platform functions \<open>btoa\<close> and \<open>atob\<close> (the forgiving-base64 algorithms of the HTML and Infra
  standards). Shown: decoding inverts encoding, encoding is injective, and the encoded text
  only has characters that survive in a URL.
\<close>

section \<open>Base64\<close>

definition b64_char :: "nat \<Rightarrow> 16 word" where
  "b64_char n = of_nat (if n < 26 then n + 65 else if n < 52 then n + 71 else if n < 62 then n - 4
     else if n = 62 then 43 else 47)"

definition b64_value :: "16 word \<Rightarrow> nat option" where
  "b64_value c =
     (let n = unat c in
      if 65 \<le> n \<and> n \<le> 90 then Some (n - 65)
      else if 97 \<le> n \<and> n \<le> 122 then Some (n - 71)
      else if 48 \<le> n \<and> n \<le> 57 then Some (n + 4)
      else if n = 43 then Some 62
      else if n = 47 then Some 63
      else None)"

abbreviation b64_pad :: "16 word" where
  "b64_pad \<equiv> 61"

fun btoa :: "bytes \<Rightarrow> jstring" where
  "btoa [] = []"
| "btoa [a] = [b64_char (unat a div 4), b64_char (unat a mod 4 * 16), b64_pad, b64_pad]"
| "btoa [a, b] = [b64_char (unat a div 4), b64_char (unat a mod 4 * 16 + unat b div 16),
     b64_char (unat b mod 16 * 4), b64_pad]"
| "btoa (a # b # c # r) =
     b64_char (unat a div 4) # b64_char (unat a mod 4 * 16 + unat b div 16) #
     b64_char (unat b mod 16 * 4 + unat c div 64) # b64_char (unat c mod 64) # btoa r"

fun b64_decode :: "nat list \<Rightarrow> bytes option" where
  "b64_decode [] = Some []"
| "b64_decode [p] = None"
| "b64_decode [p, q] = Some [of_nat (p * 4 + q div 16)]"
| "b64_decode [p, q, r] = Some [of_nat (p * 4 + q div 16), of_nat (q mod 16 * 16 + r div 4)]"
| "b64_decode (p # q # r # s # t) =
     map_option (\<lambda>bs. of_nat (p * 4 + q div 16) # of_nat (q mod 16 * 16 + r div 4) # of_nat (r mod 4 * 64 + s) # bs)
       (b64_decode t)"

definition ascii_space :: "16 word \<Rightarrow> bool" where
  "ascii_space c \<longleftrightarrow> c \<in> {0x09, 0x0A, 0x0C, 0x0D, 0x20}"

definition drop_pad :: "jstring \<Rightarrow> jstring" where
  "drop_pad s =
     (if length s mod 4 = 0 then
        (if s \<noteq> [] \<and> last s = b64_pad then
           (let s1 = butlast s in if s1 \<noteq> [] \<and> last s1 = b64_pad then butlast s1 else s1)
         else s)
      else s)"

definition atob :: "jstring \<Rightarrow> bytes option" where
  "atob text =
     (let s = drop_pad (filter (\<lambda>c. \<not> ascii_space c) text) in
      if length s mod 4 = 1 then None else Option.bind (those (map b64_value s)) b64_decode)"

section \<open>Base64url\<close>

definition to_url_char :: "16 word \<Rightarrow> 16 word" where
  "to_url_char c = (if c = 43 then 45 else if c = 47 then 95 else c)"

definition from_url_char :: "16 word \<Rightarrow> 16 word" where
  "from_url_char c = (if c = 45 then 43 else if c = 95 then 47 else c)"

definition strip_pad :: "jstring \<Rightarrow> jstring" where
  "strip_pad s = rev (dropWhile (\<lambda>c. c = b64_pad) (rev s))"

definition to_base64url :: "bytes \<Rightarrow> jstring" where
  "to_base64url bs = strip_pad (map to_url_char (btoa bs))"

lemma pad_measure: "length (s :: 'a list) mod 4 \<noteq> 0 \<Longrightarrow> (4 - length (s @ [x]) mod 4) mod 4 < (4 - length s mod 4) mod 4"
proof -
  assume r: "length s mod 4 \<noteq> 0"
  have "length s mod 4 < 4" by simp
  with r consider "length s mod 4 = 1" | "length s mod 4 = 2" | "length s mod 4 = 3" by linarith
  then show ?thesis by cases (simp_all add: mod_Suc)
qed

function pad4 :: "jstring \<Rightarrow> jstring" where
  "pad4 s = (if length s mod 4 \<noteq> 0 then pad4 (s @ [b64_pad]) else s)"
  by pat_completeness auto
termination
  by (relation "measure (\<lambda>s. (4 - length s mod 4) mod 4)") (simp, simp only: in_measure pad_measure not_False_eq_True)

declare pad4.simps [simp del]

definition from_base64url :: "jstring \<Rightarrow> bytes option" where
  "from_base64url v = atob (pad4 (map from_url_char v))"

section \<open>Round trip\<close>

text \<open>The characters \<open>btoa\<close> produces from six-bit values.\<close>

lemma unat_b64_char:
  "n < 64 \<Longrightarrow> unat (b64_char n) = (if n < 26 then n + 65 else if n < 52 then n + 71 else if n < 62 then n - 4
     else if n = 62 then 43 else 47)"
  by (simp add: b64_char_def unat_of_nat)

lemma b64_value_char: "n < 64 \<Longrightarrow> b64_value (b64_char n) = Some n"
  by (auto simp: b64_value_def unat_b64_char Let_def)

definition b64_sym :: "16 word \<Rightarrow> bool" where
  "b64_sym c \<longleftrightarrow> (\<exists>n < 64. c = b64_char n)"

lemma b64_sym_neq:
  assumes "b64_sym c" "unat d \<notin> {43, 47} \<union> {48..57} \<union> {65..90} \<union> {97..122}"
  shows "c \<noteq> d"
  using assms by (auto simp: b64_sym_def unat_b64_char split: if_splits)

lemma b64_sym_facts:
  "b64_sym c \<Longrightarrow> c \<noteq> 61 \<and> \<not> ascii_space c \<and> c \<noteq> 45 \<and> c \<noteq> 95"
  using b64_sym_neq [of c 61] b64_sym_neq [of c 9] b64_sym_neq [of c 10] b64_sym_neq [of c 12]
    b64_sym_neq [of c 13] b64_sym_neq [of c 32] b64_sym_neq [of c 45] b64_sym_neq [of c 95]
  by (simp add: ascii_space_def)

lemma byte_lt: "unat (a :: 8 word) < 256"
  using unsigned_less [of a, where ?'a = nat] by simp

lemma pack: "y < n \<Longrightarrow> (x * n + y) div n = (x :: nat)" "y < n \<Longrightarrow> (x * n + y) mod n = (y :: nat)"
  by simp_all

lemma parts:
  "unat (a :: 8 word) div 4 < 64" "unat a div 16 < 16" "unat a div 64 < 4" "unat a mod 4 < 4"
  "unat a mod 16 < 16" "unat a mod 64 < 64"
  using byte_lt [of a] by (simp_all add: less_mult_imp_div_less)

lemma six_bits:
  "unat (a :: 8 word) mod 4 * 16 + unat (b :: 8 word) div 16 < 64" "unat a mod 4 * 16 < 64"
  "unat b mod 16 * 4 < 64" "unat b mod 16 * 4 + unat (c :: 8 word) div 64 < 64"
  using parts [of a] parts [of b] parts [of c] by linarith+

lemma regroup:
  "unat (a :: 8 word) div 4 * 4 + (unat a mod 4 * 16 + unat (b :: 8 word) div 16) div 16 = unat a"
  "unat a div 4 * 4 + (unat a mod 4 * 16) div 16 = unat a"
  "(unat a mod 4 * 16 + unat b div 16) mod 16 * 16 + (unat b mod 16 * 4 + unat (c :: 8 word) div 64) div 4 = unat b"
  "(unat a mod 4 * 16 + unat b div 16) mod 16 * 16 + (unat b mod 16 * 4) div 4 = unat b"
  "(unat b mod 16 * 4 + unat c div 64) mod 4 * 64 + unat c mod 64 = unat c"
  using parts [of a] parts [of b] parts [of c] by (simp_all add: pack del: div_mult_self1 div_mult_self3)

text \<open>\<open>btoa\<close> is a run of symbols followed by at most two pad characters.\<close>

fun btoa_values :: "bytes \<Rightarrow> nat list" where
  "btoa_values [] = []"
| "btoa_values [a] = [unat a div 4, unat a mod 4 * 16]"
| "btoa_values [a, b] = [unat a div 4, unat a mod 4 * 16 + unat b div 16, unat b mod 16 * 4]"
| "btoa_values (a # b # c # r) = [unat a div 4, unat a mod 4 * 16 + unat b div 16,
     unat b mod 16 * 4 + unat c div 64, unat c mod 64] @ btoa_values r"

fun btoa_pads :: "bytes \<Rightarrow> nat" where
  "btoa_pads [] = 0"
| "btoa_pads [a] = 2"
| "btoa_pads [a, b] = 1"
| "btoa_pads (a # b # c # r) = btoa_pads r"

lemma btoa_eq: "btoa bs = map b64_char (btoa_values bs) @ replicate (btoa_pads bs) b64_pad"
  by (induction bs rule: btoa.induct) (simp_all add: numeral_2_eq_2)

lemma btoa_pads_le: "btoa_pads bs \<le> 2 \<and> (length (btoa_values bs) + btoa_pads bs) mod 4 = 0"
  by (induction bs rule: btoa_pads.induct) simp_all

lemma btoa_values_lt: "n \<in> set (btoa_values bs) \<Longrightarrow> n < 64"
  by (induction bs rule: btoa_values.induct) (use six_bits parts in auto)

lemma byte_of_unat: "(of_nat (unat a) :: 8 word) = a"
  by simp

lemma decode_values: "b64_decode (btoa_values bs) = Some bs"
  by (induction bs rule: btoa_values.induct) (simp_all only: btoa_values.simps append.simps b64_decode.simps
    regroup byte_of_unat option.map)

lemma strip_pad_run:
  "\<forall>c \<in> set u. c \<noteq> b64_pad \<Longrightarrow> strip_pad (u @ replicate k b64_pad) = u"
proof -
  assume u: "\<forall>c \<in> set u. c \<noteq> b64_pad"
  have "dropWhile (\<lambda>c. c = b64_pad) (rev u) = rev u"
    using u by (cases "u = []") (auto simp: dropWhile_eq_self_iff hd_rev)
  then show ?thesis by (simp add: strip_pad_def dropWhile_append)
qed

lemma pad4_run: "(length u + k) mod 4 = 0 \<Longrightarrow> k < 4 \<Longrightarrow> pad4 u = u @ replicate k b64_pad"
proof (induction k arbitrary: u)
  case 0
  then show ?case by (simp add: pad4.simps)
next
  case (Suc k)
  have "length u mod 4 \<noteq> 0"
  proof
    assume "length u mod 4 = 0"
    then have "(length u + Suc k) mod 4 = Suc k mod 4" using mod_add_left_eq [of "length u" 4 "Suc k"] by simp
    with Suc.prems show False by simp
  qed
  then have "pad4 u = pad4 (u @ [b64_pad])" by (subst pad4.simps) simp
  also have "\<dots> = (u @ [b64_pad]) @ replicate k b64_pad"
    using Suc.IH [of "u @ [b64_pad]"] Suc.prems by simp
  finally show ?case by simp
qed

lemma drop_pad_run:
  assumes "\<forall>c \<in> set u. c \<noteq> b64_pad" "k \<le> 2" "(length u + k) mod 4 = 0"
  shows "drop_pad (u @ replicate k b64_pad) = u"
proof -
  have l: "u \<noteq> [] \<Longrightarrow> last u \<noteq> b64_pad" using assms(1) by simp
  from assms(2) consider "k = 0" | "k = 1" | "k = Suc (Suc 0)" by linarith
  then show ?thesis
  proof cases
    case 1
    with l show ?thesis by (cases "u = []") (simp_all add: drop_pad_def)
  next
    case 2
    with l assms(3) show ?thesis by (cases "u = []") (simp_all add: drop_pad_def Let_def)
  next
    case 3
    then have eq: "u @ replicate k b64_pad = (u @ [b64_pad]) @ [b64_pad]" by simp
    have "length ((u @ [b64_pad]) @ [b64_pad]) mod 4 = 0" using assms(3) 3 by simp
    then show ?thesis
      unfolding eq drop_pad_def Let_def butlast_snoc last_snoc by simp
  qed
qed

definition b64_run :: "bytes \<Rightarrow> jstring" where
  "b64_run bs = map b64_char (btoa_values bs)"

lemma b64_run_sym: "c \<in> set (b64_run bs) \<Longrightarrow> b64_sym c"
  using btoa_values_lt by (auto simp: b64_run_def b64_sym_def)

lemma url_char_inverse: "b64_sym c \<Longrightarrow> from_url_char (to_url_char c) = c"
  using b64_sym_facts [of c] by (auto simp: from_url_char_def to_url_char_def)

lemma to_url_not_pad: "b64_sym c \<Longrightarrow> to_url_char c \<noteq> b64_pad"
  using b64_sym_facts [of c] by (auto simp: to_url_char_def)

lemma to_base64url_eq: "to_base64url bs = map to_url_char (b64_run bs)"
proof -
  have "map to_url_char (btoa bs) = map to_url_char (b64_run bs) @ replicate (btoa_pads bs) b64_pad"
    by (simp add: btoa_eq b64_run_def to_url_char_def)
  then show ?thesis
    unfolding to_base64url_def using b64_run_sym to_url_not_pad by (simp add: strip_pad_run)
qed

lemma those_map_Some: "those (map f xs) = Some ys \<longleftrightarrow> map f xs = map Some ys"
  by (induction xs arbitrary: ys) (auto split: option.splits simp: Cons_eq_map_conv)

lemma atob_run:
  "atob (b64_run bs @ replicate (btoa_pads bs) b64_pad) = Some bs"
proof -
  have sp: "filter (\<lambda>c. \<not> ascii_space c) (b64_run bs @ replicate (btoa_pads bs) b64_pad)
      = b64_run bs @ replicate (btoa_pads bs) b64_pad"
    using b64_run_sym b64_sym_facts by (auto simp: filter_id_conv ascii_space_def)
  have len: "btoa_pads bs \<le> 2" "(length (b64_run bs) + btoa_pads bs) mod 4 = 0"
    using btoa_pads_le by (simp_all add: b64_run_def)
  have dp: "drop_pad (b64_run bs @ replicate (btoa_pads bs) b64_pad) = b64_run bs"
    by (rule drop_pad_run) (use len b64_run_sym b64_sym_facts in auto)
  have "map b64_value (b64_run bs) = map Some (btoa_values bs)"
    using btoa_values_lt b64_value_char by (simp add: b64_run_def)
  then have "those (map b64_value (b64_run bs)) = Some (btoa_values bs)" by (simp add: those_map_Some)
  moreover have "length (b64_run bs) mod 4 \<noteq> 1" using len by presburger
  ultimately show ?thesis unfolding atob_def sp dp Let_def by (simp add: decode_values)
qed

lemma from_to_base64url: "from_base64url (to_base64url bs) = Some bs"
proof -
  have m: "map from_url_char (to_base64url bs) = b64_run bs"
    unfolding to_base64url_eq map_map comp_def using b64_run_sym url_char_inverse by (simp add: map_idI)
  have "pad4 (b64_run bs) = b64_run bs @ replicate (btoa_pads bs) b64_pad"
    by (rule pad4_run) (use btoa_pads_le [of bs] in \<open>auto simp: b64_run_def\<close>)
  then show ?thesis unfolding from_base64url_def m by (simp add: atob_run)
qed

lemma inj_to_base64url: "inj to_base64url"
  by (metis from_to_base64url injI option.inject)

definition url_safe :: "16 word \<Rightarrow> bool" where
  "url_safe c \<longleftrightarrow>
     (let n = unat c in 65 \<le> n \<and> n \<le> 90 \<or> 97 \<le> n \<and> n \<le> 122 \<or> 48 \<le> n \<and> n \<le> 57 \<or> n = 45 \<or> n = 95)"

lemma url_safe_sym: "b64_sym c \<Longrightarrow> url_safe (to_url_char c)"
proof -
  assume "b64_sym c"
  then obtain n where n: "n < 64" "c = b64_char n" by (auto simp: b64_sym_def)
  show ?thesis
  proof (cases "n < 62")
    case True
    then show ?thesis using n by (auto simp: url_safe_def to_url_char_def unat_b64_char Let_def)
  next
    case False
    with n have "n = 62 \<or> n = 63" by linarith
    then show ?thesis using n by (auto simp: url_safe_def to_url_char_def b64_char_def)
  qed
qed

text \<open>C13. Every byte string survives the base64url text form that the identity package stores and signs: decoding
  what \<open>toBase64Url\<close> wrote gives the bytes back, and the text uses only characters that are safe in a URL.\<close>

theorem base64url_roundtrip:
  "from_base64url (to_base64url bs) = Some bs \<and> list_all url_safe (to_base64url bs)"
  using from_to_base64url b64_run_sym url_safe_sym by (auto simp: to_base64url_eq list_all_iff)

end
