(* ===== verification/Js_Object.thy ===== *)
theory Js_Object
  imports Canonical_Json
begin

text \<open>
  Objects of unknown shape: their own properties, the copies that spread syntax and assignments make of them, and
  \<open>JSON.stringify\<close>. An object lists its properties in the order in which JavaScript enumerates them.
\<close>

text \<open>\<open>Object.entries\<close>, and what \<open>{...value}\<close> copies.\<close>

fun js_entries :: "jsval \<Rightarrow> (jstring \<times> jsval) list" where
  "js_entries (JObj ps) = ps"
| "js_entries (JBytes bs) = map (\<lambda>(i, b). (dec_nat i, JNum (uint b))) (zip [0..<length bs] bs)"
| "js_entries (JArr vs) = map (\<lambda>(i, v). (dec_nat i, v)) (zip [0..<length vs] vs)"
| "js_entries (JStr s) = map (\<lambda>(i, c). (dec_nat i, JStr [c])) (zip [0..<length s] s)"
| "js_entries v = []"

text \<open>\<open>value.key = v\<close> and \<open>delete value.key\<close> on an object built by the code itself.\<close>

fun obj_set :: "jstring \<Rightarrow> jsval \<Rightarrow> jsval \<Rightarrow> jsval" where
  "obj_set k v (JObj ps) = JObj (AList.update k v ps)"
| "obj_set k v w = w"

fun obj_del :: "jstring \<Rightarrow> jsval \<Rightarrow> jsval" where
  "obj_del k (JObj ps) = JObj (AList.delete k ps)"
| "obj_del k w = w"

definition js_spread :: "jsval \<Rightarrow> jsval" where
  "js_spread v = JObj (js_entries v)"

fun js_list :: "jsval \<Rightarrow> jsval list" where
  "js_list (JArr vs) = vs"
| "js_list v = []"

fun is_array :: "jsval \<Rightarrow> bool" where
  "is_array (JArr vs) = True"
| "is_array v = False"

text \<open>\<open>a ?? b\<close>.\<close>

definition js_or :: "jsval \<Rightarrow> jsval \<Rightarrow> jsval" where
  "js_or a b = (if a = JUndef \<or> a = JNull then b else a)"

text \<open>\<open>typeof value === "string" && value && value.length <= max\<close>.\<close>

fun short_text :: "jsval \<Rightarrow> nat \<Rightarrow> bool" where
  "short_text (JStr s) n = (s \<noteq> [] \<and> length s \<le> n)"
| "short_text v n = False"

fun js_text :: "jsval \<Rightarrow> jstring" where
  "js_text (JStr s) = s"
| "js_text v = []"

fun js_int :: "jsval \<Rightarrow> int" where
  "js_int (JNum n) = n"
| "js_int v = 0"

text \<open>\<open>Number.isSafeInteger\<close>.\<close>

fun js_safe :: "jsval \<Rightarrow> bool" where
  "js_safe (JNum n) = is_safe_integer n"
| "js_safe v = False"

text \<open>\<open>JSON.stringify\<close>: \<open>None\<close> is \<open>undefined\<close>.\<close>

fun stringify :: "(64 word \<Rightarrow> jstring) \<Rightarrow> jsval \<Rightarrow> jstring option"
  and stringify_list :: "(64 word \<Rightarrow> jstring) \<Rightarrow> jsval list \<Rightarrow> jstring list"
  and stringify_props :: "(64 word \<Rightarrow> jstring) \<Rightarrow> (jstring \<times> jsval) list \<Rightarrow> (jstring \<times> jstring) list" where
  "stringify fmt JUndef = None"
| "stringify fmt JNull = Some (js ''null'')"
| "stringify fmt (JBool b) = Some (if b then js ''true'' else js ''false'')"
| "stringify fmt (JNum n) = Some (dec_int n)"
| "stringify fmt (JNumOther w) = Some (if finite_bits w then fmt w else js ''null'')"
| "stringify fmt (JStr s) = Some (quote s)"
| "stringify fmt (JBytes bs) =
     Some ([0x7B] @ join_comma (map (\<lambda>(i, b). member_text (dec_nat i, dec_nat (unat b))) (zip [0..<length bs] bs)) @ [0x7D])"
| "stringify fmt (JArr vs) = Some ([0x5B] @ join_comma (stringify_list fmt vs) @ [0x5D])"
| "stringify fmt (JObj ps) = Some ([0x7B] @ join_comma (map member_text (stringify_props fmt ps)) @ [0x7D])"
| "stringify_list fmt [] = []"
| "stringify_list fmt (v # vs) = (case stringify fmt v of None \<Rightarrow> js ''null'' | Some t \<Rightarrow> t) # stringify_list fmt vs"
| "stringify_props fmt [] = []"
| "stringify_props fmt ((k, v) # ps) =
     (case stringify fmt v of None \<Rightarrow> stringify_props fmt ps | Some t \<Rightarrow> (k, t) # stringify_props fmt ps)"

text \<open>\<open>new TextEncoder().encode(JSON.stringify(value)).byteLength\<close>.\<close>

definition json_bytes :: "(64 word \<Rightarrow> jstring) \<Rightarrow> jsval \<Rightarrow> nat" where
  "json_bytes fmt v = (case stringify fmt v of None \<Rightarrow> 0 | Some t \<Rightarrow> length (utf8 t))"

section \<open>Lemmas\<close>

text \<open>Property names are compared as literals.\<close>

lemma of_char_word_eq: "(of_char c :: 16 word) = of_char d \<longleftrightarrow> c = d"
proof -
  have "unat (of_char c :: 16 word) = of_char c" for c
  proof -
    have "(of_char c :: nat) < 256" using mod_less_divisor [of 256 "of_char c :: nat"] by (simp del: mod_less_divisor)
    then have "of_char c mod 65536 = (of_char c :: nat)" by (intro mod_less) linarith
    then have "unat (of_nat (of_char c) :: 16 word) = of_char c" by (simp add: unat_of_nat)
    then show ?thesis by (simp only: of_nat_of_char)
  qed
  then show ?thesis by (metis of_char_eq_iff)
qed

lemma js_eq_iff [simp]: "js a = js b \<longleftrightarrow> a = b"
  by (simp add: js_def inj_map_eq_map inj_def of_char_word_eq)

lemma length_js [simp]: "length (js a) = length a"
  by (simp add: js_def)

lemma js_Nil [simp]: "js [] = []" "js a = [] \<longleftrightarrow> a = []"
  by (simp_all add: js_def)

lemma js_prop_set [simp]: "js_prop (obj_set k v (JObj ps)) l = (if l = k then v else js_prop (JObj ps) l)"
  by (simp add: update_conv')

lemma js_prop_del [simp]: "js_prop (obj_del k (JObj ps)) l = (if l = k then JUndef else js_prop (JObj ps) l)"
  by (simp add: delete_conv')

fun is_obj :: "jsval \<Rightarrow> bool" where
  "is_obj (JObj ps) = True"
| "is_obj v = False"

lemma js_prop_set' [simp]: "is_obj w \<Longrightarrow> js_prop (obj_set k v w) l = (if l = k then v else js_prop w l)"
  by (cases w) (simp_all add: update_conv')

lemma js_prop_del' [simp]: "is_obj w \<Longrightarrow> js_prop (obj_del k w) l = (if l = k then JUndef else js_prop w l)"
  by (cases w) (simp_all add: delete_conv')

lemma is_obj_ops [simp]: "is_obj (obj_set k v w) = is_obj w" "is_obj (obj_del k w) = is_obj w" "is_obj (js_spread u)"
  by (cases w; simp add: js_spread_def)+

lemma js_spread_obj [simp]: "is_obj w \<Longrightarrow> js_spread w = w"
  by (cases w) (simp_all add: js_spread_def)

lemma set_update_subset: "set (AList.update k v xs) \<subseteq> insert (k, v) (set xs)"
  by (induction xs) auto

lemma fst_update: "fst ` set (AList.update k v xs) = insert k (fst ` set xs)"
  by (induction xs) auto

lemma update_same: "map_of xs k = Some v \<Longrightarrow> AList.update k v xs = xs"
  by (induction xs) auto

lemma obj_set_same: "js_prop w k = v \<Longrightarrow> v \<noteq> JUndef \<Longrightarrow> obj_set k v w = w"
  by (cases w) (auto simp: update_same split: option.splits)

text \<open>Only objects have properties.\<close>

lemma js_prop_obj: "js_prop w k \<noteq> JUndef \<Longrightarrow> is_obj w"
  by (cases w) simp_all

end
