(* ===== verification/Peer_Records.thy ===== *)
theory Peer_Records
  imports Js_Object
begin

text \<open>
  Records of the peer store (\<open>packages/mesh-peer-store/src/index.ts\<close>, lines 15 to 495): validation of
  peers, workspace credentials and authorities, canonical text for comparison, and the merges that keep
  security records. The wasm runtime that merges peer records and judges scope authority, and the parts of
  the platform that depend on its data (dates, collation, fractional numbers), are the record \<open>peer_env\<close>.
\<close>

datatype peer_field =
    FieldObject | FieldWorkspace | FieldDevice | FieldInstance | FieldInstances | FieldPerson | FieldEndpoint
  | FieldSecret | FieldRole | FieldLastSeen | FieldRevokedAt | FieldAdvertisement

datatype peer_error =
    InvalidCredential | InvalidAuthority | InvalidTransfer | InvalidNodeSecret | InvalidPeer peer_field
  | TooManySecurityRecords | TooManyCertificates | TooMuchHistory | ConflictingAuthority | TypeMismatch
  | InvalidInstanceId | InvalidWorkspaceId | InvalidDeviceId | InvalidSelection | CredentialBinding | AuthorityBinding
  | OwnerCannotChange | InvalidRepair | CredentialDisappeared | RevocationsChanged | InvalidGeneration
  | ReplacementMustAdvance | DifferentTransferPending | MissingCredential | OwnerChanged | InvalidOwnershipTransfer
  | OpenBlocked | OpenFailed | CommitFailed | RuntimeFault nat

record scope_owner =
  so_person :: jstring
  so_key :: jstring
  so_certificates :: "jsval list"

record peer_env =
  pe_merge_peers :: "jsval \<Rightarrow> jsval \<Rightarrow> peer_error + jsval"
  pe_validate_scope :: "jsval \<Rightarrow> int \<Rightarrow> peer_error + scope_owner \<times> scope_owner"
  pe_merge_scopes :: "jsval \<Rightarrow> jsval \<Rightarrow> int \<Rightarrow> peer_error + jsval"
  pe_date :: "jstring \<Rightarrow> int option"
  pe_locale :: "jstring \<Rightarrow> jstring \<Rightarrow> int"
  pe_number :: "64 word \<Rightarrow> jstring"
  pe_now :: int
  pe_now_text :: jstring
  pe_random :: bytes
  pe_open :: "peer_error option"
  pe_commit :: "peer_error option"

section \<open>Canonical text\<close>

definition max_string_length :: nat where "max_string_length = 256"
definition max_endpoint_length :: nat where "max_endpoint_length = 2048"
definition max_secret_length :: nat where "max_secret_length = 4096"
definition max_auth_bundle_length :: nat where "max_auth_bundle_length = 131072"

text \<open>\<open>canonicalJson\<close>: keys in order, \<open>undefined\<close> left out of objects and \<open>null\<close> elsewhere, bytes in base64.\<close>

fun canonical_json :: "(64 word \<Rightarrow> jstring) \<Rightarrow> jsval \<Rightarrow> jstring"
  and canonical_items :: "(64 word \<Rightarrow> jstring) \<Rightarrow> jsval list \<Rightarrow> jstring list"
  and canonical_entries :: "(64 word \<Rightarrow> jstring) \<Rightarrow> (jstring \<times> jsval) list \<Rightarrow> (jstring \<times> jstring) list" where
  "canonical_json fmt JUndef = js ''null''"
| "canonical_json fmt JNull = js ''null''"
| "canonical_json fmt (JBool b) = (if b then js ''true'' else js ''false'')"
| "canonical_json fmt (JNum n) = dec_int n"
| "canonical_json fmt (JNumOther w) = (if finite_bits w then fmt w else js ''null'')"
| "canonical_json fmt (JStr s) = quote s"
| "canonical_json fmt (JBytes bs) = quote (btoa bs)"
| "canonical_json fmt (JArr vs) = [0x5B] @ join_comma (canonical_items fmt vs) @ [0x5D]"
| "canonical_json fmt (JObj ps) = object_text (\<le>) (canonical_entries fmt ps)"
| "canonical_items fmt [] = []"
| "canonical_items fmt (v # vs) = canonical_json fmt v # canonical_items fmt vs"
| "canonical_entries fmt [] = []"
| "canonical_entries fmt ((k, v) # ps) =
     (if v = JUndef then canonical_entries fmt ps else (k, canonical_json fmt v) # canonical_entries fmt ps)"

abbreviation canon_of :: "'m peer_env_scheme \<Rightarrow> jsval \<Rightarrow> jstring" where
  "canon_of env \<equiv> canonical_json (pe_number env)"

section \<open>Validation\<close>

definition date_text :: "'m peer_env_scheme \<Rightarrow> jsval \<Rightarrow> bool" where
  "date_text env v = (case v of JStr s \<Rightarrow> pe_date env s \<noteq> None | _ \<Rightarrow> False)"

definition nonempty_text :: "jsval \<Rightarrow> bool" where
  "nonempty_text v = (case v of JStr s \<Rightarrow> s \<noteq> [] | _ \<Rightarrow> False)"

text \<open>The certificates and the owner history that credentials and authorities share.\<close>

definition short_list :: "jsval \<Rightarrow> nat \<Rightarrow> bool" where
  "short_list v n = (case v of JArr vs \<Rightarrow> length vs \<le> n | _ \<Rightarrow> False)"

definition valid_owner :: "jsval \<Rightarrow> bool" where
  "valid_owner owner \<longleftrightarrow> js_truthy owner \<and> nonempty_text (js_prop owner (js ''personId'')) \<and>
     nonempty_text (js_prop owner (js ''publicKey'')) \<and> short_list (js_prop owner (js ''certificates'')) 32"

definition valid_history :: "jsval \<Rightarrow> bool" where
  "valid_history v \<longleftrightarrow> v = JUndef \<or> (case v of JArr owners \<Rightarrow> length owners \<le> 32 \<and> list_all valid_owner owners | _ \<Rightarrow> False)"

definition valid_epoch :: "jsval \<Rightarrow> bool" where
  "valid_epoch v \<longleftrightarrow> js_safe v \<and> 1 \<le> js_int v"

definition valid_credential :: "'m peer_env_scheme \<Rightarrow> jsval \<Rightarrow> bool" where
  "valid_credential env item \<longleftrightarrow>
     js_truthy item \<and> js_prop item (js ''version'') = JNum 1 \<and>
     short_text (js_prop item (js ''workspaceId'')) max_string_length \<and>
     short_text (js_prop item (js ''ownerPersonId'')) max_string_length \<and>
     short_text (js_prop item (js ''ownerPublicKey'')) max_secret_length \<and>
     short_text (js_prop item (js ''transportSecret'')) max_secret_length \<and>
     valid_epoch (js_prop item (js ''epoch'')) \<and> date_text env (js_prop item (js ''updatedAt'')) \<and>
     short_list (js_prop item (js ''ownerCertificates'')) 32 \<and> valid_history (js_prop item (js ''ownerHistory'')) \<and>
     json_bytes (pe_number env) item \<le> max_auth_bundle_length"

definition validate_credential :: "'m peer_env_scheme \<Rightarrow> jsval \<Rightarrow> peer_error + unit" where
  "validate_credential env item = (if valid_credential env item then Inr () else Inl InvalidCredential)"

definition valid_snapshot :: "jsval \<Rightarrow> bool" where
  "valid_snapshot v \<longleftrightarrow> v = JUndef \<or>
     (js_truthy v \<and> js ''genesis'' \<in> fst ` set (js_entries v) \<and> short_list (js_prop v (js ''grants'')) 4096 \<and>
      short_list (js_prop v (js ''grantIssuers'')) 4096 \<and> short_list (js_prop v (js ''revocations'')) 4096 \<and>
      short_list (js_prop v (js ''controlTransfers'')) 128)"

definition valid_authority :: "'m peer_env_scheme \<Rightarrow> jsval \<Rightarrow> bool" where
  "valid_authority env item \<longleftrightarrow>
     js_truthy item \<and> js_prop item (js ''version'') = JNum 1 \<and>
     short_text (js_prop item (js ''workspaceId'')) max_string_length \<and>
     (js_prop item (js ''genesisOwnerPersonId'') = JUndef \<or>
      short_text (js_prop item (js ''genesisOwnerPersonId'')) max_string_length) \<and>
     short_text (js_prop item (js ''ownerPersonId'')) max_string_length \<and>
     short_text (js_prop item (js ''ownerPublicKey'')) max_secret_length \<and>
     valid_epoch (js_prop item (js ''epoch'')) \<and> date_text env (js_prop item (js ''updatedAt'')) \<and>
     short_list (js_prop item (js ''ownerCertificates'')) 32 \<and> valid_history (js_prop item (js ''ownerHistory'')) \<and>
     valid_snapshot (js_prop item (js ''scopeAuthoritySnapshot'')) \<and>
     json_bytes (pe_number env) item \<le> max_auth_bundle_length"

definition check_scope :: "'m peer_env_scheme \<Rightarrow> jsval \<Rightarrow> peer_error + unit" where
  "check_scope env item =
     (let snapshot = js_prop item (js ''scopeAuthoritySnapshot'') in
      if js_truthy snapshot then bind_r (pe_validate_scope env snapshot (pe_now env)) (\<lambda>_. Inr ()) else Inr ())"

definition validate_authority :: "'m peer_env_scheme \<Rightarrow> jsval \<Rightarrow> peer_error + unit" where
  "validate_authority env item = (if valid_authority env item then check_scope env item else Inl InvalidAuthority)"

definition authority_from_credential :: "'m peer_env_scheme \<Rightarrow> jsval \<Rightarrow> peer_error + jsval" where
  "authority_from_credential env credential =
     bind_r (validate_credential env credential) (\<lambda>_.
     let authority = obj_del (js ''transportSecret'') (js_spread credential) in
     bind_r (validate_authority env authority) (\<lambda>_. Inr authority))"

text \<open>The optional workspace id is the one under which a stored proposal was found.\<close>

definition validate_transfer :: "'m peer_env_scheme \<Rightarrow> jsval \<Rightarrow> jstring option \<Rightarrow> peer_error + unit" where
  "validate_transfer env proposal expected =
     (if js_truthy proposal \<and> js_prop proposal (js ''version'') = JNum 1 \<and>
         short_text (js_prop proposal (js ''workspaceId'')) max_string_length \<and>
         (case expected of None \<Rightarrow> True | Some w \<Rightarrow> js_prop proposal (js ''workspaceId'') = JStr w) \<and>
         (case js_prop proposal (js ''transfer'') of JObj _ \<Rightarrow> True | JArr _ \<Rightarrow> True | JBytes _ \<Rightarrow> True | _ \<Rightarrow> False) \<and>
         json_bytes (pe_number env) proposal \<le> max_auth_bundle_length
      then check_scope env proposal else Inl InvalidTransfer)"

definition validate_node_secret :: "jsval \<Rightarrow> peer_error + bytes" where
  "validate_node_secret secret =
     (case secret of JBytes bs \<Rightarrow> if length bs = 32 then Inr bs else Inl InvalidNodeSecret | _ \<Rightarrow> Inl InvalidNodeSecret)"

text \<open>A string that is not blank.\<close>

definition plain_text :: "jsval \<Rightarrow> nat \<Rightarrow> bool" where
  "plain_text v n = (case v of JStr s \<Rightarrow> js_trim s \<noteq> [] \<and> length s \<le> n | _ \<Rightarrow> False)"

definition valid_instance :: "'m peer_env_scheme \<Rightarrow> jsval \<Rightarrow> bool" where
  "valid_instance env i \<longleftrightarrow>
     js_truthy i \<and> short_text (js_prop i (js ''instanceId'')) max_string_length \<and>
     short_text (js_prop i (js ''endpoint'')) max_endpoint_length \<and> date_text env (js_prop i (js ''lastSeen''))"

definition valid_secret :: "jsval \<Rightarrow> bool" where
  "valid_secret v =
     (case v of
        JStr s \<Rightarrow> 0 < length s \<and> length s \<le> max_secret_length
      | JBytes bs \<Rightarrow> 0 < length bs \<and> length bs \<le> max_secret_length
      | _ \<Rightarrow> False)"

definition validate_peer :: "'m peer_env_scheme \<Rightarrow> jsval \<Rightarrow> peer_error + unit" where
  "validate_peer env r =
     bind_r (assert_r (is_record r \<or> is_array r) (InvalidPeer FieldObject)) (\<lambda>_.
     bind_r (assert_r (plain_text (js_prop r (js ''workspaceId'')) max_string_length) (InvalidPeer FieldWorkspace)) (\<lambda>_.
     bind_r (assert_r (plain_text (js_prop r (js ''deviceId'')) max_string_length) (InvalidPeer FieldDevice)) (\<lambda>_.
     bind_r (assert_r (js_prop r (js ''instanceId'') = JUndef \<or> short_text (js_prop r (js ''instanceId'')) max_string_length)
       (InvalidPeer FieldInstance)) (\<lambda>_.
     bind_r (assert_r (js_prop r (js ''instances'') = JUndef \<or>
       (short_list (js_prop r (js ''instances'')) 32 \<and> list_all (valid_instance env) (js_list (js_prop r (js ''instances'')))))
       (InvalidPeer FieldInstances)) (\<lambda>_.
     bind_r (assert_r (plain_text (js_prop r (js ''personId'')) max_string_length) (InvalidPeer FieldPerson)) (\<lambda>_.
     bind_r (assert_r (plain_text (js_prop r (js ''endpoint'')) max_endpoint_length) (InvalidPeer FieldEndpoint)) (\<lambda>_.
     bind_r (assert_r (valid_secret (js_prop r (js ''transportSecret''))) (InvalidPeer FieldSecret)) (\<lambda>_.
     bind_r (assert_r (js_prop r (js ''role'') \<in> JStr ` {js ''owner'', js ''editor'', js ''visitor''}) (InvalidPeer FieldRole)) (\<lambda>_.
     bind_r (assert_r (date_text env (js_prop r (js ''lastSeen''))) (InvalidPeer FieldLastSeen)) (\<lambda>_.
     bind_r (assert_r (js_prop r (js ''revokedAt'') \<in> {JUndef, JNull} \<or> date_text env (js_prop r (js ''revokedAt'')))
       (InvalidPeer FieldRevokedAt)) (\<lambda>_.
     assert_r (js_prop r (js ''advertisement'') = JUndef \<or>
       json_bytes (pe_number env) (js_prop r (js ''advertisement'')) \<le> max_auth_bundle_length)
       (InvalidPeer FieldAdvertisement))))))))))))"

section \<open>Merging security records\<close>

text \<open>\<open>new Map(values.map(value => [canonicalJson(value), value]))\<close>.\<close>

definition by_canon :: "'m peer_env_scheme \<Rightarrow> jsval list \<Rightarrow> (jstring \<times> jsval) list" where
  "by_canon env vs = fold (\<lambda>v. AList.update (canon_of env v) v) vs []"

text \<open>\<open>slice(-32)\<close>.\<close>

definition last32 :: "'a list \<Rightarrow> 'a list" where
  "last32 xs = drop (length xs - 32) xs"

definition repair_history :: "'m peer_env_scheme \<Rightarrow> jsval \<Rightarrow> jsval \<Rightarrow> jsval list" where
  "repair_history env left right =
     last32 (map snd (by_canon env (js_list (js_prop left (js ''revocationBoundaryHistory'')) @
       js_list (js_prop right (js ''revocationBoundaryHistory'')))))"

definition superseded :: "'m peer_env_scheme \<Rightarrow> jsval list \<Rightarrow> jstring list" where
  "superseded env history = concat (map (\<lambda>v. map (canon_of env) (js_list (js_prop v (js ''removed'')))) history)"

text \<open>The records both catalogs hold under one key, without repetitions and in collation order.\<close>

definition union_records ::
  "'m peer_env_scheme \<Rightarrow> jstring list \<Rightarrow> jstring \<Rightarrow> jsval \<Rightarrow> jsval \<Rightarrow> peer_error + jsval list" where
  "union_records env removed key left right =
     (let values = js_list (js_prop left key) @ js_list (js_prop right key);
          unique = by_canon env (filter (\<lambda>v. key \<noteq> js ''revocations'' \<or> canon_of env v \<notin> set removed) values)
      in if 512 < length unique then Inl TooManySecurityRecords
         else Inr (map snd (js_sort (\<lambda>a b. pe_locale env (fst a) (fst b) \<le> 0) unique)))"

fun union_keys ::
  "'m peer_env_scheme \<Rightarrow> jstring list \<Rightarrow> jsval \<Rightarrow> jsval \<Rightarrow> jstring list \<Rightarrow> jsval \<Rightarrow> peer_error + jsval" where
  "union_keys env removed left right [] catalog = Inr catalog"
| "union_keys env removed left right (k # ks) catalog =
     (if \<not> is_array (js_prop left k) \<and> \<not> is_array (js_prop right k) then union_keys env removed left right ks catalog
      else bind_r (union_records env removed k left right) (\<lambda>vs.
        union_keys env removed left right ks (obj_set k (JArr vs) catalog)))"

text \<open>The access epoch of a grant, one when it is absent; it is a number in every signed grant.\<close>

definition access_epoch :: "jsval \<Rightarrow> int" where
  "access_epoch payload = js_int (js_or (js_prop payload (js ''accessEpoch'')) (JNum 1))"

definition merge_credential_security :: "'m peer_env_scheme \<Rightarrow> jsval \<Rightarrow> jsval \<Rightarrow> peer_error + jsval" where
  "merge_credential_security env current incoming =
     (let epoch = (\<lambda>c. js_int (js_prop c (js ''epoch'')));
          newer = epoch current < epoch incoming \<or>
            (epoch incoming = epoch current \<and>
             js_text (js_prop current (js ''updatedAt'')) \<le> js_text (js_prop incoming (js ''updatedAt'')));
          chosen = (if newer then incoming else current);
          left = js_or (js_prop current (js ''catalog'')) (JObj []);
          right = js_or (js_prop incoming (js ''catalog'')) (JObj []);
          history = repair_history env left right
      in bind_r (union_keys env (superseded env history) left right
           [js ''deviceRevocations'', js ''departures'', js ''revocations'']
           (js_spread (js_prop chosen (js ''catalog'')))) (\<lambda>unions.
         let catalog = (if history \<noteq> [] then obj_set (js ''revocationBoundaryHistory'') (JArr history) unions else unions);
             result = obj_set (js ''catalog'') catalog (js_spread chosen);
             old = js_prop current (js ''localGrant''); next_grant = js_prop incoming (js ''localGrant'')
         in bind_r
              (if js_truthy old \<and> js_truthy next_grant then
                 let p = js_prop old (js ''payload''); q = js_prop next_grant (js ''payload'') in
                 if p \<in> {JUndef, JNull} \<or> q \<in> {JUndef, JNull} then Inl TypeMismatch
                 else if js_eq (js_prop p (js ''personId'')) (js_prop q (js ''personId'')) then
                   Inr (obj_set (js ''localGrant'') (if access_epoch q < access_epoch p then old else next_grant) result)
                 else Inr result
               else Inr result) (\<lambda>granted.
            Inr (obj_set (js ''ownerCertificates'')
              (JArr (map snd (by_canon env (js_list (js_prop current (js ''ownerCertificates'')) @
                js_list (js_prop incoming (js ''ownerCertificates'')))))) granted))))"

section \<open>Merging authorities\<close>

definition projected_certificates :: "scope_owner \<Rightarrow> jsval \<Rightarrow> jsval list" where
  "projected_certificates controller projection =
     (if js_prop projection (js ''ownerPersonId'') \<noteq> JStr (so_person controller) \<or>
         js_prop projection (js ''ownerPublicKey'') \<noteq> JStr (so_key controller) then []
      else filter (\<lambda>c. js_prop (js_prop c (js ''payload'')) (js ''personId'') = JStr (so_person controller))
        (js_list (js_prop projection (js ''ownerCertificates''))))"

definition controller_certificate_evidence ::
  "'m peer_env_scheme \<Rightarrow> scope_owner \<Rightarrow> jsval list \<Rightarrow> peer_error + jsval list" where
  "controller_certificate_evidence env controller projections =
     (let unique = by_canon env (so_certificates controller @ concat (map (projected_certificates controller) projections))
      in if 512 < length unique then Inl TooManyCertificates else Inr (map snd unique))"

definition owner_json :: "jsval \<Rightarrow> jsval \<Rightarrow> jsval \<Rightarrow> jsval" where
  "owner_json person key certificates =
     JObj [(js ''personId'', person), (js ''publicKey'', key), (js ''certificates'', certificates)]"

definition scope_owner_json :: "scope_owner \<Rightarrow> jsval" where
  "scope_owner_json owner = owner_json (JStr (so_person owner)) (JStr (so_key owner)) (JArr (so_certificates owner))"

definition own_entry :: "jsval \<Rightarrow> jsval" where
  "own_entry item = owner_json (js_prop item (js ''ownerPersonId'')) (js_prop item (js ''ownerPublicKey''))
     (js_prop item (js ''ownerCertificates''))"

definition owner_key :: "jsval \<Rightarrow> jstring" where
  "owner_key owner = js_text (js_prop owner (js ''personId'')) @ [0] @ js_text (js_prop owner (js ''publicKey''))"

definition same_owner :: "jsval \<Rightarrow> jsval \<Rightarrow> bool" where
  "same_owner a b \<longleftrightarrow> js_prop a (js ''ownerPersonId'') = js_prop b (js ''ownerPersonId'') \<and>
     js_prop a (js ''ownerPublicKey'') = js_prop b (js ''ownerPublicKey'')"

definition parsed :: "'m peer_env_scheme \<Rightarrow> jsval \<Rightarrow> int" where
  "parsed env item = (case pe_date env (js_text (js_prop item (js ''updatedAt''))) of None \<Rightarrow> 0 | Some t \<Rightarrow> t)"

text \<open>The projection whose remaining fields the merged record takes over.\<close>

definition preferred_projection ::
  "'m peer_env_scheme \<Rightarrow> jsval \<Rightarrow> jsval \<Rightarrow> scope_owner option \<Rightarrow> jsval" where
  "preferred_projection env current incoming controller =
     (let later = js_int (js_prop current (js ''epoch'')) < js_int (js_prop incoming (js ''epoch''));
          take_incoming = later \<or> (same_owner current incoming \<and> parsed env current \<le> parsed env incoming);
          first = (if take_incoming then incoming else current);
          second = (if take_incoming then current else incoming)
      in case controller of
           None \<Rightarrow> first
         | Some c \<Rightarrow>
             (case find (\<lambda>item. js_prop item (js ''ownerPersonId'') = JStr (so_person c) \<and>
                js_prop item (js ''ownerPublicKey'') = JStr (so_key c)) [first, second] of
                Some item \<Rightarrow> item
              | None \<Rightarrow> if later then incoming else current))"

definition merged_history :: "jsval \<Rightarrow> jsval \<Rightarrow> (scope_owner \<times> scope_owner) option \<Rightarrow> jsval \<Rightarrow> peer_error + jsval" where
  "merged_history current incoming validated merged =
     (let owners = js_list (js_prop current (js ''ownerHistory'')) @ [own_entry current] @
            js_list (js_prop incoming (js ''ownerHistory'')) @ [own_entry incoming] @
            (case validated of None \<Rightarrow> [] | Some (creator, controller) \<Rightarrow> [scope_owner_json creator, scope_owner_json controller]);
          others = filter (\<lambda>w. js_prop w (js ''personId'') \<noteq> js_prop merged (js ''ownerPersonId'') \<or>
            js_prop w (js ''publicKey'') \<noteq> js_prop merged (js ''ownerPublicKey'')) owners;
          history = map snd (fold (\<lambda>w. AList.update (owner_key w) w) others [])
      in if 32 < length history then Inl TooMuchHistory
         else Inr (if history \<noteq> [] then obj_set (js ''ownerHistory'') (JArr history) merged
           else obj_del (js ''ownerHistory'') merged))"

definition merged_catalog :: "'m peer_env_scheme \<Rightarrow> jsval \<Rightarrow> jsval \<Rightarrow> jsval \<Rightarrow> jsval \<Rightarrow> peer_error + jsval" where
  "merged_catalog env current incoming preferred merged =
     (let left = js_or (js_prop current (js ''catalog'')) (JObj []);
          right = js_or (js_prop incoming (js ''catalog'')) (JObj []);
          history = repair_history env left right;
          keys = filter (\<lambda>k. is_array (js_prop left k) \<or> is_array (js_prop right k))
            (js_uniq (map fst (js_entries left) @ map fst (js_entries right)))
      in bind_r (union_keys env (superseded env history) left right keys
           (js_spread (js_or (js_prop preferred (js ''catalog'')) (JObj [])))) (\<lambda>unions.
         let catalog = (if history \<noteq> [] then obj_set (js ''revocationBoundaryHistory'') (JArr history) unions else unions)
         in Inr (if js_entries catalog \<noteq> [] then obj_set (js ''catalog'') catalog merged else obj_del (js ''catalog'') merged)))"

definition merged_grant :: "jsval \<Rightarrow> jsval \<Rightarrow> jsval \<Rightarrow> jsval" where
  "merged_grant current incoming merged =
     (let old = js_prop current (js ''localGrant''); next_grant = js_prop incoming (js ''localGrant'');
          p = js_prop old (js ''payload''); q = js_prop next_grant (js ''payload'')
      in if js_truthy old \<and> \<not> js_truthy next_grant then obj_set (js ''localGrant'') old merged
         else if js_truthy (js_prop p (js ''personId'')) \<and> js_eq (js_prop p (js ''personId'')) (js_prop q (js ''personId'')) \<and>
           access_epoch q < access_epoch p then obj_set (js ''localGrant'') old merged
         else merged)"

definition merge_workspace_authority :: "'m peer_env_scheme \<Rightarrow> jsval \<Rightarrow> jsval \<Rightarrow> peer_error + jsval" where
  "merge_workspace_authority env current incoming =
     bind_r (validate_authority env incoming) (\<lambda>_.
     bind_r (validate_authority env current) (\<lambda>_.
     let a = js_prop current (js ''scopeAuthoritySnapshot''); b = js_prop incoming (js ''scopeAuthoritySnapshot'') in
     bind_r (if js_truthy a \<and> js_truthy b then pe_merge_scopes env a b (pe_now env) else Inr (js_or a b)) (\<lambda>snapshot.
     bind_r (if js_truthy snapshot then bind_r (pe_validate_scope env snapshot (pe_now env)) (\<lambda>v. Inr (Some v)) else Inr None) (\<lambda>validated.
     let m = js_int (js_prop current (js ''epoch'')); n = js_int (js_prop incoming (js ''epoch'')) in
     if validated = None \<and> \<not> same_owner current incoming \<and> m = n then Inl ConflictingAuthority
     else
       let preferred = preferred_projection env current incoming (map_option snd validated);
           base = obj_set (js ''scopeAuthoritySnapshot'') snapshot
             (obj_set (js ''updatedAt'') (js_prop (if parsed env current < parsed env incoming then incoming else current) (js ''updatedAt''))
             (obj_set (js ''epoch'') (JNum (max m n)) (js_spread preferred)))
       in bind_r
            (case validated of
               None \<Rightarrow>
                 Inr (obj_set (js ''genesisOwnerPersonId'') (js_or (js_prop current (js ''genesisOwnerPersonId''))
                   (js_prop incoming (js ''genesisOwnerPersonId''))) base)
             | Some (creator, controller) \<Rightarrow>
                 bind_r (controller_certificate_evidence env controller [current, incoming]) (\<lambda>certificates.
                 Inr (obj_set (js ''ownerCertificates'') (JArr certificates) (obj_set (js ''ownerPublicKey'') (JStr (so_key controller))
                   (obj_set (js ''ownerPersonId'') (JStr (so_person controller))
                   (obj_set (js ''genesisOwnerPersonId'') (JStr (so_person creator)) base)))))) (\<lambda>owned.
          bind_r (merged_history current incoming validated owned) (\<lambda>with_history.
          bind_r (merged_catalog env current incoming preferred with_history) (\<lambda>with_catalog.
          Inr (merged_grant current incoming with_catalog))))))))"

end
