(* ===== verification/Peer_Store.thy ===== *)
theory Peer_Store
  imports Peer_Records
begin

text \<open>
  The class \<open>PeerStore\<close> (\<open>packages/mesh-peer-store/src/index.ts\<close>, lines 384 to 396 and 497 to 1204) over the three
  object stores of its IndexedDB database. The body of a transaction either fails or yields a result and the
  written stores; \<open>run_tx\<close> resolves only after the commit, so an error of the body or of the commit leaves the
  stores as they were. Stored node secrets are byte arrays and records carry their key path.
\<close>

record peer_store =
  ps_connected :: bool
  ps_peers :: "((jstring \<times> jstring) \<times> jsval) list"
  ps_nodes :: "(jstring \<times> jsval) list"
  ps_authorities :: "(jstring \<times> jsval) list"

type_synonym 'a tx = "peer_store \<Rightarrow> peer_error + 'a \<times> peer_store"
type_synonym 'a peer_call = "(peer_store, peer_error, 'a) action"

definition new_peer_store :: peer_store where
  "new_peer_store = \<lparr> ps_connected = False, ps_peers = [], ps_nodes = [], ps_authorities = [] \<rparr>"

definition get_db :: "'m peer_env_scheme \<Rightarrow> peer_store \<Rightarrow> peer_error + peer_store" where
  "get_db env s =
     (if ps_connected s then Inr s
      else case pe_open env of Some e \<Rightarrow> Inl e | None \<Rightarrow> Inr (s\<lparr> ps_connected := True \<rparr>))"

definition run_tx :: "'m peer_env_scheme \<Rightarrow> 'a tx \<Rightarrow> 'a peer_call" where
  "run_tx env body s =
     (case get_db env s of
        Inl e \<Rightarrow> (Inl e, s)
      | Inr s1 \<Rightarrow>
          (case body s1 of
             Inl e \<Rightarrow> (Inl e, s1)
           | Inr (x, s2) \<Rightarrow> (case pe_commit env of Some e \<Rightarrow> (Inl e, s1) | None \<Rightarrow> (Inr x, s2))))"

text \<open>\<open>close\<close>, and the handlers of \<open>versionchange\<close> and \<open>close\<close> events.\<close>

definition disconnect :: "unit peer_call" where
  "disconnect s = (Inr (), s\<lparr> ps_connected := False \<rparr>)"

section \<open>Node secrets and sequences\<close>

definition node_secret_key :: jstring where "node_secret_key = js ''localNodeSecret''"
definition sequence_prefix :: jstring where "sequence_prefix = js ''instance-sequence:''"
definition credential_prefix :: jstring where "credential_prefix = js ''workspace:''"
definition transfer_prefix :: jstring where "transfer_prefix = js ''pending-ownership-transfer:''"

definition node_get :: "peer_store \<Rightarrow> jstring \<Rightarrow> jsval" where
  "node_get s k = (case map_of (ps_nodes s) k of None \<Rightarrow> JUndef | Some r \<Rightarrow> r)"

definition node_put :: "jstring \<Rightarrow> (jstring \<times> jsval) list \<Rightarrow> peer_store \<Rightarrow> peer_store" where
  "node_put k props s = s\<lparr> ps_nodes := AList.update k (JObj ((js ''key'', JStr k) # props)) (ps_nodes s) \<rparr>"

definition node_delete :: "jstring \<Rightarrow> peer_store \<Rightarrow> peer_store" where
  "node_delete k s = s\<lparr> ps_nodes := AList.delete k (ps_nodes s) \<rparr>"

abbreviation secret_of :: "jsval \<Rightarrow> jsval" where
  "secret_of r \<equiv> js_prop r (js ''secret'')"

definition get_node_secret :: "'m peer_env_scheme \<Rightarrow> bytes option peer_call" where
  "get_node_secret env = run_tx env (\<lambda>s.
     let secret = secret_of (node_get s node_secret_key) in
     if \<not> js_truthy secret then Inr (None, s)
     else bind_r (validate_node_secret secret) (\<lambda>bs. Inr (Some bs, s)))"

definition set_node_secret :: "'m peer_env_scheme \<Rightarrow> jsval \<Rightarrow> unit peer_call" where
  "set_node_secret env secret =
     (case validate_node_secret secret of
        Inl e \<Rightarrow> throw e
      | Inr bs \<Rightarrow> run_tx env (\<lambda>s.
          Inr ((), node_put node_secret_key [(js ''secret'', JBytes bs), (js ''updatedAt'', JStr (pe_now_text env))] s)))"

fun js_bytes :: "jsval \<Rightarrow> bytes" where
  "js_bytes (JBytes bs) = bs"
| "js_bytes v = []"

definition read_named_secret :: "jstring \<Rightarrow> jstring option \<Rightarrow> bytes option tx" where
  "read_named_secret key fallback_key s =
     (let secret = secret_of (node_get s key);
          fallback = (case fallback_key of None \<Rightarrow> JUndef | Some k \<Rightarrow> secret_of (node_get s k))
      in if js_truthy fallback then
           bind_r (validate_node_secret fallback) (\<lambda>fb.
           if \<not> js_truthy secret \<or> take (length (js_bytes secret)) fb \<noteq> js_bytes secret then Inr (None, s)
           else Inr (Some fb, s))
         else if \<not> js_truthy secret then Inr (None, s)
         else bind_r (validate_node_secret secret) (\<lambda>bs. Inr (Some bs, s)))"

definition write_named_secret :: "'m peer_env_scheme \<Rightarrow> jstring \<Rightarrow> jstring option \<Rightarrow> bytes tx" where
  "write_named_secret env key fallback_key s =
     (let secret = secret_of (node_get s key);
          fallback = (case fallback_key of None \<Rightarrow> JUndef | Some k \<Rightarrow> secret_of (node_get s k));
          store = (\<lambda>bs. Inr (bs, node_put key [(js ''secret'', JBytes bs), (js ''createdAt'', JStr (pe_now_text env))] s))
      in if js_truthy fallback then bind_r (validate_node_secret fallback) store
         else if js_truthy secret then bind_r (validate_node_secret secret) (\<lambda>bs. Inr (bs, s))
         else store (pe_random env))"

definition named_node_secret :: "'m peer_env_scheme \<Rightarrow> jstring \<Rightarrow> jstring option \<Rightarrow> bytes peer_call" where
  "named_node_secret env key fallback_key =
     bind_s (run_tx env (read_named_secret key fallback_key)) (\<lambda>existing.
     case existing of Some bs \<Rightarrow> ret bs | None \<Rightarrow> run_tx env (write_named_secret env key fallback_key))"

definition get_or_create_node_secret :: "'m peer_env_scheme \<Rightarrow> bytes peer_call" where
  "get_or_create_node_secret env = named_node_secret env node_secret_key None"

definition valid_instance_id :: "jstring \<Rightarrow> bool" where
  "valid_instance_id i \<longleftrightarrow> i \<noteq> [] \<and> length i \<le> max_string_length"

definition get_or_create_instance_secret :: "'m peer_env_scheme \<Rightarrow> jstring \<Rightarrow> bytes peer_call" where
  "get_or_create_instance_secret env i =
     (if \<not> valid_instance_id i then throw InvalidInstanceId
      else named_node_secret env (js ''instance:'' @ i) (if i = js ''slot-0'' then Some node_secret_key else None))"

definition next_sequence :: "'m peer_env_scheme \<Rightarrow> jstring \<Rightarrow> int peer_call" where
  "next_sequence env i =
     (if \<not> valid_instance_id i then throw InvalidInstanceId
      else run_tx env (\<lambda>s.
        let key = sequence_prefix @ i; old = js_prop (node_get s key) (js ''sequence'');
            sequence = (if js_safe old then js_int old + 1 else 1)
        in Inr (sequence, node_put key [(js ''sequence'', JNum sequence), (js ''updatedAt'', JStr (pe_now_text env))] s)))"

section \<open>Authorities and credentials\<close>

definition authority_get :: "peer_store \<Rightarrow> jstring \<Rightarrow> jsval" where
  "authority_get s w = (case map_of (ps_authorities s) w of None \<Rightarrow> JUndef | Some a \<Rightarrow> a)"

definition authority_put :: "jsval \<Rightarrow> peer_store \<Rightarrow> peer_store" where
  "authority_put a s = s\<lparr> ps_authorities := AList.update (js_text (js_prop a (js ''workspaceId''))) a (ps_authorities s) \<rparr>"

definition put_authority_if_newer :: "'m peer_env_scheme \<Rightarrow> jsval \<Rightarrow> unit tx" where
  "put_authority_if_newer env authority s =
     (case map_of (ps_authorities s) (js_text (js_prop authority (js ''workspaceId''))) of
        Some current \<Rightarrow>
          bind_r (merge_workspace_authority env current authority) (\<lambda>merged.
          if canon_of env merged = canon_of env current then Inr ((), s) else Inr ((), authority_put merged s))
      | None \<Rightarrow> bind_r (validate_authority env authority) (\<lambda>_. Inr ((), authority_put authority s)))"

abbreviation credential_of :: "jsval \<Rightarrow> jsval" where
  "credential_of r \<equiv> js_prop r (js ''credential'')"

abbreviation workspace_of :: "jsval \<Rightarrow> jsval" where
  "workspace_of v \<equiv> js_prop v (js ''workspaceId'')"

definition get_workspace_credential :: "'m peer_env_scheme \<Rightarrow> jstring \<Rightarrow> jsval peer_call" where
  "get_workspace_credential env w =
     (if w = [] then throw InvalidWorkspaceId
      else run_tx env (\<lambda>s.
        let r = node_get s (credential_prefix @ w) in
        if \<not> js_truthy r then Inr (JNull, s)
        else bind_r (validate_credential env (credential_of r)) (\<lambda>_. Inr (credential_of r, s))))"

record authorization =
  au_workspace :: jstring
  au_credential :: jsval
  au_authority :: jsval

definition read_authorization :: "'m peer_env_scheme \<Rightarrow> peer_store \<Rightarrow> jstring \<Rightarrow> peer_error + authorization" where
  "read_authorization env s w =
     (let credential = js_or (credential_of (node_get s (credential_prefix @ w))) JNull; stored = authority_get s w in
      bind_r (if js_truthy credential then
          bind_r (validate_credential env credential) (\<lambda>_.
          assert_r (workspace_of credential = JStr w) CredentialBinding) else Inr ()) (\<lambda>_.
      bind_r (if js_truthy stored then
          bind_r (validate_authority env stored) (\<lambda>_.
          assert_r (workspace_of stored = JStr w) AuthorityBinding) else Inr ()) (\<lambda>_.
      bind_r (if stored \<noteq> JUndef \<and> stored \<noteq> JNull then Inr stored
          else if js_truthy credential then authority_from_credential env credential else Inr JNull) (\<lambda>authority.
      Inr \<lparr> au_workspace = w, au_credential = credential, au_authority = authority \<rparr>))))"

fun read_authorizations :: "'m peer_env_scheme \<Rightarrow> peer_store \<Rightarrow> jstring list \<Rightarrow> peer_error + authorization list" where
  "read_authorizations env s [] = Inr []"
| "read_authorizations env s (w # ws) =
     bind_r (read_authorization env s w) (\<lambda>a. bind_r (read_authorizations env s ws) (\<lambda>as. Inr (a # as)))"

definition read_workspace_authorization :: "'m peer_env_scheme \<Rightarrow> jstring list \<Rightarrow> authorization list peer_call" where
  "read_workspace_authorization env ws =
     (if ws = [] \<or> 512 < length ws \<or> list_ex (\<lambda>w. w = [] \<or> max_string_length < length w) ws \<or> \<not> distinct ws
      then throw InvalidSelection
      else run_tx env (\<lambda>s. bind_r (read_authorizations env s ws) (\<lambda>as. Inr (as, s))))"

definition put_credential_record :: "jstring \<Rightarrow> jsval \<Rightarrow> peer_store \<Rightarrow> peer_store" where
  "put_credential_record key credential s = node_put key [(js ''credential'', credential)] s"

definition put_workspace_credential :: "'m peer_env_scheme \<Rightarrow> jsval \<Rightarrow> unit peer_call" where
  "put_workspace_credential env credential =
     (case validate_credential env credential of
        Inl e \<Rightarrow> throw e
      | Inr _ \<Rightarrow> run_tx env (\<lambda>s.
          let key = credential_prefix @ js_text (workspace_of credential); r = node_get s key in
          bind_r
            (if js_truthy r then
               bind_r (validate_credential env (credential_of r)) (\<lambda>_.
               if \<not> js_eq (js_prop (credential_of r) (js ''ownerPersonId'')) (js_prop credential (js ''ownerPersonId''))
               then Inl OwnerCannotChange
               else merge_credential_security env (credential_of r) credential)
             else Inr credential) (\<lambda>merged.
          bind_r (authority_from_credential env merged) (\<lambda>authority.
          put_authority_if_newer env authority (put_credential_record key merged s)))))"

text \<open>\<open>replaceWorkspaceRevocationGeneration\<close>.\<close>

definition of_person :: "jstring \<Rightarrow> jsval \<Rightarrow> bool" where
  "of_person person v \<longleftrightarrow> js_prop (js_prop v (js ''payload'')) (js ''personId'') = JStr person"

definition generation_member :: "jstring \<Rightarrow> jstring \<Rightarrow> jsval \<Rightarrow> jsval \<Rightarrow> bool" where
  "generation_member w person owner v \<longleftrightarrow>
     (let p = js_prop v (js ''payload'') in
      js_truthy p \<and> js_prop p (js ''workspaceId'') = JStr w \<and> js_prop p (js ''personId'') = JStr person \<and>
      js_eq (js_prop p (js ''ownerPersonId'')) owner \<and> js_safe (js_prop p (js ''epoch'')))"

definition record_epoch :: "jsval \<Rightarrow> int" where
  "record_epoch v = js_int (js_prop (js_prop v (js ''payload'')) (js ''epoch''))"

definition repaired_credential ::
  "'m peer_env_scheme \<Rightarrow> jsval \<Rightarrow> jstring \<Rightarrow> jsval list \<Rightarrow> jsval list \<Rightarrow> jsval" where
  "repaired_credential env current person expected replacements =
     (let catalog = js_or (js_prop current (js ''catalog'')) (JObj []);
          records = js_list (js_prop catalog (js ''revocations''));
          history = js_list (js_prop catalog (js ''revocationBoundaryHistory''));
          entry = JObj [(js ''personId'', JStr person), (js ''removed'', JArr expected), (js ''replacements'', JArr replacements),
            (js ''repairedAt'', JStr (pe_now_text env))]
      in obj_set (js ''catalog'')
           (obj_set (js ''revocationBoundaryHistory'') (JArr (last32 (history @ [entry])))
             (obj_set (js ''revocations'') (JArr (filter (\<lambda>v. \<not> of_person person v) records @ replacements)) (js_spread catalog)))
           (obj_set (js ''updatedAt'') (JStr (pe_now_text env)) (js_spread current)))"

definition replace_revocation_generation ::
  "'m peer_env_scheme \<Rightarrow> jstring \<Rightarrow> jstring \<Rightarrow> jsval list \<Rightarrow> jsval list \<Rightarrow> jsval peer_call" where
  "replace_revocation_generation env w person expected replacements =
     (if w = [] \<or> person = [] \<or> expected = [] \<or> replacements = [] \<or> 128 < length expected \<or> 32 < length replacements
      then throw InvalidRepair
      else run_tx env (\<lambda>s.
        let key = credential_prefix @ w; r = node_get s key in
        if \<not> js_truthy r then Inl CredentialDisappeared
        else
          let current = credential_of r in
          bind_r (validate_credential env current) (\<lambda>_.
          let catalog = js_or (js_prop current (js ''catalog'')) (JObj []);
              records = js_list (js_prop catalog (js ''revocations''));
              owner = js_prop current (js ''ownerPersonId'')
          in if canon_of env (JArr (filter (of_person person) records)) \<noteq> canon_of env (JArr expected) then Inl RevocationsChanged
             else if \<not> list_all (generation_member w person owner) expected then Inl InvalidGeneration
             else if \<not> list_all (\<lambda>v. generation_member w person owner v \<and>
               list_all (\<lambda>o'. record_epoch o' < record_epoch v) expected) replacements then Inl ReplacementMustAdvance
             else
               let next_credential = repaired_credential env current person expected replacements in
               bind_r (validate_credential env next_credential) (\<lambda>_.
               bind_r (authority_from_credential env next_credential) (\<lambda>authority.
               bind_r (put_authority_if_newer env authority (put_credential_record key next_credential s)) (\<lambda>(_, s').
               Inr (next_credential, s')))))))"

section \<open>Ownership transfer\<close>

abbreviation proposal_of :: "jsval \<Rightarrow> jsval" where
  "proposal_of r \<equiv> js_prop r (js ''proposal'')"

definition get_pending_transfer :: "'m peer_env_scheme \<Rightarrow> jstring \<Rightarrow> jsval peer_call" where
  "get_pending_transfer env w =
     (if w = [] then throw InvalidWorkspaceId
      else run_tx env (\<lambda>s.
        let r = node_get s (transfer_prefix @ w) in
        if \<not> js_truthy r then Inr (JNull, s)
        else bind_r (validate_transfer env (proposal_of r) (Some w)) (\<lambda>_. Inr (proposal_of r, s))))"

definition put_pending_transfer :: "'m peer_env_scheme \<Rightarrow> jsval \<Rightarrow> unit peer_call" where
  "put_pending_transfer env proposal =
     (case validate_transfer env proposal None of
        Inl e \<Rightarrow> throw e
      | Inr _ \<Rightarrow> run_tx env (\<lambda>s.
          let w = js_text (workspace_of proposal); key = transfer_prefix @ w; r = node_get s key in
          if js_truthy r then
            bind_r (validate_transfer env (proposal_of r) (Some w)) (\<lambda>_.
            if stringify (pe_number env) (proposal_of r) \<noteq> stringify (pe_number env) proposal then Inl DifferentTransferPending
            else Inr ((), s))
          else Inr ((), node_put key [(js ''proposal'', proposal)] s)))"

definition transfer_workspace_credential ::
  "'m peer_env_scheme \<Rightarrow> jstring \<Rightarrow> jsval \<Rightarrow> jsval \<Rightarrow> unit peer_call" where
  "transfer_workspace_credential env expected_owner credential snapshot =
     (case validate_credential env credential of
        Inl e \<Rightarrow> throw e
      | Inr _ \<Rightarrow> run_tx env (\<lambda>s.
          let w = js_text (workspace_of credential); key = credential_prefix @ w; r = node_get s key in
          if \<not> js_truthy r then Inl MissingCredential
          else
            bind_r (validate_credential env (credential_of r)) (\<lambda>_.
            if js_prop (credential_of r) (js ''ownerPersonId'') \<noteq> JStr expected_owner then Inl OwnerChanged
            else if js_int (js_prop credential (js ''epoch'')) \<le> js_int (js_prop (credential_of r) (js ''epoch''))
            then Inl InvalidOwnershipTransfer
            else
              bind_r (authority_from_credential env credential) (\<lambda>authority.
              bind_r (put_authority_if_newer env (obj_set (js ''scopeAuthoritySnapshot'') snapshot authority)
                (put_credential_record key credential s)) (\<lambda>(_, s').
              Inr ((), node_delete (transfer_prefix @ w) s'))))))"

section \<open>Reading and writing authorities\<close>

definition put_workspace_authority :: "'m peer_env_scheme \<Rightarrow> jsval \<Rightarrow> unit peer_call" where
  "put_workspace_authority env authority =
     bind_s (run_tx env (\<lambda>s. Inr (authority_get s (js_text (workspace_of authority)), s))) (\<lambda>current.
     case (if js_truthy current then
             bind_r (merge_workspace_authority env current authority) (\<lambda>merged. Inr (canon_of env merged = canon_of env current))
           else bind_r (validate_authority env authority) (\<lambda>_. Inr False)) of
       Inl e \<Rightarrow> throw e
     | Inr unchanged \<Rightarrow> if unchanged then ret () else run_tx env (put_authority_if_newer env authority))"

definition get_workspace_authority :: "'m peer_env_scheme \<Rightarrow> jstring \<Rightarrow> jsval peer_call" where
  "get_workspace_authority env w =
     (if w = [] then throw InvalidWorkspaceId
      else bind_s (run_tx env (\<lambda>s. Inr (authority_get s w, s))) (\<lambda>authority.
        if js_truthy authority then (case validate_authority env authority of Inl e \<Rightarrow> throw e | Inr _ \<Rightarrow> ret authority)
        else
          bind_s (get_workspace_credential env w) (\<lambda>credential.
          if \<not> js_truthy credential then ret JNull
          else
            (case authority_from_credential env credential of
               Inl e \<Rightarrow> throw e
             | Inr migrated \<Rightarrow> bind_s (put_workspace_authority env migrated) (\<lambda>_. ret migrated)))))"

text \<open>\<open>getAll\<close> returns the records in the order of their keys.\<close>

definition get_all :: "('k \<times> jsval) list \<Rightarrow> ('k \<Rightarrow> 'k \<Rightarrow> bool) \<Rightarrow> jsval list" where
  "get_all store le = map snd (js_sort (\<lambda>a b. le (fst a) (fst b)) store)"

definition locale_sort :: "'m peer_env_scheme \<Rightarrow> (jsval \<Rightarrow> jstring) list \<Rightarrow> jsval list \<Rightarrow> jsval list" where
  "locale_sort env keys vs =
     js_sort (\<lambda>a b. (case find (\<lambda>d. d \<noteq> 0) (map (\<lambda>k. pe_locale env (k a) (k b)) keys) of None \<Rightarrow> True | Some d \<Rightarrow> d \<le> 0)) vs"

fun validate_all :: "(jsval \<Rightarrow> peer_error + unit) \<Rightarrow> jsval list \<Rightarrow> peer_error + unit" where
  "validate_all f [] = Inr ()"
| "validate_all f (v # vs) = bind_r (f v) (\<lambda>_. validate_all f vs)"

definition list_workspace_authorities :: "'m peer_env_scheme \<Rightarrow> jsval list peer_call" where
  "list_workspace_authorities env =
     bind_s (run_tx env (\<lambda>s. Inr (get_all (ps_authorities s) (\<le>), s))) (\<lambda>records.
     case validate_all (validate_authority env) records of
       Inl e \<Rightarrow> throw e
     | Inr _ \<Rightarrow> ret (locale_sort env [\<lambda>v. js_text (workspace_of v)] records))"

definition list_workspace_credentials :: "'m peer_env_scheme \<Rightarrow> jsval list peer_call" where
  "list_workspace_credentials env = run_tx env (\<lambda>s.
     let records = filter (\<lambda>r. starts_with credential_prefix (js_text (js_prop r (js ''key''))) \<and> js_truthy (credential_of r))
           (get_all (ps_nodes s) (\<le>))
     in bind_r (validate_all (validate_credential env) (map credential_of records)) (\<lambda>_.
        Inr (locale_sort env [\<lambda>v. js_text (workspace_of v)] (map credential_of records), s)))"

section \<open>Peers\<close>

abbreviation device_id :: "jsval \<Rightarrow> jsval" where
  "device_id v \<equiv> js_prop v (js ''deviceId'')"

definition peer_key :: "jsval \<Rightarrow> jstring \<times> jstring" where
  "peer_key peer = (js_text (workspace_of peer), js_text (device_id peer))"

definition peer_get :: "peer_store \<Rightarrow> jstring \<times> jstring \<Rightarrow> jsval" where
  "peer_get s k = (case map_of (ps_peers s) k of None \<Rightarrow> JUndef | Some p \<Rightarrow> p)"

definition peer_put :: "jsval \<Rightarrow> peer_store \<Rightarrow> peer_store" where
  "peer_put peer s = s\<lparr> ps_peers := AList.update (peer_key peer) peer (ps_peers s) \<rparr>"

definition peer_key_le :: "jstring \<times> jstring \<Rightarrow> jstring \<times> jstring \<Rightarrow> bool" where
  "peer_key_le a b \<longleftrightarrow> fst a < fst b \<or> (fst a = fst b \<and> snd a \<le> snd b)"

definition get_peer :: "'m peer_env_scheme \<Rightarrow> jstring \<Rightarrow> jstring \<Rightarrow> jsval peer_call" where
  "get_peer env w d =
     (if w = [] then throw InvalidWorkspaceId else if d = [] then throw InvalidDeviceId
      else run_tx env (\<lambda>s. Inr (js_or (peer_get s (w, d)) JNull, s)))"

definition merged_peer :: "'m peer_env_scheme \<Rightarrow> jsval \<Rightarrow> jsval \<Rightarrow> peer_error + jsval" where
  "merged_peer env current peer =
     (if js_truthy current then pe_merge_peers env current peer else Inr (js_spread peer))"

definition upsert_tx :: "'m peer_env_scheme \<Rightarrow> jsval \<Rightarrow> jsval tx" where
  "upsert_tx env peer s =
     (let current = peer_get s (peer_key peer) in
      bind_r (merged_peer env current peer) (\<lambda>merged.
      if js_truthy current \<and> canon_of env merged = canon_of env current then Inr (current, s)
      else Inr (merged, peer_put merged s)))"

definition upsert_peer :: "'m peer_env_scheme \<Rightarrow> jsval \<Rightarrow> jsval peer_call" where
  "upsert_peer env peer =
     (case validate_peer env peer of
        Inl e \<Rightarrow> throw e
      | Inr _ \<Rightarrow>
          bind_s (run_tx env (\<lambda>s. Inr (peer_get s (peer_key peer), s))) (\<lambda>existing.
          if js_truthy existing then
            (case pe_merge_peers env existing peer of
               Inl e \<Rightarrow> throw e
             | Inr merged \<Rightarrow>
                 if canon_of env merged = canon_of env existing then ret existing else run_tx env (upsert_tx env peer))
          else run_tx env (upsert_tx env peer)))"

fun merge_peers_loop :: "'m peer_env_scheme \<Rightarrow> jsval list \<Rightarrow> jsval list tx" where
  "merge_peers_loop env [] s = Inr ([], s)"
| "merge_peers_loop env (p # ps) s =
     bind_r (merged_peer env (peer_get s (peer_key p)) p) (\<lambda>merged.
     bind_r (merge_peers_loop env ps (peer_put merged s)) (\<lambda>(ms, s'). Inr (merged # ms, s')))"

definition merge_peers :: "'m peer_env_scheme \<Rightarrow> jsval list \<Rightarrow> jsval list peer_call" where
  "merge_peers env peers =
     (case validate_all (validate_peer env) peers of
        Inl e \<Rightarrow> throw e
      | Inr _ \<Rightarrow> if peers = [] then ret [] else run_tx env (merge_peers_loop env peers))"

definition workspace_peers :: "jstring \<Rightarrow> peer_store \<Rightarrow> ((jstring \<times> jstring) \<times> jsval) list" where
  "workspace_peers w s = filter (\<lambda>e. fst (fst e) = w) (ps_peers s)"

definition peer_order :: "'m peer_env_scheme \<Rightarrow> jsval \<Rightarrow> jsval \<Rightarrow> bool" where
  "peer_order env a b =
     (if workspace_of a \<noteq> workspace_of b then pe_locale env (js_text (workspace_of a)) (js_text (workspace_of b)) \<le> 0
      else pe_locale env (js_text (device_id a)) (js_text (device_id b)) \<le> 0)"

definition list_peers :: "'m peer_env_scheme \<Rightarrow> jstring option \<Rightarrow> jsval list peer_call" where
  "list_peers env workspace = run_tx env (\<lambda>s.
     case workspace of
       Some w \<Rightarrow> if w = [] then Inl InvalidWorkspaceId
         else Inr (js_sort (peer_order env) (get_all (workspace_peers w s) peer_key_le), s)
     | None \<Rightarrow> Inr (js_sort (peer_order env) (get_all (ps_peers s) peer_key_le), s))"

abbreviation instance_id :: "jsval \<Rightarrow> jsval" where
  "instance_id v \<equiv> js_prop v (js ''instanceId'')"

text \<open>The routes of a peer by instance id; the peer's own route fills in when it is missing.\<close>

definition peer_route :: "jsval \<Rightarrow> jsval" where
  "peer_route peer =
     JObj ([(js ''instanceId'', instance_id peer), (js ''endpoint'', js_prop peer (js ''endpoint'')),
       (js ''lastSeen'', js_prop peer (js ''lastSeen''))] @
       (if js_prop peer (js ''advertisement'') = JUndef then []
        else [(js ''advertisement'', js_prop peer (js ''advertisement''))]))"

definition listed_routes :: "jsval \<Rightarrow> (jstring \<times> jsval) list" where
  "listed_routes peer = fold (\<lambda>r. AList.update (js_text (instance_id r)) r) (js_list (js_prop peer (js ''instances''))) []"

definition device_replica :: "'m peer_env_scheme \<Rightarrow> jsval \<Rightarrow> jsval" where
  "device_replica env peer =
     (let listed = listed_routes peer; own = instance_id peer;
          routes = (if js_truthy own \<and> map_of listed (js_text own) = None
            then AList.update (js_text own) (peer_route peer) listed else listed)
      in JObj ([(js ''scopeId'', workspace_of peer), (js ''deviceId'', device_id peer),
           (js ''personId'', js_prop peer (js ''personId'')), (js ''role'', js_prop peer (js ''role''))] @
           (if js_prop peer (js ''revokedAt'') = JUndef then [] else [(js ''revokedAt'', js_prop peer (js ''revokedAt''))]) @
           [(js ''routes'', JArr (locale_sort env [\<lambda>v. js_text (instance_id v)] (map snd routes)))]))"

definition list_device_replicas :: "'m peer_env_scheme \<Rightarrow> jstring option \<Rightarrow> jsval list peer_call" where
  "list_device_replicas env workspace = bind_s (list_peers env workspace) (\<lambda>peers. ret (map (device_replica env) peers))"

definition peer_instances :: "jsval \<Rightarrow> jsval list" where
  "peer_instances peer =
     (let listed = listed_routes peer; own = instance_id peer;
          all_routes = (if js_truthy own then AList.update (js_text own)
            (JObj [(js ''instanceId'', own), (js ''endpoint'', js_prop peer (js ''endpoint'')),
              (js ''lastSeen'', js_prop peer (js ''lastSeen'')), (js ''advertisement'', js_prop peer (js ''advertisement''))]) listed
            else listed)
      in if all_routes = [] then [peer]
         else map (\<lambda>r. obj_set (js ''advertisement'') (js_prop r (js ''advertisement''))
           (obj_set (js ''lastSeen'') (js_prop r (js ''lastSeen''))
           (obj_set (js ''endpoint'') (js_prop r (js ''endpoint''))
           (obj_set (js ''instanceId'') (instance_id r) (js_spread peer))))) (map snd all_routes))"

definition list_peer_instances :: "'m peer_env_scheme \<Rightarrow> jstring option \<Rightarrow> jsval list peer_call" where
  "list_peer_instances env workspace =
     bind_s (list_peers env workspace) (\<lambda>peers.
     ret (locale_sort env [\<lambda>v. js_text (workspace_of v), \<lambda>v. js_text (device_id v), \<lambda>v. js_text (instance_id v)]
       (concat (map peer_instances peers))))"

section \<open>Removal\<close>

definition remove_peer :: "'m peer_env_scheme \<Rightarrow> jstring \<Rightarrow> jstring \<Rightarrow> bool peer_call" where
  "remove_peer env w d =
     (if w = [] then throw InvalidWorkspaceId else if d = [] then throw InvalidDeviceId
      else run_tx env (\<lambda>s.
        if \<not> js_truthy (peer_get s (w, d)) then Inr (False, s)
        else Inr (True, s\<lparr> ps_peers := AList.delete (w, d) (ps_peers s) \<rparr>)))"

definition delete_workspace_peers :: "jstring \<Rightarrow> peer_store \<Rightarrow> peer_store" where
  "delete_workspace_peers w s = s\<lparr> ps_peers := filter (\<lambda>e. fst (fst e) \<noteq> w) (ps_peers s) \<rparr>"

definition clear_peers :: "'m peer_env_scheme \<Rightarrow> jstring option \<Rightarrow> unit peer_call" where
  "clear_peers env workspace = run_tx env (\<lambda>s.
     case workspace of
       Some w \<Rightarrow> if w = [] then Inl InvalidWorkspaceId else Inr ((), delete_workspace_peers w s)
     | None \<Rightarrow> Inr ((), s\<lparr> ps_peers := [] \<rparr>))"

definition remove_workspace_mesh_data :: "'m peer_env_scheme \<Rightarrow> jstring \<Rightarrow> unit peer_call" where
  "remove_workspace_mesh_data env w =
     (if w = [] then throw InvalidWorkspaceId
      else run_tx env (\<lambda>s.
        let s1 = delete_workspace_peers w s; key = credential_prefix @ w; r = node_get s1 key in
        bind_r
          (if js_truthy r then
             bind_r (validate_credential env (credential_of r)) (\<lambda>_.
             bind_r (authority_from_credential env (credential_of r)) (\<lambda>authority.
             put_authority_if_newer env authority s1))
           else Inr ((), s1)) (\<lambda>(_, s2).
        Inr ((), node_delete (transfer_prefix @ w) (node_delete key s2)))))"

definition clear_all :: "'m peer_env_scheme \<Rightarrow> unit peer_call" where
  "clear_all env = run_tx env (\<lambda>s. Inr ((), s\<lparr> ps_peers := [], ps_nodes := [], ps_authorities := [] \<rparr>))"

end
