(* ===== verification/Peer_Safety.thy ===== *)
theory Peer_Safety
  imports Peer_Store
begin

text \<open>
  Theorems about the peer store: a failed operation changes nothing, the durable authority of a workspace outlives
  every operation but \<open>clearAll\<close> and its epoch never falls, removing a workspace's mesh data removes exactly its
  transport state, advertisement sequences grow, the node secret is stable, and merging credentials never loses
  security records.
\<close>

section \<open>Operations\<close>

datatype peer_op =
    SetNodeSecret jsval | GetNodeSecret | CreateNodeSecret | CreateInstanceSecret jstring | NextSequence jstring
  | GetCredential jstring | ReadAuthorization "jstring list" | PutCredential jsval
  | ReplaceGeneration jstring jstring "jsval list" "jsval list"
  | GetTransfer jstring | PutTransfer jsval | TransferCredential jstring jsval jsval
  | GetAuthority jstring | PutAuthority jsval | ListAuthorities | ListCredentials
  | GetPeer jstring jstring | UpsertPeer jsval | MergePeers "jsval list" | ListPeers "jstring option"
  | ListReplicas "jstring option" | ListInstances "jstring option" | RemovePeer jstring jstring
  | ClearPeers "jstring option" | RemoveMeshData jstring | ClearAll | Close

definition forget :: "'a peer_call \<Rightarrow> unit peer_call" where
  "forget m = bind_s m (\<lambda>_. ret ())"

fun peer_run :: "'m peer_env_scheme \<Rightarrow> peer_op \<Rightarrow> unit peer_call" where
  "peer_run env (SetNodeSecret v) = set_node_secret env v"
| "peer_run env GetNodeSecret = forget (get_node_secret env)"
| "peer_run env CreateNodeSecret = forget (get_or_create_node_secret env)"
| "peer_run env (CreateInstanceSecret i) = forget (get_or_create_instance_secret env i)"
| "peer_run env (NextSequence i) = forget (next_sequence env i)"
| "peer_run env (GetCredential w) = forget (get_workspace_credential env w)"
| "peer_run env (ReadAuthorization ws) = forget (read_workspace_authorization env ws)"
| "peer_run env (PutCredential v) = put_workspace_credential env v"
| "peer_run env (ReplaceGeneration w p e r) = forget (replace_revocation_generation env w p e r)"
| "peer_run env (GetTransfer w) = forget (get_pending_transfer env w)"
| "peer_run env (PutTransfer v) = put_pending_transfer env v"
| "peer_run env (TransferCredential w v sn) = transfer_workspace_credential env w v sn"
| "peer_run env (GetAuthority w) = forget (get_workspace_authority env w)"
| "peer_run env (PutAuthority v) = put_workspace_authority env v"
| "peer_run env ListAuthorities = forget (list_workspace_authorities env)"
| "peer_run env ListCredentials = forget (list_workspace_credentials env)"
| "peer_run env (GetPeer w d) = forget (get_peer env w d)"
| "peer_run env (UpsertPeer v) = forget (upsert_peer env v)"
| "peer_run env (MergePeers vs) = forget (merge_peers env vs)"
| "peer_run env (ListPeers w) = forget (list_peers env w)"
| "peer_run env (ListReplicas w) = forget (list_device_replicas env w)"
| "peer_run env (ListInstances w) = forget (list_peer_instances env w)"
| "peer_run env (RemovePeer w d) = forget (remove_peer env w d)"
| "peer_run env (ClearPeers w) = clear_peers env w"
| "peer_run env (RemoveMeshData w) = remove_workspace_mesh_data env w"
| "peer_run env ClearAll = clear_all env"
| "peer_run env Close = disconnect"

text \<open>The contents of the three object stores; the connection is not part of them.\<close>

type_synonym contents = "((jstring \<times> jstring) \<times> jsval) list \<times> (jstring \<times> jsval) list \<times> (jstring \<times> jsval) list"

definition stores :: "peer_store \<Rightarrow> contents" where
  "stores s = (ps_peers s, ps_nodes s, ps_authorities s)"

text \<open>A call is within a relation on contents when it fails without a change and otherwise changes nothing or commits
  a change in the relation.\<close>

definition outcome_in :: "(contents \<Rightarrow> contents \<Rightarrow> bool) \<Rightarrow> contents \<Rightarrow> (peer_error + 'a) \<times> peer_store \<Rightarrow> bool" where
  "outcome_in R c p =
     (case p of (Inl e, s') \<Rightarrow> stores s' = c | (Inr x, s') \<Rightarrow> stores s' = c \<or> R c (stores s'))"

definition stores_call :: "(contents \<Rightarrow> contents \<Rightarrow> bool) \<Rightarrow> 'a peer_call \<Rightarrow> bool" where
  "stores_call R m \<longleftrightarrow> (\<forall>s. outcome_in R (stores s) (m s))"

definition tx_in :: "(contents \<Rightarrow> contents \<Rightarrow> bool) \<Rightarrow> 'a tx \<Rightarrow> bool" where
  "tx_in R body \<longleftrightarrow> (\<forall>s x s'. body s = Inr (x, s') \<longrightarrow> stores s' = stores s \<or> R (stores s) (stores s'))"

definition reads :: "'a peer_call \<Rightarrow> bool" where
  "reads m \<longleftrightarrow> (\<forall>s. stores (snd (m s)) = stores s)"

named_theorems store_intros

lemma stores_connected [simp]: "stores (s\<lparr> ps_connected := b \<rparr>) = stores s"
  by (simp add: stores_def)

lemma get_db_stores: "get_db env s = Inr s1 \<Longrightarrow> stores s1 = stores s"
  by (auto simp: get_db_def split: if_splits option.splits)

lemma run_tx_stores [store_intros]: "tx_in R body \<Longrightarrow> stores_call R (run_tx env body)"
  by (auto simp: stores_call_def outcome_in_def run_tx_def tx_in_def dest: get_db_stores split: sum.splits option.splits)
    (metis get_db_stores)

lemma reads_run_tx: "(\<And>s x s'. body s = Inr (x, s') \<Longrightarrow> s' = s) \<Longrightarrow> reads (run_tx env body)"
  by (auto simp: reads_def run_tx_def get_db_stores split: sum.splits option.splits) (metis get_db_stores)

lemma stores_call_ret [store_intros]: "stores_call R (ret x)" "stores_call R (throw e)" "stores_call R disconnect"
  by (simp_all add: stores_call_def outcome_in_def ret_def throw_def disconnect_def)

lemma reads_ret: "reads (ret x)" "reads (throw e)"
  by (simp_all add: reads_def ret_def throw_def)

lemma stores_call_bind [store_intros]:
  assumes "reads m" "\<And>x. stores_call R (f x)"
  shows "stores_call R (bind_s m f)"
  unfolding stores_call_def
proof
  fix s
  obtain r s1 where m: "m s = (r, s1)" by fastforce
  with assms(1) have s1: "stores s1 = stores s" unfolding reads_def by (metis snd_conv)
  show "outcome_in R (stores s) (bind_s m f s)"
  proof (cases r)
    case (Inr x)
    then show ?thesis using assms(2) [of x, unfolded stores_call_def, rule_format, of s1] by (simp add: bind_s_def m s1)
  qed (simp add: bind_s_def m s1 outcome_in_def)
qed

lemma reads_bind: "reads m \<Longrightarrow> (\<And>x. reads (f x)) \<Longrightarrow> reads (bind_s m f)"
  by (auto simp: reads_def bind_s_def split: prod.splits sum.splits) (metis snd_conv)+

lemma outcome_in_forget: "outcome_in R c (m s) \<Longrightarrow> outcome_in R c (forget m s)"
  by (cases "m s"; cases "fst (m s)") (auto simp: forget_def bind_s_def ret_def outcome_in_def)

lemma stores_call_forget [store_intros]: "stores_call R m \<Longrightarrow> stores_call R (forget m)"
  by (simp add: stores_call_def outcome_in_forget)

lemma outcome_in_same: "stores (snd p) = c \<Longrightarrow> outcome_in R c p"
  by (cases p; cases "fst p") (auto simp: outcome_in_def)

lemma reads_stores_call: "reads m \<Longrightarrow> stores_call R m"
  by (simp add: reads_def stores_call_def outcome_in_same)

section \<open>The authority store\<close>

abbreviation epoch_of :: "jsval \<Rightarrow> int" where
  "epoch_of v \<equiv> js_int (js_prop v (js ''epoch''))"

definition keyed :: "(jstring \<times> jsval) list \<Rightarrow> bool" where
  "keyed A \<longleftrightarrow> (\<forall>w a. map_of A w = Some a \<longrightarrow> workspace_of a = JStr w)"

definition grows :: "(jstring \<times> jsval) list \<Rightarrow> (jstring \<times> jsval) list \<Rightarrow> bool" where
  "grows A B \<longleftrightarrow> (keyed A \<longrightarrow> keyed B \<and>
     (\<forall>w a. map_of A w = Some a \<longrightarrow> (\<exists>b. map_of B w = Some b \<and> epoch_of a \<le> epoch_of b)))"

lemma grows_refl [simp]: "grows A A"
  by (auto simp: grows_def)

lemma grows_trans: "grows A B \<Longrightarrow> grows B C \<Longrightarrow> grows A C"
  unfolding grows_def by (meson order_trans)

lemma short_text_JStr: "short_text v n \<Longrightarrow> v = JStr (js_text v)"
  by (cases v) simp_all

lemma validate_authority_workspace: "validate_authority env a = Inr u \<Longrightarrow> workspace_of a = JStr (js_text (workspace_of a))"
  by (auto simp: validate_authority_def valid_authority_def split: if_splits dest: short_text_JStr)

lemma union_keys_obj: "union_keys env removed l r ks c = Inr d \<Longrightarrow> is_obj c \<Longrightarrow> is_obj d"
  by (induction ks arbitrary: c) (auto split: if_splits elim!: bind_r_InrE)

lemma if_Inl_eq_Inr: "(if b then Inl e else Inr x) = Inr y \<longleftrightarrow> \<not> b \<and> y = x"
  by auto

lemma if_Inl_eq_Inr': "(if b then Inl e else t) = Inr y \<longleftrightarrow> \<not> b \<and> t = Inr y"
  by auto

lemma set_or_del_props:
  assumes "m' = (if b then obj_set k v m else obj_del k m)" "is_obj m" "k \<noteq> js ''epoch''" "k \<noteq> js ''workspaceId''"
  shows "is_obj m' \<and> js_prop m' (js ''epoch'') = js_prop m (js ''epoch'') \<and> workspace_of m' = workspace_of m"
  using assms by auto

lemma merged_history_props:
  assumes "merged_history c i v m = Inr m'" "is_obj m"
  shows "is_obj m' \<and> js_prop m' (js ''epoch'') = js_prop m (js ''epoch'') \<and> workspace_of m' = workspace_of m"
  by (rule set_or_del_props [OF conjunct2 [OF assms(1) [unfolded merged_history_def Let_def if_Inl_eq_Inr]] assms(2)])
    simp_all

lemma merged_catalog_props:
  assumes "merged_catalog env c i p m = Inr m'" "is_obj m"
  shows "is_obj m' \<and> js_prop m' (js ''epoch'') = js_prop m (js ''epoch'') \<and> workspace_of m' = workspace_of m"
  using assms(1) unfolding merged_catalog_def Let_def
  by (elim bind_r_InrE) (drule sum.inject(2) [THEN iffD1], drule sym, erule set_or_del_props [OF _ assms(2)], simp_all)

lemma merged_grant_props:
  "is_obj m \<Longrightarrow> is_obj (merged_grant c i m) \<and> js_prop (merged_grant c i m) (js ''epoch'') = js_prop m (js ''epoch'') \<and>
     workspace_of (merged_grant c i m) = workspace_of m"
  by (simp add: merged_grant_def Let_def)

lemma preferred_projection_cases: "preferred_projection env c i k \<in> {c, i}"
  by (auto simp: preferred_projection_def Let_def split: option.splits dest!: find_Some_iff [THEN iffD1] nth_mem)

lemma js_prop_spread: "js_truthy v \<Longrightarrow> js_prop v k = JStr w \<Longrightarrow> js_prop (js_spread v) k = JStr w"
  by (cases v) (simp_all add: js_spread_def)

lemma validate_authority_truthy: "validate_authority env a = Inr u \<Longrightarrow> js_truthy a"
  by (simp add: validate_authority_def valid_authority_def split: if_splits)

lemma owned_props:
  assumes "(case v of None \<Rightarrow> Inr (obj_set (js ''genesisOwnerPersonId'') x base)
     | Some (creator, controller) \<Rightarrow> bind_r (f controller) (\<lambda>cs. Inr (obj_set (js ''ownerCertificates'') (JArr cs)
         (obj_set (js ''ownerPublicKey'') (JStr (so_key controller)) (obj_set (js ''ownerPersonId'') (JStr (so_person controller))
         (obj_set (js ''genesisOwnerPersonId'') (JStr (so_person creator)) base)))))) = Inr owned"
    and "is_obj base"
  shows "is_obj owned \<and> js_prop owned (js ''epoch'') = js_prop base (js ''epoch'') \<and> workspace_of owned = workspace_of base"
  using assms by (auto split: option.splits prod.splits elim!: bind_r_InrE)

lemma merge_workspace_authority_cases:
  assumes "merge_workspace_authority env c i = Inr m"
  obtains base owned with_history with_catalog p sn up where
    "validate_authority env i = Inr ()" "validate_authority env c = Inr ()"
    "base = obj_set (js ''scopeAuthoritySnapshot'') sn (obj_set (js ''updatedAt'') up
      (obj_set (js ''epoch'') (JNum (max (epoch_of c) (epoch_of i))) (js_spread p)))"
    "p \<in> {c, i}"
    "is_obj owned \<and> js_prop owned (js ''epoch'') = js_prop base (js ''epoch'') \<and> workspace_of owned = workspace_of base"
    "\<exists>v. merged_history c i v owned = Inr with_history"
    "\<exists>q. merged_catalog env c i q with_history = Inr with_catalog" "m = merged_grant c i with_catalog"
  using assms unfolding merge_workspace_authority_def Let_def bind_r_eq_Inr if_Inl_eq_Inr'
proof (elim exE conjE, goal_cases)
  case (1 u1 u2 sn v owned h k)
  have h: "\<exists>v. merged_history c i v owned = Inr h" and k: "\<exists>q. merged_catalog env c i q h = Inr k" using 1(8,9) by blast+
  show ?case
    by (rule 1(1) [OF _ _ refl preferred_projection_cases owned_props [OF 1(7)] h k]) (use 1(2,3,10) in simp_all)
qed

lemma merge_workspace_authority_props:
  assumes "merge_workspace_authority env c i = Inr m"
    and "workspace_of c = JStr w" "workspace_of i = JStr w"
  shows "epoch_of m = max (epoch_of c) (epoch_of i) \<and> workspace_of m = JStr w"
proof -
  from assms(1) obtain base owned with_history with_catalog p sn up where
    valid: "validate_authority env i = Inr ()" "validate_authority env c = Inr ()"
    and base: "base = obj_set (js ''scopeAuthoritySnapshot'') sn (obj_set (js ''updatedAt'') up
      (obj_set (js ''epoch'') (JNum (max (epoch_of c) (epoch_of i))) (js_spread p)))"
    and p: "p \<in> {c, i}"
    and owned: "is_obj owned \<and> js_prop owned (js ''epoch'') = js_prop base (js ''epoch'') \<and> workspace_of owned = workspace_of base"
    and h: "\<exists>v. merged_history c i v owned = Inr with_history"
    and k: "\<exists>q. merged_catalog env c i q with_history = Inr with_catalog" and m: "m = merged_grant c i with_catalog"
    by (rule merge_workspace_authority_cases)
  have "is_obj with_history \<and> js_prop with_history (js ''epoch'') = js_prop owned (js ''epoch'') \<and>
      workspace_of with_history = workspace_of owned"
    using h owned merged_history_props by blast
  moreover from this k have "is_obj with_catalog \<and> js_prop with_catalog (js ''epoch'') = js_prop with_history (js ''epoch'') \<and>
      workspace_of with_catalog = workspace_of with_history"
    using merged_catalog_props by blast
  moreover have "workspace_of (js_spread p) = JStr w"
    using p assms(2,3) valid [THEN validate_authority_truthy] by (auto intro: js_prop_spread)
  ultimately show ?thesis using owned merged_grant_props [of with_catalog c i] by (simp add: m base)
qed

lemma grows_put:
  assumes "workspace_of a = JStr w" "map_of A w = None \<or> (\<exists>c. map_of A w = Some c \<and> epoch_of c \<le> epoch_of a)"
  shows "grows A (AList.update w a A)"
  using assms by (auto simp: grows_def keyed_def update_conv')

lemma grows_unless_keyed: "(keyed A \<Longrightarrow> grows A B) \<Longrightarrow> grows A B"
  by (auto simp: grows_def)

lemma put_authority_grows:
  assumes "put_authority_if_newer env a s = Inr (u, s')"
  shows "ps_peers s' = ps_peers s \<and> ps_nodes s' = ps_nodes s \<and> grows (ps_authorities s) (ps_authorities s') \<and>
    map_of (ps_authorities s') (js_text (workspace_of a)) \<noteq> None"
proof (cases "map_of (ps_authorities s) (js_text (workspace_of a))")
  case None
  with assms have v: "validate_authority env a = Inr ()" and s': "s' = authority_put a s"
    by (auto simp: put_authority_if_newer_def elim!: bind_r_InrE)
  from validate_authority_workspace [OF v] obtain w where w: "workspace_of a = JStr w" by blast
  with None show ?thesis using grows_put [OF w, of "ps_authorities s"] by (simp add: s' authority_put_def update_conv')
next
  case (Some c)
  with assms obtain m where m: "merge_workspace_authority env c a = Inr m" "s' = s \<or> s' = authority_put m s"
    by (auto simp: put_authority_if_newer_def elim!: bind_r_InrE split: if_splits)
  have "\<exists>w. workspace_of a = JStr w"
    by (rule merge_workspace_authority_cases [OF m(1)]) (blast dest: validate_authority_workspace)
  then obtain w where w: "workspace_of a = JStr w" ..
  have "grows (ps_authorities s) (AList.update (js_text (workspace_of m)) m (ps_authorities s))"
  proof (rule grows_unless_keyed)
    assume "keyed (ps_authorities s)"
    then have m': "workspace_of m = JStr w" "epoch_of c \<le> epoch_of m"
      using merge_workspace_authority_props [OF m(1) _ w] Some w by (simp_all add: keyed_def)
    show "grows (ps_authorities s) (AList.update (js_text (workspace_of m)) m (ps_authorities s))"
      using grows_put [OF m'(1), of "ps_authorities s"] Some w m' by simp
  qed
  then show ?thesis using m(2) Some by (auto simp: authority_put_def update_conv')
qed

section \<open>The node store\<close>

definition record_at :: "(jstring \<times> jsval) list \<Rightarrow> jstring \<Rightarrow> jsval" where
  "record_at M k = (case map_of M k of None \<Rightarrow> JUndef | Some r \<Rightarrow> r)"

definition sequence_at :: "(jstring \<times> jsval) list \<Rightarrow> jstring \<Rightarrow> jsval" where
  "sequence_at M i = js_prop (record_at M (sequence_prefix @ i)) (js ''sequence'')"

definition nodes_step :: "bool \<Rightarrow> (jstring \<times> jsval) list \<Rightarrow> (jstring \<times> jsval) list \<Rightarrow> bool" where
  "nodes_step b M N \<longleftrightarrow>
     (\<forall>i n. sequence_at M i = JNum n \<longrightarrow> is_safe_integer n \<longrightarrow> sequence_at N i = JNum n \<or> sequence_at N i = JNum (n + 1)) \<and>
     (b \<longrightarrow> (\<forall>bs. secret_of (record_at M node_secret_key) = JBytes bs \<longrightarrow> length bs = 32 \<longrightarrow>
        secret_of (record_at N node_secret_key) = JBytes bs))"

definition nodes_same :: "(jstring \<times> jsval) list \<Rightarrow> (jstring \<times> jsval) list \<Rightarrow> bool" where
  "nodes_same M N \<longleftrightarrow> map_of N node_secret_key = map_of M node_secret_key \<and>
     (\<forall>i. map_of N (sequence_prefix @ i) = map_of M (sequence_prefix @ i))"

definition store_step :: "bool \<Rightarrow> contents \<Rightarrow> contents \<Rightarrow> bool" where
  "store_step b c c' \<longleftrightarrow> nodes_step b (fst (snd c)) (fst (snd c')) \<and> grows (snd (snd c)) (snd (snd c'))"

lemma node_get_record_at: "node_get s k = record_at (ps_nodes s) k"
  by (simp add: node_get_def record_at_def)

lemma nodes_same_step: "nodes_same M N \<Longrightarrow> nodes_step b M N"
  by (simp add: nodes_same_def nodes_step_def sequence_at_def record_at_def)

lemma key_prefixes [simp]:
  "credential_prefix @ w \<noteq> node_secret_key" "transfer_prefix @ w \<noteq> node_secret_key"
  "js ''instance:'' @ w \<noteq> node_secret_key" "sequence_prefix @ w \<noteq> node_secret_key"
  "credential_prefix @ w \<noteq> sequence_prefix @ i" "transfer_prefix @ w \<noteq> sequence_prefix @ i"
  "js ''instance:'' @ w \<noteq> sequence_prefix @ i" "node_secret_key \<noteq> sequence_prefix @ i"
  "credential_prefix @ w \<noteq> transfer_prefix @ i"
  by (simp_all add: credential_prefix_def transfer_prefix_def sequence_prefix_def node_secret_key_def js_def)

lemmas key_prefixes' [simp] = key_prefixes [THEN not_sym]

lemma nodes_same_put:
  "k \<noteq> node_secret_key \<Longrightarrow> (\<And>i. k \<noteq> sequence_prefix @ i) \<Longrightarrow> nodes_same (ps_nodes s) (ps_nodes (node_put k ps s))"
  by (auto simp: nodes_same_def node_put_def update_conv')

lemma nodes_same_delete:
  "k \<noteq> node_secret_key \<Longrightarrow> (\<And>i. k \<noteq> sequence_prefix @ i) \<Longrightarrow> nodes_same (ps_nodes s) (ps_nodes (node_delete k s))"
  by (auto simp: nodes_same_def node_delete_def delete_conv')

lemma nodes_same_trans: "nodes_same L M \<Longrightarrow> nodes_same M N \<Longrightarrow> nodes_same L N"
  by (simp add: nodes_same_def)

lemma nodes_same_refl [simp]: "nodes_same M M"
  by (simp add: nodes_same_def)

lemma store_step_same:
  "nodes_same (ps_nodes s) (ps_nodes s') \<Longrightarrow> grows (ps_authorities s) (ps_authorities s') \<Longrightarrow> store_step b (stores s) (stores s')"
  by (simp add: store_step_def stores_def nodes_same_step)

lemma node_put_simps [simp]:
  "ps_authorities (node_put k ps s) = ps_authorities s" "ps_authorities (node_delete k s) = ps_authorities s"
  "ps_peers (node_put k ps s) = ps_peers s" "ps_peers (node_delete k s) = ps_peers s"
  "ps_authorities (peer_put p s) = ps_authorities s" "ps_nodes (peer_put p s) = ps_nodes s"
  "ps_authorities (delete_workspace_peers w s) = ps_authorities s" "ps_nodes (delete_workspace_peers w s) = ps_nodes s"
  by (simp_all add: node_put_def node_delete_def peer_put_def delete_workspace_peers_def)

section \<open>Every operation\<close>

lemma tx_in_same:
  assumes "\<And>s x s'. body s = Inr (x, s') \<Longrightarrow>
    nodes_same (ps_nodes s) (ps_nodes s') \<and> grows (ps_authorities s) (ps_authorities s')"
  shows "tx_in (store_step b) body"
  using assms store_step_same unfolding tx_in_def by blast

lemma credential_tx:
  assumes "put_authority_if_newer env a (put_credential_record (credential_prefix @ w) c s) = Inr (u, s')"
  shows "nodes_same (ps_nodes s) (ps_nodes s') \<and> grows (ps_authorities s) (ps_authorities s')"
  using put_authority_grows [OF assms] by (simp add: put_credential_record_def nodes_same_put)

lemma put_credential_step: "stores_call (store_step b) (put_workspace_credential env c)"
  unfolding put_workspace_credential_def Let_def
  by (cases "validate_credential env c")
    (auto intro!: stores_call_ret run_tx_stores tx_in_same dest: credential_tx elim!: bind_r_InrE)

lemma replace_generation_step: "stores_call (store_step b) (replace_revocation_generation env w p e r)"
  unfolding replace_revocation_generation_def Let_def
  by (auto intro!: stores_call_ret run_tx_stores tx_in_same dest!: credential_tx elim!: bind_r_InrE split: if_splits)

lemma put_transfer_step: "stores_call (store_step b) (put_pending_transfer env v)"
  unfolding put_pending_transfer_def Let_def
  by (cases "validate_transfer env v None")
    (auto intro!: stores_call_ret run_tx_stores tx_in_same nodes_same_put elim!: bind_r_InrE split: if_splits)

lemma transfer_credential_step: "stores_call (store_step b) (transfer_workspace_credential env w v sn)"
  unfolding transfer_workspace_credential_def Let_def
  by (cases "validate_credential env v")
    (auto intro!: stores_call_ret run_tx_stores tx_in_same dest!: credential_tx
      elim!: bind_r_InrE nodes_same_trans [OF _ nodes_same_delete] split: if_splits)

lemma reads_get_authority: "reads (run_tx env (\<lambda>s. Inr (authority_get s w, s)))"
  by (rule reads_run_tx) simp

lemma put_authority_step: "stores_call (store_step b) (put_workspace_authority env a)"
  unfolding put_workspace_authority_def
  by (intro stores_call_bind reads_get_authority)
    (auto intro!: stores_call_ret run_tx_stores tx_in_same split: sum.splits dest: put_authority_grows)

lemma reads_get_credential: "reads (get_workspace_credential env w)"
  unfolding get_workspace_credential_def Let_def
  by (auto intro!: reads_run_tx reads_ret elim!: bind_r_InrE split: if_splits)

lemma stores_call_then_ret: "stores_call R m \<Longrightarrow> stores_call R (bind_s m (\<lambda>x. ret (f x)))"
  unfolding stores_call_def
proof
  fix s
  assume m: "\<forall>s. outcome_in R (stores s) (m s)"
  then show "outcome_in R (stores s) (bind_s m (\<lambda>x. ret (f x)) s)"
    using m [rule_format, of s] by (cases "m s"; cases "fst (m s)") (auto simp: bind_s_def ret_def outcome_in_def)
qed

lemma get_authority_step: "stores_call (store_step b) (get_workspace_authority env w)"
  unfolding get_workspace_authority_def
  by (auto intro!: stores_call_ret stores_call_bind reads_get_authority reads_get_credential
      stores_call_then_ret put_authority_step split: sum.splits)

lemma upsert_tx_step: "tx_in (store_step b) (upsert_tx env v)"
  by (rule tx_in_same) (auto simp: upsert_tx_def Let_def elim!: bind_r_InrE split: if_splits)

lemma upsert_peer_step: "stores_call (store_step b) (upsert_peer env v)"
  unfolding upsert_peer_def
  by (auto intro!: stores_call_ret stores_call_bind reads_run_tx run_tx_stores upsert_tx_step split: sum.splits)

lemma merge_peers_loop_same: "merge_peers_loop env ps s = Inr (ms, s') \<Longrightarrow>
  ps_nodes s' = ps_nodes s \<and> ps_authorities s' = ps_authorities s"
  by (induction ps arbitrary: s ms) (auto elim!: bind_r_InrE)

lemma merge_peers_step: "stores_call (store_step b) (merge_peers env vs)"
  unfolding merge_peers_def
  by (auto intro!: stores_call_ret run_tx_stores tx_in_same dest: merge_peers_loop_same split: sum.splits)

lemma removed_keys_same: "ps_nodes t = ps_nodes s \<Longrightarrow>
  nodes_same (ps_nodes s) (ps_nodes (node_delete (transfer_prefix @ w) (node_delete (credential_prefix @ w) t)))"
  by (rule nodes_same_trans [of _ "ps_nodes (node_delete (credential_prefix @ w) t)"])
    (use nodes_same_delete [of "credential_prefix @ w" t] in \<open>simp_all add: nodes_same_delete\<close>)

lemma remove_mesh_data_step: "stores_call (store_step b) (remove_workspace_mesh_data env w)"
  unfolding remove_workspace_mesh_data_def Let_def
  by (auto intro!: stores_call_ret run_tx_stores tx_in_same removed_keys_same
      dest!: put_authority_grows elim!: bind_r_InrE split: if_splits)

lemma named_secret_step:
  assumes "\<And>i. key \<noteq> sequence_prefix @ i" "key = node_secret_key \<Longrightarrow> fallback = None"
  shows "stores_call (store_step b) (named_node_secret env key fallback)"
  unfolding named_node_secret_def
proof (intro stores_call_bind)
  show "reads (run_tx env (read_named_secret key fallback))"
    by (rule reads_run_tx) (auto simp: read_named_secret_def Let_def elim!: bind_r_InrE split: if_splits)
  have "tx_in (store_step b) (write_named_secret env key fallback)"
    unfolding tx_in_def
  proof (intro allI impI)
    fix s x s'
    assume w: "write_named_secret env key fallback s = Inr (x, s')"
    then consider "s' = s" | ps where "s' = node_put key ps s" "fallback \<noteq> None \<or> \<not> js_truthy (secret_of (node_get s key))"
      by (auto simp: write_named_secret_def Let_def elim!: bind_r_InrE split: if_splits option.splits)
    then show "stores s' = stores s \<or> store_step b (stores s) (stores s')"
    proof cases
      case (2 ps)
      then have "nodes_step b (ps_nodes s) (ps_nodes s')" using assms
        by (auto simp: nodes_step_def sequence_at_def record_at_def node_put_def update_conv' node_get_record_at)
      then show ?thesis using 2 by (simp add: store_step_def stores_def)
    qed simp
  qed
  then show "stores_call (store_step b) (case x of Some bs \<Rightarrow> ret bs | None \<Rightarrow> run_tx env (write_named_secret env key fallback))"
    for x by (auto intro!: stores_call_ret run_tx_stores split: option.splits)
qed

definition next_value :: "jsval \<Rightarrow> int" where
  "next_value old = (if js_safe old then js_int old + 1 else 1)"

lemma next_sequence_tx:
  "next_sequence env i = (if \<not> valid_instance_id i then throw InvalidInstanceId else run_tx env (\<lambda>s.
     Inr (next_value (sequence_at (ps_nodes s) i), node_put (sequence_prefix @ i)
       [(js ''sequence'', JNum (next_value (sequence_at (ps_nodes s) i))), (js ''updatedAt'', JStr (pe_now_text env))] s)))"
  by (simp add: next_sequence_def sequence_at_def node_get_record_at next_value_def Let_def)

lemma sequence_put:
  "nodes_step b (ps_nodes s) (ps_nodes (node_put (sequence_prefix @ i)
     [(js ''sequence'', JNum (next_value (sequence_at (ps_nodes s) i))), (js ''updatedAt'', t)] s))"
  by (auto simp: nodes_step_def sequence_at_def record_at_def node_put_def update_conv' next_value_def)

lemma next_sequence_step: "stores_call (store_step b) (next_sequence env i)"
  by (auto simp: next_sequence_tx tx_in_def store_step_def stores_def sequence_put intro!: stores_call_ret run_tx_stores)

lemma read_steps:
  "stores_call R (get_node_secret env)" "stores_call R (get_workspace_credential env w)"
  "stores_call R (read_workspace_authorization env ws)" "stores_call R (get_pending_transfer env w)"
  "stores_call R (list_workspace_authorities env)" "stores_call R (list_workspace_credentials env)"
  "stores_call R (get_peer env w d)"
  unfolding get_node_secret_def get_workspace_credential_def read_workspace_authorization_def get_pending_transfer_def
    list_workspace_authorities_def list_workspace_credentials_def get_peer_def Let_def
  by (auto intro!: reads_stores_call reads_run_tx reads_ret reads_bind elim!: bind_r_InrE split: if_splits sum.splits)

lemma reads_list_peers: "reads (list_peers env w)"
  unfolding list_peers_def by (rule reads_run_tx) (auto split: option.splits if_splits)

lemma list_steps:
  "stores_call R (list_peers env o')" "stores_call R (list_device_replicas env o')" "stores_call R (list_peer_instances env o')"
  unfolding list_device_replicas_def list_peer_instances_def
  by (auto intro!: reads_stores_call reads_list_peers reads_ret reads_bind)

lemma peers_only_steps:
  "stores_call (store_step b) (remove_peer env w d)" "stores_call (store_step b) (clear_peers env o')"
  unfolding remove_peer_def clear_peers_def
  by (auto intro!: stores_call_ret run_tx_stores tx_in_same split: option.splits if_splits)

lemma set_secret_step: "stores_call (store_step False) (set_node_secret env v)"
proof -
  have "nodes_step False (ps_nodes s) (ps_nodes (node_put node_secret_key ps s))" for s ps
    by (simp add: nodes_step_def sequence_at_def record_at_def node_put_def update_conv')
  then show ?thesis unfolding set_node_secret_def
    by (auto simp: tx_in_def store_step_def stores_def intro!: stores_call_ret run_tx_stores split: sum.splits)
qed

lemma secret_steps:
  "stores_call (store_step b) (get_or_create_node_secret env)" "stores_call (store_step b) (get_or_create_instance_secret env i)"
  unfolding get_or_create_node_secret_def get_or_create_instance_secret_def
  by (auto intro!: stores_call_ret named_secret_step)

lemmas operation_steps = put_credential_step replace_generation_step put_transfer_step transfer_credential_step put_authority_step
  get_authority_step upsert_peer_step merge_peers_step remove_mesh_data_step next_sequence_step read_steps list_steps
  peers_only_steps secret_steps stores_call_ret

lemma peer_run_step: "op \<noteq> ClearAll \<Longrightarrow> stores_call (store_step (\<nexists>v. op = SetNodeSecret v)) (peer_run env op)"
  by (cases op) (simp_all add: operation_steps set_secret_step stores_call_forget)

lemma clear_all_step: "stores_call (\<lambda>c c'. snd (snd c') = []) (clear_all env)"
  unfolding clear_all_def by (auto simp: tx_in_def stores_def intro!: run_tx_stores)

section \<open>Histories\<close>

text \<open>Each operation of a history runs with its own clock, randomness and storage faults.\<close>

fun peer_runs :: "('m peer_env_scheme \<times> peer_op) list \<Rightarrow> peer_store \<Rightarrow> peer_store" where
  "peer_runs [] s = s"
| "peer_runs ((env, op) # rest) s = peer_runs rest (snd (peer_run env op s))"

lemma peer_runs_append: "peer_runs (as @ bs) s = peer_runs bs (peer_runs as s)"
  by (induction as s rule: peer_runs.induct) simp_all

lemma stores_call_snd: "stores_call R m \<Longrightarrow> stores (snd (m s)) = stores s \<or> R (stores s) (stores (snd (m s)))"
  by (cases "m s"; cases "fst (m s)") (auto simp: stores_call_def outcome_in_def dest!: spec [of _ s])

lemma peer_run_grows: "op \<noteq> ClearAll \<Longrightarrow> grows (ps_authorities s) (ps_authorities (snd (peer_run env op s)))"
  using stores_call_snd [OF peer_run_step [of op env], of s] by (auto simp: store_step_def stores_def)

lemma peer_run_keyed: "keyed (ps_authorities s) \<Longrightarrow> keyed (ps_authorities (snd (peer_run env op s)))"
  using peer_run_grows [of op s env] stores_call_snd [OF clear_all_step [of env], of s]
  by (cases "op = ClearAll") (auto simp: grows_def stores_def keyed_def)

lemma peer_runs_keyed: "keyed (ps_authorities s) \<Longrightarrow> keyed (ps_authorities (peer_runs ops s))"
  by (induction ops s rule: peer_runs.induct) (simp_all add: peer_run_keyed)

lemma peer_runs_grows: "ClearAll \<notin> snd ` set ops \<Longrightarrow> grows (ps_authorities s) (ps_authorities (peer_runs ops s))"
  by (induction ops s rule: peer_runs.induct) (auto intro: grows_trans [OF peer_run_grows [OF not_sym]])

lemma sequence_run:
  assumes "op \<noteq> ClearAll" "sequence_at (ps_nodes s) i = JNum n" "is_safe_integer n"
  shows "\<exists>m. sequence_at (ps_nodes (snd (peer_run env op s))) i = JNum m \<and> n \<le> m \<and> m \<le> n + 1"
proof -
  define N where "N = ps_nodes (snd (peer_run env op s))"
  have "sequence_at N i = JNum n \<or> sequence_at N i = JNum (n + 1)"
    using stores_call_snd [OF peer_run_step [OF assms(1), of env], of s] assms(2,3)
    unfolding N_def store_step_def stores_def nodes_step_def by auto
  then show ?thesis unfolding N_def by auto
qed

lemma sequence_runs:
  assumes "ClearAll \<notin> snd ` set ops" "sequence_at (ps_nodes s) i = JNum n" "- max_safe_integer \<le> n"
    and "n + int (length ops) \<le> max_safe_integer"
  shows "\<exists>m. sequence_at (ps_nodes (peer_runs ops s)) i = JNum m \<and> n \<le> m \<and> m \<le> n + int (length ops)"
  using assms
proof (induction ops s arbitrary: n rule: peer_runs.induct)
  case (2 env op rest s)
  then have "is_safe_integer n" by (simp add: is_safe_integer_def)
  with 2 obtain m where m: "sequence_at (ps_nodes (snd (peer_run env op s))) i = JNum m" "n \<le> m" "m \<le> n + 1"
    using sequence_run [of op s i n env] by auto
  then show ?case using 2(1) [of m] 2(2-) by fastforce
qed simp

lemma next_sequence_result:
  assumes "next_sequence env i s = (Inr n, s')"
  shows "n = next_value (sequence_at (ps_nodes s) i) \<and> sequence_at (ps_nodes s') i = JNum n"
proof -
  have "sequence_at (ps_nodes (node_put (sequence_prefix @ i) [(js ''sequence'', JNum k), (js ''updatedAt'', t)] u)) i = JNum k" for k t u
    by (simp add: sequence_at_def record_at_def node_put_def update_conv')
  with assms show ?thesis
    by (auto simp: next_sequence_tx run_tx_def throw_def get_db_def split: if_splits sum.splits option.splits)
qed

lemma next_value_lower: "- max_safe_integer \<le> next_value v"
  by (cases v) (auto simp: next_value_def is_safe_integer_def max_safe_integer_def)

lemma secret_runs:
  assumes "ClearAll \<notin> snd ` set ops" "\<forall>v. SetNodeSecret v \<notin> snd ` set ops"
    and "secret_of (record_at (ps_nodes s) node_secret_key) = JBytes bs" "length bs = 32"
  shows "secret_of (record_at (ps_nodes (peer_runs ops s)) node_secret_key) = JBytes bs"
  using assms
proof (induction ops s rule: peer_runs.induct)
  case (2 env op rest s)
  then have ok: "op \<noteq> ClearAll" "\<nexists>v. op = SetNodeSecret v" by auto
  have "secret_of (record_at (ps_nodes (snd (peer_run env op s))) node_secret_key) = JBytes bs"
    using stores_call_snd [OF peer_run_step [OF ok(1), of env], of s] 2(4,5) ok(2)
    by (auto simp: store_step_def stores_def nodes_step_def)
  with 2 show ?case by simp
qed simp

lemma node_secret_cases:
  assumes "get_or_create_node_secret env s = (Inr bs, s')"
  shows "secret_of (record_at (ps_nodes s) node_secret_key) = JBytes bs \<and> length bs = 32 \<and> ps_nodes s' = ps_nodes s \<or>
    \<not> js_truthy (secret_of (record_at (ps_nodes s) node_secret_key)) \<and> bs = pe_random env \<and>
      secret_of (record_at (ps_nodes s') node_secret_key) = JBytes bs"
proof -
  have put: "secret_of (record_at (ps_nodes (node_put node_secret_key [(js ''secret'', v), (js ''createdAt'', t)] u)) node_secret_key) = v"
    for v t u by (simp add: record_at_def node_put_def update_conv')
  show ?thesis
    using assms unfolding get_or_create_node_secret_def named_node_secret_def bind_s_def run_tx_def read_named_secret_def
      write_named_secret_def node_get_record_at Let_def get_db_def
    by (auto simp: put ret_def validate_node_secret_def split: if_splits option.splits sum.splits prod.splits jsval.splits
      elim!: bind_r_InrE)
qed

section \<open>Security records\<close>

lemma by_canon_pairs: "p \<in> set (by_canon env vs) \<Longrightarrow> canon_of env (snd p) = fst p"
proof -
  have "(\<And>p. p \<in> set acc \<Longrightarrow> canon_of env (snd p) = fst p) \<Longrightarrow>
      p \<in> set (fold (\<lambda>v. AList.update (canon_of env v) v) vs acc) \<Longrightarrow> canon_of env (snd p) = fst p" for acc p
  proof (induction vs arbitrary: acc)
    case (Cons v vs)
    show ?case by (rule Cons.IH [OF _ Cons.prems(2) [unfolded fold_Cons o_apply]])
      (use set_update_subset [of "canon_of env v" v acc] Cons.prems(1) in auto)
  qed auto
  from this [of "[]" p] show "p \<in> set (by_canon env vs) \<Longrightarrow> canon_of env (snd p) = fst p" by (simp add: by_canon_def)
qed

lemma by_canon_keys: "fst ` set (by_canon env vs) = canon_of env ` set vs"
proof -
  have "fst ` set (fold (\<lambda>v. AList.update (canon_of env v) v) vs acc) = fst ` set acc \<union> canon_of env ` set vs" for acc
    by (induction vs arbitrary: acc) (simp_all add: fst_update)
  then show ?thesis by (simp add: by_canon_def)
qed

text \<open>The values kept have the canonical texts of the values given.\<close>

lemma by_canon_values: "canon_of env ` snd ` set (by_canon env vs) = canon_of env ` set vs"
  by (simp add: image_image by_canon_pairs by_canon_keys cong: image_cong)

lemma union_records_values:
  assumes "union_records env removed k l r = Inr vs" "k \<noteq> js ''revocations''"
  shows "canon_of env ` set vs = canon_of env ` set (js_list (js_prop l k) @ js_list (js_prop r k))"
proof -
  from assms have "vs = map snd (js_sort (\<lambda>a b. pe_locale env (fst a) (fst b) \<le> 0)
      (by_canon env (js_list (js_prop l k) @ js_list (js_prop r k))))"
    by (auto simp: union_records_def Let_def split: if_splits)
  then show ?thesis by (simp add: by_canon_values del: set_append)
qed

lemma union_keys_frame: "union_keys env removed l r ks c = Inr d \<Longrightarrow> is_obj c \<Longrightarrow> k \<notin> set ks \<Longrightarrow> js_prop d k = js_prop c k"
  by (induction ks arbitrary: c) (auto split: if_splits elim!: bind_r_InrE)

lemma union_keys_values:
  assumes "union_keys env removed l r ks c = Inr d" "is_obj c" "distinct ks" "k \<in> set ks" "k \<noteq> js ''revocations''"
    and "v \<in> set (js_list (js_prop l k)) \<union> set (js_list (js_prop r k))"
  shows "canon_of env v \<in> canon_of env ` set (js_list (js_prop d k))"
  using assms
proof (induction ks arbitrary: c)
  case (Cons h ks)
  show ?case
  proof (cases "is_array (js_prop l h) \<or> is_array (js_prop r h)")
    case True
    with Cons.prems(1) obtain vs where vs: "union_records env removed h l r = Inr vs"
      "union_keys env removed l r ks (obj_set h (JArr vs) c) = Inr d" by (auto elim!: bind_r_InrE split: if_splits)
    show ?thesis
    proof (cases "h = k")
      case True
      then have "js_prop d k = JArr vs" using union_keys_frame [OF vs(2), of k] Cons.prems by simp
      with union_records_values [OF vs(1)] True Cons.prems show ?thesis by auto
    qed (use Cons.IH [OF vs(2)] Cons.prems in auto)
  next
    case False
    then have "h \<noteq> k" using Cons.prems by (cases "js_prop l h"; cases "js_prop r h") auto
    with Cons False show ?thesis by auto
  qed
qed simp

end
