(* ===== verification/Json_Size.thy ===== *)
theory Json_Size
  imports Js_Object
begin

text \<open>
  A bound on the size of serialized values that is computed from their shape: the limits on stored records compare
  the UTF-8 length of \<open>JSON.stringify\<close> with a constant.
\<close>

lemma unicode_escape_length: "length (unicode_escape c) = 6"
  by (simp add: unicode_escape_def)

lemma quote_units_length: "length (quote_units s) \<le> 6 * length s"
  by (induction s rule: quote_units.induct) (auto simp: quote_unit_def unicode_escape_length)

lemma quote_length: "length (quote s) \<le> 6 * length s + 2"
  using quote_units_length [of s] by (simp add: quote_def)

lemma join_comma_length: "length (join_comma ts) \<le> sum_list (map (\<lambda>t. length t + 1) ts)"
  by (induction ts rule: join_comma.induct) auto

fun json_weight :: "jsval \<Rightarrow> nat"
  and weight_list :: "jsval list \<Rightarrow> nat"
  and weight_props :: "(jstring \<times> jsval) list \<Rightarrow> nat" where
  "json_weight JUndef = 4"
| "json_weight JNull = 4"
| "json_weight (JBool b) = 5"
| "json_weight (JNum n) = length (dec_int n)"
| "json_weight (JNumOther w) = 0"
| "json_weight (JStr s) = 6 * length s + 2"
| "json_weight (JBytes bs) = 0"
| "json_weight (JArr vs) = 2 + weight_list vs"
| "json_weight (JObj ps) = 2 + weight_props ps"
| "weight_list [] = 0"
| "weight_list (v # vs) = json_weight v + 1 + weight_list vs"
| "weight_props [] = 0"
| "weight_props ((k, v) # ps) = 6 * length k + 4 + json_weight v + weight_props ps"

text \<open>Values without fractional numbers and byte arrays.\<close>

fun plain_json :: "jsval \<Rightarrow> bool"
  and plain_list :: "jsval list \<Rightarrow> bool"
  and plain_props :: "(jstring \<times> jsval) list \<Rightarrow> bool" where
  "plain_json (JNumOther w) = False"
| "plain_json (JBytes bs) = False"
| "plain_json (JArr vs) = plain_list vs"
| "plain_json (JObj ps) = plain_props ps"
| "plain_json JUndef = True"
| "plain_json JNull = True"
| "plain_json (JBool b) = True"
| "plain_json (JNum n) = True"
| "plain_json (JStr s) = True"
| "plain_list [] = True"
| "plain_list (v # vs) = (plain_json v \<and> plain_list vs)"
| "plain_props [] = True"
| "plain_props ((k, v) # ps) = (plain_json v \<and> plain_props ps)"

lemma stringify_weight:
  "plain_json v \<Longrightarrow> stringify fmt v = Some t \<Longrightarrow> length t \<le> json_weight v"
  "plain_list vs \<Longrightarrow> sum_list (map (\<lambda>t. length t + 1) (stringify_list fmt vs)) \<le> weight_list vs"
  "plain_props ps \<Longrightarrow> sum_list (map (\<lambda>t. length t + 1) (map member_text (stringify_props fmt ps))) \<le> weight_props ps"
proof (induction v and vs and ps arbitrary: t rule: plain_json_plain_list_plain_props.induct)
  case (3 vs)
  then show ?case using join_comma_length [of "stringify_list fmt vs"] by auto
next
  case (4 ps)
  then show ?case using join_comma_length [of "map member_text (stringify_props fmt ps)"] by auto
next
  case (9 s)
  then show ?case using quote_length [of s] by auto
next
  case (11 v vs)
  then show ?case
  proof (cases "stringify fmt v")
    case None
    then show ?thesis using 11 by (cases v) (simp_all add: js_def)
  next
    case (Some t)
    then show ?thesis using 11(1) [of t] 11(2,3) by simp
  qed
next
  case (13 k v ps)
  show ?case
  proof (cases "stringify fmt v")
    case (Some t)
    then show ?thesis using 13(1) [of t] 13(2,3) quote_length [of k] by (simp add: member_text_def)
  qed (use 13 in simp)
qed (auto simp: js_def split: if_splits)

lemma utf8_point_length: "length (utf8_point c) \<le> 4" "c < 0x10000 \<Longrightarrow> length (utf8_point c) \<le> 3"
  by (simp_all add: utf8_point_def)

lemma utf8_unit_length:
  "length (utf8_point (if 0xD800 \<le> unat c \<and> unat c \<le> 0xDFFF then 0xFFFD else unat (c :: 16 word))) \<le> 3"
proof -
  have "unat c < 0x10000" using unsigned_less [of c, where ?'a = nat] by simp
  then show ?thesis by (intro utf8_point_length(2)) auto
qed

lemma utf8_length: "length (utf8 s) \<le> 3 * length s"
proof (induction s rule: code_point_list.induct)
  case (2 c)
  show ?case using utf8_unit_length [of c] by (simp add: utf8_def)
next
  case (3 c d s)
  define p where "p = (unat c - 0xD800) * 1024 + (unat d - 0xDC00) + 0x10000"
  show ?case using 3 utf8_unit_length [of c] utf8_point_length(1) [of p] utf8_point_length(1) [of "0xFFFD"]
    by (auto simp: utf8_def p_def [symmetric])
qed (simp add: utf8_def)

lemma json_bytes_weight: "plain_json v \<Longrightarrow> json_bytes fmt v \<le> 3 * json_weight v"
  using stringify_weight(1) [of v fmt] utf8_length
  by (fastforce simp: json_bytes_def split: option.splits intro: order_trans)

lemma plain_json_size: "plain_json v \<Longrightarrow> 3 * json_weight v \<le> n \<Longrightarrow> json_bytes fmt v \<le> n"
  using json_bytes_weight [of v fmt] by simp

end
