(* ===== verification/Peer_Properties.thy ===== *)
theory Peer_Properties
  imports Peer_Safety Json_Size
begin

text \<open>
  The properties of the peer store, with a concrete runtime and platform for their instances.
\<close>

section \<open>Merged credentials\<close>

abbreviation catalog_of :: "jsval \<Rightarrow> jsval" where
  "catalog_of v \<equiv> js_prop v (js ''catalog'')"

lemma js_list_js_or: "js_list (js_prop (js_or v (JObj [])) k) = js_list (js_prop v k)"
  by (simp add: js_or_def)

lemma merge_credential_cases:
  assumes "merge_credential_security env c i = Inr m"
  obtains removed chosen unions catalog where
    "union_keys env removed (js_or (catalog_of c) (JObj [])) (js_or (catalog_of i) (JObj []))
       [js ''deviceRevocations'', js ''departures'', js ''revocations''] (js_spread (catalog_of chosen)) = Inr unions"
    "catalog = unions \<or> (\<exists>h. catalog = obj_set (js ''revocationBoundaryHistory'') h unions)"
    "catalog_of m = catalog"
  using assms unfolding merge_credential_security_def Let_def bind_r_eq_Inr
proof (elim exE conjE, goal_cases)
  case (1 unions granted)
  have g: "is_obj granted \<and> catalog_of granted = catalog_of (obj_set (js ''catalog'') cat (js_spread ch))"
    if "(if b1 then if b2 then Inl e else if b3 then Inr (obj_set (js ''localGrant'') gr (obj_set (js ''catalog'') cat (js_spread ch)))
      else Inr (obj_set (js ''catalog'') cat (js_spread ch)) else Inr (obj_set (js ''catalog'') cat (js_spread ch))) = Inr granted"
    for b1 b2 b3 e gr cat ch using that by (auto split: if_splits)
  have m: "catalog_of m = catalog_of granted" using g [OF 1(3)] 1(4) by auto
  show ?case
    by (rule 1(1) [OF 1(2) _ refl]) (use g [OF 1(3)] m in auto)
qed

lemma merge_credential_keeps:
  assumes "merge_credential_security env c i = Inr m" "k \<in> {js ''deviceRevocations'', js ''departures''}"
    and "v \<in> set (js_list (js_prop (catalog_of c) k)) \<union> set (js_list (js_prop (catalog_of i) k))"
  shows "canon_of env v \<in> canon_of env ` set (js_list (js_prop (catalog_of m) k))"
proof -
  obtain removed chosen unions catalog where
    u: "union_keys env removed (js_or (catalog_of c) (JObj [])) (js_or (catalog_of i) (JObj []))
       [js ''deviceRevocations'', js ''departures'', js ''revocations''] (js_spread (catalog_of chosen)) = Inr unions"
    and c: "catalog = unions \<or> (\<exists>h. catalog = obj_set (js ''revocationBoundaryHistory'') h unions)" "catalog_of m = catalog"
    by (rule merge_credential_cases [OF assms(1)])
  have "canon_of env v \<in> canon_of env ` set (js_list (js_prop unions k))"
    by (rule union_keys_values [OF u]) (use assms(2,3) in \<open>auto simp: js_list_js_or\<close>)
  moreover have "is_obj unions" using union_keys_obj [OF u] by simp
  ultimately show ?thesis using c assms(2) by auto
qed

section \<open>A concrete runtime\<close>

definition sample_env :: peer_env where
  "sample_env = \<lparr> pe_merge_peers = (\<lambda>a b. Inr b),
     pe_validate_scope = (\<lambda>v t. Inr (\<lparr> so_person = js ''p'', so_key = js ''k'', so_certificates = [] \<rparr>,
       \<lparr> so_person = js ''p'', so_key = js ''k'', so_certificates = [] \<rparr>)),
     pe_merge_scopes = (\<lambda>a b t. Inr b), pe_date = (\<lambda>t. Some (int (length t))),
     pe_locale = (\<lambda>a b. if a = b then 0 else if a \<le> b then - 1 else 1), pe_number = (\<lambda>w. []), pe_now = 0,
     pe_now_text = js ''now'', pe_random = replicate 32 7, pe_open = None, pe_commit = None \<rparr>"

definition sample_credential :: "int \<Rightarrow> string \<Rightarrow> jsval" where
  "sample_credential e d = JObj [(js ''version'', JNum 1), (js ''workspaceId'', JStr (js ''w'')),
     (js ''ownerPersonId'', JStr (js ''p'')), (js ''ownerPublicKey'', JStr (js ''k'')), (js ''transportSecret'', JStr (js ''t'')),
     (js ''epoch'', JNum e), (js ''updatedAt'', JStr (js ''d'')), (js ''ownerCertificates'', JArr []),
     (js ''catalog'', JObj [(js ''departures'', JArr [JStr (js d)])])]"

lemmas peer_limits = max_string_length_def max_secret_length_def max_endpoint_length_def max_auth_bundle_length_def

lemma valid_sample:
  "validate_credential sample_env (sample_credential 1 ''a'') = Inr ()"
  "validate_credential sample_env (sample_credential 1 ''b'') = Inr ()"
  by (simp_all add: validate_credential_def valid_credential_def sample_credential_def peer_limits sample_env_def
    valid_epoch_def is_safe_integer_def max_safe_integer_def date_text_def short_list_def valid_history_def
    plain_json_size dec_int_def dec_nat.simps js_def)

section \<open>Failures\<close>



section \<open>Durable authority\<close>

text \<open>
  C23. The durable authority of a workspace outlives every operation but \<open>clearAll\<close>, removal of the workspace's
  mesh data included, and its epoch never decreases: whatever history led to the store and whatever operations
  follow, the workspace still has an authority, stored under its own id, with an epoch at least as high.
\<close>

theorem authority_never_lost:
  assumes "map_of (ps_authorities (peer_runs past new_peer_store)) w = Some a" "ClearAll \<notin> snd ` set ops"
  shows "\<exists>b. map_of (ps_authorities (peer_runs (past @ ops) new_peer_store)) w = Some b \<and> workspace_of b = JStr w \<and>
    epoch_of a \<le> epoch_of b"
proof -
  have k: "keyed (ps_authorities (peer_runs past new_peer_store))"
    by (rule peer_runs_keyed) (simp add: keyed_def new_peer_store_def)
  show ?thesis
    using peer_runs_grows [OF assms(2), of "peer_runs past new_peer_store", unfolded grows_def, rule_format, OF k] assms(1)
    unfolding peer_runs_append keyed_def by blast
qed

definition sample_authority :: jsval where
  "sample_authority = JObj [(js ''version'', JNum 1), (js ''workspaceId'', JStr (js ''w'')),
     (js ''ownerPersonId'', JStr (js ''p'')), (js ''ownerPublicKey'', JStr (js ''k'')),
     (js ''epoch'', JNum 3), (js ''updatedAt'', JStr (js ''d'')), (js ''ownerCertificates'', JArr [])]"

lemma valid_sample_authority: "validate_authority sample_env sample_authority = Inr ()"
  by (simp add: validate_authority_def valid_authority_def sample_authority_def peer_limits sample_env_def check_scope_def
    valid_epoch_def is_safe_integer_def max_safe_integer_def date_text_def short_list_def valid_history_def valid_snapshot_def
    plain_json_size dec_int_def dec_nat.simps js_def)

lemma sample_put_authority:
  "put_workspace_authority sample_env sample_authority new_peer_store =
     (Inr (), \<lparr> ps_connected = True, ps_peers = [], ps_nodes = [], ps_authorities = [(js ''w'', sample_authority)] \<rparr>)"
  by (simp add: put_workspace_authority_def bind_s_def run_tx_def get_db_def new_peer_store_def sample_env_def [THEN arg_cong, of pe_open]
    sample_env_def [THEN arg_cong, of pe_commit] authority_get_def valid_sample_authority put_authority_if_newer_def authority_put_def)
    (simp add: sample_authority_def)

theorem authority_never_lost_witness:
  "\<exists>b. map_of (ps_authorities (peer_runs ([(sample_env, PutAuthority sample_authority)] @
     [(sample_env, RemoveMeshData (js ''w'')), (sample_env, Close)]) new_peer_store)) (js ''w'') = Some b \<and>
     workspace_of b = JStr (js ''w'') \<and> epoch_of sample_authority \<le> epoch_of b"
  by (rule authority_never_lost) (simp_all add: sample_put_authority)

section \<open>Sequences and secrets\<close>

text \<open>
  C24. Advertisement sequences of an instance grow strictly: after \<open>nextInstanceAdvertisementSequence\<close> returned one
  number, and any operations but \<open>clearAll\<close> followed, the next call returns a larger one, as long as the numbers stay
  safe integers.
\<close>

theorem sequence_strictly_grows:
  assumes "next_sequence env i s = (Inr n, s1)" "ClearAll \<notin> snd ` set ops" "n + int (length ops) \<le> max_safe_integer"
    and "next_sequence env' i (peer_runs ops s1) = (Inr m, s2)"
  shows "n < m"
proof -
  have n: "sequence_at (ps_nodes s1) i = JNum n" "- max_safe_integer \<le> n"
    using next_sequence_result [OF assms(1)] next_value_lower by auto
  obtain k where k: "sequence_at (ps_nodes (peer_runs ops s1)) i = JNum k" "n \<le> k" "k \<le> n + int (length ops)"
    using sequence_runs [OF assms(2) n assms(3)] by blast
  then show ?thesis using next_sequence_result [OF assms(4)] n assms(3) by (simp add: next_value_def is_safe_integer_def)
qed

lemma sample_env_storage [simp]: "pe_open sample_env = None" "pe_commit sample_env = None" "pe_now_text sample_env = js ''now''"
  "pe_random sample_env = replicate 32 7"
  by (simp_all add: sample_env_def)

definition counted_store :: "int \<Rightarrow> peer_store" where
  "counted_store n = node_put (sequence_prefix @ js ''i'') [(js ''sequence'', JNum n), (js ''updatedAt'', JStr (js ''now''))]
     (new_peer_store\<lparr> ps_connected := True \<rparr>)"

lemma sample_sequences:
  "next_sequence sample_env (js ''i'') new_peer_store = (Inr 1, counted_store 1)"
  "next_sequence sample_env (js ''i'') (counted_store 1) = (Inr 2, counted_store 2)"
  by (simp_all add: next_sequence_tx valid_instance_id_def peer_limits run_tx_def get_db_def sequence_at_def record_at_def
    new_peer_store_def next_value_def counted_store_def node_put_def is_safe_integer_def max_safe_integer_def)

theorem sequence_strictly_grows_witness:
  "\<exists>n s1 m s2. next_sequence sample_env (js ''i'') new_peer_store = (Inr n, s1) \<and>
     next_sequence sample_env (js ''i'') (peer_runs [(sample_env, GetCredential [])] s1) = (Inr m, s2) \<and> n < m"
proof -
  have second: "next_sequence sample_env (js ''i'') (peer_runs [(sample_env, GetCredential [])] (counted_store 1)) = (Inr 2, counted_store 2)"
    by (simp add: get_workspace_credential_def forget_def bind_s_def throw_def sample_sequences)
  have "(1 :: int) < 2"
    by (rule sequence_strictly_grows [OF sample_sequences(1) _ _ second]) (simp_all add: max_safe_integer_def)
  with sample_sequences(1) second show ?thesis by blast
qed

text \<open>
  C25. The node secret is created once: after \<open>getOrCreateNodeSecret\<close> returned a secret, every later call returns the
  same one, whatever operations other than \<open>setNodeSecret\<close> and \<open>clearAll\<close> ran in between. The random source yields
  the 32 bytes asked of it.
\<close>

theorem node_secret_stable:
  assumes "get_or_create_node_secret env s = (Inr bs, s1)" "length (pe_random env) = 32"
    and "ClearAll \<notin> snd ` set ops" "\<forall>v. SetNodeSecret v \<notin> snd ` set ops"
    and "get_or_create_node_secret env' (peer_runs ops s1) = (Inr bs', s2)"
  shows "bs' = bs"
proof -
  have "secret_of (record_at (ps_nodes s1) node_secret_key) = JBytes bs" "length bs = 32"
    using node_secret_cases [OF assms(1)] assms(2) by auto
  then have "secret_of (record_at (ps_nodes (peer_runs ops s1)) node_secret_key) = JBytes bs"
    using secret_runs [OF assms(3,4)] by blast
  then show ?thesis using node_secret_cases [OF assms(5)] by auto
qed

definition secret_store :: peer_store where
  "secret_store = node_put node_secret_key [(js ''secret'', JBytes (replicate 32 7)), (js ''createdAt'', JStr (js ''now''))]
     (new_peer_store\<lparr> ps_connected := True \<rparr>)"

lemma sample_secrets:
  "get_or_create_node_secret sample_env new_peer_store = (Inr (replicate 32 7), secret_store)"
  "get_or_create_node_secret (sample_env\<lparr> pe_random := replicate 32 9 \<rparr>) secret_store = (Inr (replicate 32 7), secret_store)"
  by (simp_all add: get_or_create_node_secret_def named_node_secret_def read_named_secret_def write_named_secret_def node_get_def
    secret_store_def node_put_def bind_s_def run_tx_def get_db_def ret_def validate_node_secret_def new_peer_store_def Let_def)

theorem node_secret_stable_witness:
  "\<exists>bs s1 bs' s2. get_or_create_node_secret sample_env new_peer_store = (Inr bs, s1) \<and>
     get_or_create_node_secret (sample_env\<lparr> pe_random := replicate 32 9 \<rparr>) (peer_runs [(sample_env, GetCredential [])] s1) =
       (Inr bs', s2) \<and> bs' = bs"
proof -
  have second: "get_or_create_node_secret (sample_env\<lparr> pe_random := replicate 32 9 \<rparr>)
      (peer_runs [(sample_env, GetCredential [])] secret_store) = (Inr (replicate 32 7), secret_store)"
    by (simp add: get_workspace_credential_def forget_def bind_s_def throw_def sample_secrets)
  have "(replicate 32 7 :: bytes) = replicate 32 7" by (rule node_secret_stable [OF sample_secrets(1) _ _ _ second]) simp_all
  with sample_secrets(1) second show ?thesis by blast
qed

section \<open>Removal\<close>

lemma authority_from_credential_workspace:
  assumes "authority_from_credential env c = Inr a"
  shows "workspace_of a = workspace_of c"
proof -
  from assms have v: "valid_credential env c" and a: "a = obj_del (js ''transportSecret'') (js_spread c)"
    by (auto simp: authority_from_credential_def validate_credential_def Let_def elim!: bind_r_InrE split: if_splits)
  from v have t: "js_truthy c" and "short_text (workspace_of c) max_string_length" by (simp_all add: valid_credential_def)
  then obtain w where "workspace_of c = JStr w" using short_text_JStr by blast
  with js_prop_spread [OF t this] show ?thesis by (simp add: a)
qed

lemma removal_cases:
  assumes "remove_workspace_mesh_data env w s = (Inr (), s')"
  obtains s2 where "s' = node_delete (transfer_prefix @ w) (node_delete (credential_prefix @ w) s2)"
    "ps_nodes s2 = ps_nodes s" "ps_peers s2 = filter (\<lambda>e. fst (fst e) \<noteq> w) (ps_peers s)"
    "js_truthy (node_get s (credential_prefix @ w)) \<longrightarrow>
      map_of (ps_authorities s2) (js_text (workspace_of (credential_of (node_get s (credential_prefix @ w))))) \<noteq> None"
proof -
  from assms obtain s0 where s0: "stores s0 = stores s" and body:
    "bind_r (if js_truthy (node_get (delete_workspace_peers w s0) (credential_prefix @ w)) then
       bind_r (validate_credential env (credential_of (node_get (delete_workspace_peers w s0) (credential_prefix @ w)))) (\<lambda>_.
       bind_r (authority_from_credential env (credential_of (node_get (delete_workspace_peers w s0) (credential_prefix @ w)))) (\<lambda>a.
       put_authority_if_newer env a (delete_workspace_peers w s0))) else Inr ((), delete_workspace_peers w s0))
     (\<lambda>(_, s2). Inr ((), node_delete (transfer_prefix @ w) (node_delete (credential_prefix @ w) s2))) = Inr ((), s')"
    unfolding remove_workspace_mesh_data_def Let_def run_tx_def
    by (auto simp: throw_def dest: get_db_stores split: if_splits sum.splits option.splits)
  have get: "node_get (delete_workspace_peers w s0) k = node_get s k" for k
    using s0 by (simp add: node_get_def stores_def)
  obtain u s2 where s': "s' = node_delete (transfer_prefix @ w) (node_delete (credential_prefix @ w) s2)"
    and s2: "(if js_truthy (node_get s (credential_prefix @ w)) then
       bind_r (validate_credential env (credential_of (node_get s (credential_prefix @ w)))) (\<lambda>_.
       bind_r (authority_from_credential env (credential_of (node_get s (credential_prefix @ w)))) (\<lambda>a.
       put_authority_if_newer env a (delete_workspace_peers w s0))) else Inr ((), delete_workspace_peers w s0)) = Inr (u, s2)"
    by (rule bind_r_InrE [OF body [unfolded get]]) (simp only: split: prod.splits, blast)
  show thesis
    by (rule that [OF s']) (use s2 s0 put_authority_grows authority_from_credential_workspace in
      \<open>fastforce simp: stores_def delete_workspace_peers_def elim!: bind_r_InrE split: if_splits\<close>)+
qed

text \<open>
  C26. \<open>removeWorkspaceMeshData\<close> removes the transport state of exactly one workspace: afterwards the workspace has no
  peers, no credential and no pending transfer, peers of other workspaces and all other node records are as before,
  and the workspace that a removed credential names has a durable authority.
\<close>

theorem removal_is_exact:
  assumes "remove_workspace_mesh_data env w s = (Inr (), s')"
  shows "workspace_peers w s' = [] \<and> node_get s' (credential_prefix @ w) = JUndef \<and> node_get s' (transfer_prefix @ w) = JUndef \<and>
    (fst k \<noteq> w \<longrightarrow> peer_get s' k = peer_get s k) \<and>
    (l \<noteq> credential_prefix @ w \<longrightarrow> l \<noteq> transfer_prefix @ w \<longrightarrow> node_get s' l = node_get s l) \<and>
    (js_truthy (node_get s (credential_prefix @ w)) \<longrightarrow>
      map_of (ps_authorities s') (js_text (workspace_of (credential_of (node_get s (credential_prefix @ w))))) \<noteq> None)"
proof -
  obtain s2 where s': "s' = node_delete (transfer_prefix @ w) (node_delete (credential_prefix @ w) s2)"
    and nodes: "ps_nodes s2 = ps_nodes s" and peers: "ps_peers s2 = filter (\<lambda>e. fst (fst e) \<noteq> w) (ps_peers s)"
    and authority: "js_truthy (node_get s (credential_prefix @ w)) \<longrightarrow>
      map_of (ps_authorities s2) (js_text (workspace_of (credential_of (node_get s (credential_prefix @ w))))) \<noteq> None"
    by (rule removal_cases [OF assms])
  have "fst k \<noteq> w \<Longrightarrow> map_of (filter (\<lambda>e. fst (fst e) \<noteq> w) ps) k = map_of ps k" for ps :: "((jstring \<times> jstring) \<times> jsval) list"
    by (induction ps) auto
  then show ?thesis using authority
    by (simp add: s' workspace_peers_def peers nodes node_get_def peer_get_def node_delete_def delete_conv' o_def)
qed

definition sample_stripped :: "string \<Rightarrow> jsval" where
  "sample_stripped d = JObj [(js ''version'', JNum 1), (js ''workspaceId'', JStr (js ''w'')),
     (js ''ownerPersonId'', JStr (js ''p'')), (js ''ownerPublicKey'', JStr (js ''k'')),
     (js ''epoch'', JNum 1), (js ''updatedAt'', JStr (js ''d'')), (js ''ownerCertificates'', JArr []),
     (js ''catalog'', JObj [(js ''departures'', JArr [JStr (js d)])])]"

lemma valid_stripped: "validate_authority sample_env (sample_stripped ''a'') = Inr ()"
  by (simp add: validate_authority_def valid_authority_def sample_stripped_def peer_limits sample_env_def check_scope_def
    valid_epoch_def is_safe_integer_def max_safe_integer_def date_text_def short_list_def valid_history_def valid_snapshot_def
    plain_json_size dec_int_def dec_nat.simps js_def)

lemma stripped_sample: "obj_del (js ''transportSecret'') (js_spread (sample_credential 1 d)) = sample_stripped d"
  by (simp add: sample_credential_def sample_stripped_def js_spread_def)

lemma sample_from_credential: "authority_from_credential sample_env (sample_credential 1 ''a'') = Inr (sample_stripped ''a'')"
  by (simp add: authority_from_credential_def valid_sample stripped_sample valid_stripped)

definition crowded_store :: peer_store where
  "crowded_store = \<lparr> ps_connected = True, ps_peers = [((js ''w'', js ''d''), JNull), ((js ''v'', js ''d''), JNull)],
     ps_nodes = [(credential_prefix @ js ''w'', JObj [(js ''credential'', sample_credential 1 ''a'')])], ps_authorities = [] \<rparr>"

lemma crowded_credential: "node_get (delete_workspace_peers w crowded_store) (credential_prefix @ js ''w'') =
    JObj [(js ''credential'', sample_credential 1 ''a'')]"
  "node_get crowded_store (credential_prefix @ js ''w'') = JObj [(js ''credential'', sample_credential 1 ''a'')]"
  by (simp_all add: node_get_def crowded_store_def)

lemma crowded_fields: "ps_connected crowded_store" "ps_authorities crowded_store = []"
  by (simp_all add: crowded_store_def)

lemma crowded_removal: "\<exists>s'. remove_workspace_mesh_data sample_env (js ''w'') crowded_store = (Inr (), s')"
  by (simp add: remove_workspace_mesh_data_def run_tx_def get_db_def Let_def crowded_credential valid_sample
    sample_from_credential put_authority_if_newer_def valid_stripped crowded_fields)

theorem removal_is_exact_witness:
  "\<exists>s'. remove_workspace_mesh_data sample_env (js ''w'') crowded_store = (Inr (), s') \<and> workspace_peers (js ''w'') s' = [] \<and>
     node_get s' (credential_prefix @ js ''w'') = JUndef \<and> peer_get s' (js ''v'', js ''d'') = peer_get crowded_store (js ''v'', js ''d'') \<and>
     map_of (ps_authorities s') (js ''w'') \<noteq> None"
proof -
  obtain s' where s': "remove_workspace_mesh_data sample_env (js ''w'') crowded_store = (Inr (), s')"
    using crowded_removal by blast
  have "workspace_of (sample_credential 1 ''a'') = JStr (js ''w'')" by (simp add: sample_credential_def)
  with removal_is_exact [OF s', of "(js ''v'', js ''d'')"] s' show ?thesis
    by (intro exI [of _ s']) (simp add: crowded_credential)
qed

section \<open>Security records\<close>

lemma falsy_record: "\<not> js_truthy r \<Longrightarrow> js_list (js_prop (catalog_of (credential_of r)) k) = []"
  by (cases r) simp_all

lemma put_credential_cases:
  assumes "put_workspace_credential env c s = (Inr (), s')" "key = credential_prefix @ js_text (workspace_of c)"
  obtains m where "credential_of (node_get s' key) = m"
    "js_truthy (node_get s key) \<Longrightarrow> merge_credential_security env (credential_of (node_get s key)) c = Inr m"
    "\<not> js_truthy (node_get s key) \<Longrightarrow> m = c"
proof -
  from assms(1) obtain s0 where s0: "stores s0 = stores s" and body:
    "bind_r (if js_truthy (node_get s0 key) then bind_r (validate_credential env (credential_of (node_get s0 key))) (\<lambda>_.
         if \<not> js_eq (js_prop (credential_of (node_get s0 key)) (js ''ownerPersonId'')) (js_prop c (js ''ownerPersonId''))
         then Inl OwnerCannotChange else merge_credential_security env (credential_of (node_get s0 key)) c) else Inr c) (\<lambda>merged.
       bind_r (authority_from_credential env merged) (\<lambda>authority.
       put_authority_if_newer env authority (put_credential_record key merged s0))) = Inr ((), s')"
    unfolding put_workspace_credential_def Let_def run_tx_def assms(2)
    by (auto simp: throw_def dest: get_db_stores split: if_splits sum.splits option.splits)
  have get: "node_get s0 key = node_get s key" using s0 by (simp add: node_get_def stores_def)
  obtain m where m: "(if js_truthy (node_get s key) then bind_r (validate_credential env (credential_of (node_get s key))) (\<lambda>_.
         if \<not> js_eq (js_prop (credential_of (node_get s key)) (js ''ownerPersonId'')) (js_prop c (js ''ownerPersonId''))
         then Inl OwnerCannotChange else merge_credential_security env (credential_of (node_get s key)) c) else Inr c) = Inr m"
    and put: "bind_r (authority_from_credential env m) (\<lambda>authority.
       put_authority_if_newer env authority (put_credential_record key m s0)) = Inr ((), s')"
    by (rule bind_r_InrE [OF body [unfolded get]])
  from put have "ps_nodes s' = ps_nodes (put_credential_record key m s0)" by (auto elim!: bind_r_InrE dest: put_authority_grows)
  then have "credential_of (node_get s' key) = m"
    by (simp add: node_get_def put_credential_record_def node_put_def update_conv')
  then show thesis by (rule that) (use m in \<open>auto elim!: bind_r_InrE split: if_splits\<close>)
qed

text \<open>
  C27. A credential that arrives later never erases verified security records: after \<open>putWorkspaceCredential\<close>, the stored
  catalog holds, up to their canonical text, every device revocation and every departure of the credential that was
  stored and of the one that was put, whichever of the two is newer.
\<close>

theorem credential_keeps_security_records:
  assumes "put_workspace_credential env c s = (Inr (), s')"
    and "key = credential_prefix @ js_text (workspace_of c)" "k \<in> {js ''deviceRevocations'', js ''departures''}"
    and "v \<in> set (js_list (js_prop (catalog_of (credential_of (node_get s key))) k)) \<union> set (js_list (js_prop (catalog_of c) k))"
  shows "canon_of env v \<in> canon_of env ` set (js_list (js_prop (catalog_of (credential_of (node_get s' key))) k))"
proof (cases "js_truthy (node_get s key)")
  case True
  show ?thesis
    by (rule put_credential_cases [OF assms(1,2)]) (use merge_credential_keeps [OF _ assms(3,4)] True in simp)
next
  case False
  show ?thesis
    by (rule put_credential_cases [OF assms(1,2)]) (use assms(4) False in \<open>auto simp: falsy_record\<close>)
qed

definition merged_sample :: jsval where
  "merged_sample = JObj [(js ''version'', JNum 1), (js ''workspaceId'', JStr (js ''w'')),
     (js ''ownerPersonId'', JStr (js ''p'')), (js ''ownerPublicKey'', JStr (js ''k'')), (js ''transportSecret'', JStr (js ''t'')),
     (js ''epoch'', JNum 1), (js ''updatedAt'', JStr (js ''d'')), (js ''ownerCertificates'', JArr []),
     (js ''catalog'', JObj [(js ''departures'', JArr [JStr (js ''a''), JStr (js ''b'')])])]"

lemma sample_quotes: "quote (js ''a'') = [34, 97, 34]" "quote (js ''b'') = [34, 98, 34]"
  by (simp_all add: quote_def js_def quote_unit_def is_high_def is_low_def)

lemma sample_by_canon: "by_canon sample_env [JStr (js ''a''), JStr (js ''b'')] =
    [([34, 97, 34], JStr (js ''a'')), ([34, 98, 34], JStr (js ''b''))]"
  by (simp add: by_canon_def sample_quotes)

lemma sample_locale: "pe_locale sample_env [34, 97, 34] [34, 98, 34] \<le> 0"
  by (simp add: sample_env_def list_le_def list_less_def)

lemma sample_merge: "merge_credential_security sample_env (sample_credential 1 ''a'') (sample_credential 1 ''b'') = Inr merged_sample"
  by (simp add: merge_credential_security_def sample_credential_def repair_history_def by_canon_def [of _ "[]"] last32_def
    js_or_def js_spread_def union_records_def sample_by_canon sample_locale js_sort_def Let_def merged_sample_def)

lemma valid_merged: "validate_credential sample_env merged_sample = Inr ()"
  by (simp add: validate_credential_def valid_credential_def merged_sample_def peer_limits sample_env_def
    valid_epoch_def is_safe_integer_def max_safe_integer_def date_text_def short_list_def valid_history_def
    plain_json_size dec_int_def dec_nat.simps js_def)

lemma valid_merged_authority:
  "validate_authority sample_env (obj_del (js ''transportSecret'') (js_spread merged_sample)) = Inr ()"
  by (simp add: validate_authority_def valid_authority_def merged_sample_def js_spread_def peer_limits sample_env_def check_scope_def
    valid_epoch_def is_safe_integer_def max_safe_integer_def date_text_def short_list_def valid_history_def valid_snapshot_def
    plain_json_size dec_int_def dec_nat.simps js_def)

lemma sample_workspace: "workspace_of (sample_credential 1 d) = JStr (js ''w'')"
  "js_prop (sample_credential 1 d) (js ''ownerPersonId'') = JStr (js ''p'')"
  by (simp_all add: sample_credential_def)

lemma crowded_put: "\<exists>s'. put_workspace_credential sample_env (sample_credential 1 ''b'') crowded_store = (Inr (), s')"
  by (simp add: put_workspace_credential_def run_tx_def get_db_def Let_def crowded_credential valid_sample sample_merge sample_workspace
    authority_from_credential_def valid_merged valid_merged_authority put_authority_if_newer_def crowded_fields put_credential_record_def)

theorem credential_keeps_security_records_witness:
  "\<exists>s'. put_workspace_credential sample_env (sample_credential 1 ''b'') crowded_store = (Inr (), s') \<and>
     canon_of sample_env (JStr (js ''a'')) \<in> canon_of sample_env ` set (js_list (js_prop (catalog_of (credential_of
       (node_get s' (credential_prefix @ js ''w'')))) (js ''departures'')))"
proof -
  obtain s' where s': "put_workspace_credential sample_env (sample_credential 1 ''b'') crowded_store = (Inr (), s')"
    using crowded_put by blast
  have "catalog_of (sample_credential 1 ''a'') = JObj [(js ''departures'', JArr [JStr (js ''a'')])]" by (simp add: sample_credential_def)
  then show ?thesis
    using credential_keeps_security_records [OF s' refl, of "js ''departures''" "JStr (js ''a'')"] s'
    by (intro exI [of _ s']) (simp add: sample_workspace crowded_credential)
qed

end
