(* ===== verification/Unicode_Text.thy ===== *)
theory Unicode_Text
  imports Canonical_Json
begin

text \<open>
  \<open>TextEncoder\<close> as the canonical signature input uses it: the UTF-8 form of a
  well-formed UTF-16 string determines the string, and a byte of it is zero
  only for the code unit zero.
\<close>

fun utf8_read :: "bytes \<Rightarrow> (nat \<times> bytes) option" where
  "utf8_read (a # r) =
     (if unat a < 128 then Some (unat a, r)
      else
        (case r of
           [] \<Rightarrow> None
         | b # r \<Rightarrow>
             if unat a < 224 then Some ((unat a - 192) * 64 + (unat b - 128), r)
             else
               (case r of
                  [] \<Rightarrow> None
                | c # r \<Rightarrow>
                    if unat a < 240 then Some ((unat a - 224) * 4096 + (unat b - 128) * 64 + (unat c - 128), r)
                    else
                      (case r of
                         [] \<Rightarrow> None
                       | d # r \<Rightarrow> Some ((unat a - 240) * 262144 + (unat b - 128) * 4096 + (unat c - 128) * 64 +
                           (unat d - 128), r)))))"
| "utf8_read [] = None"

lemma unat_byte: "n < 256 \<Longrightarrow> unat (of_nat n :: 8 word) = n"
  by (simp add: unat_of_nat)

lemma utf8_sum:
  "c div 64 * 64 + c mod 64 = (c :: nat)" "c div 4096 * 4096 + c div 64 mod 64 * 64 + c mod 64 = c"
  "c div 262144 * 262144 + c div 4096 mod 64 * 4096 + c div 64 mod 64 * 64 + c mod 64 = c"
proof -
  have q: "c div 4096 = c div 64 div 64" "c div 262144 = c div 64 div 64 div 64"
    by (simp_all add: div_mult2_eq [symmetric])
  have eq: "q2 * 4096 + r2 * 64 + r1 = c" if "q1 * 64 + r1 = c" "q2 * 64 + r2 = q1" for q1 q2 r1 r2 :: nat
    using that by (simp add: algebra_simps)
  have eq3: "q3 * 262144 + r3 * 4096 + r2 * 64 + r1 = c"
    if "q1 * 64 + r1 = c" "q2 * 64 + r2 = q1" "q3 * 64 + r3 = q2" for q1 q2 q3 r1 r2 r3 :: nat
    using that by (simp add: algebra_simps)
  note d1 = div_mult_mod_eq [of c 64] and d2 = div_mult_mod_eq [of "c div 64" 64]
    and d3 = div_mult_mod_eq [of "c div 64 div 64" 64]
  show "c div 64 * 64 + c mod 64 = c" by (rule d1)
  show "c div 4096 * 4096 + c div 64 mod 64 * 64 + c mod 64 = c" using eq [OF d1 d2] by (simp only: q)
  show "c div 262144 * 262144 + c div 4096 mod 64 * 4096 + c div 64 mod 64 * 64 + c mod 64 = c"
    using eq3 [OF d1 d2 d3] by (simp only: q)
qed

lemma utf8_read_2:
  "unat a = 192 + q \<Longrightarrow> q < 32 \<Longrightarrow> unat b = 128 + m \<Longrightarrow> utf8_read (a # b # r) = Some (q * 64 + m, r)"
  by simp

lemma utf8_read_3:
  "unat a = 224 + q \<Longrightarrow> q < 16 \<Longrightarrow> unat b = 128 + m \<Longrightarrow> unat c = 128 + n \<Longrightarrow>
    utf8_read (a # b # c # r) = Some (q * 4096 + m * 64 + n, r)"
  by simp

lemma utf8_read_4:
  "unat a = 240 + q \<Longrightarrow> unat b = 128 + m \<Longrightarrow> unat c = 128 + n \<Longrightarrow> unat d = 128 + k \<Longrightarrow>
    utf8_read (a # b # c # d # r) = Some (q * 262144 + m * 4096 + n * 64 + k, r)"
  by simp

lemma utf8_tail_byte: "unat (of_nat (128 + n mod 64) :: 8 word) = 128 + n mod 64"
  by (rule unat_byte) (use mod_less_divisor [of 64 n] in linarith)

lemma utf8_read_point:
  assumes c: "c < 0x110000"
  shows "utf8_read (utf8_point c @ r) = Some (c, r)"
proof -
  note m = utf8_tail_byte [of c] utf8_tail_byte [of "c div 64"] utf8_tail_byte [of "c div 4096"]
  consider "c < 128" | "128 \<le> c" "c < 2048" | "2048 \<le> c" "c < 65536" | "65536 \<le> c" by linarith
  then show ?thesis
  proof cases
    case 1
    then show ?thesis by (simp add: utf8_point_def unat_byte)
  next
    case 2
    then have q: "c div 64 < 32" by (simp add: less_mult_imp_div_less)
    then have a: "unat (of_nat (192 + c div 64) :: 8 word) = 192 + c div 64" by (intro unat_byte) linarith
    from 2 have "utf8_point c = [of_nat (192 + c div 64), of_nat (128 + c mod 64)]"
      by (simp add: utf8_point_def del: of_nat_add)
    then show ?thesis using utf8_read_2 [OF a q m(1), of r] by (simp only: append.simps utf8_sum)
  next
    case 3
    then have q: "c div 4096 < 16" by (simp add: less_mult_imp_div_less)
    then have a: "unat (of_nat (224 + c div 4096) :: 8 word) = 224 + c div 4096" by (intro unat_byte) linarith
    from 3 have "utf8_point c = [of_nat (224 + c div 4096), of_nat (128 + c div 64 mod 64), of_nat (128 + c mod 64)]"
      by (simp add: utf8_point_def del: of_nat_add)
    then show ?thesis using utf8_read_3 [OF a q m(2) m(1), of r] by (simp only: append.simps utf8_sum)
  next
    case 4
    from c have "c div 262144 < 5" by (simp add: less_mult_imp_div_less)
    then have a: "unat (of_nat (240 + c div 262144) :: 8 word) = 240 + c div 262144" by (intro unat_byte) linarith
    from 4 have "utf8_point c = [of_nat (240 + c div 262144), of_nat (128 + c div 4096 mod 64),
        of_nat (128 + c div 64 mod 64), of_nat (128 + c mod 64)]"
      by (simp add: utf8_point_def del: of_nat_add)
    then show ?thesis using utf8_read_4 [OF a m(3) m(2) m(1), of r] by (simp only: append.simps utf8_sum)
  qed
qed

lemma utf8_point_nonempty [simp]: "utf8_point c \<noteq> []"
  by (simp add: utf8_point_def)

lemma utf8_points_inj:
  assumes "\<forall>c \<in> set xs. c < 0x110000" "\<forall>c \<in> set ys. c < 0x110000"
    "concat (map utf8_point xs) = concat (map utf8_point ys)"
  shows "xs = ys"
  using assms
proof (induction xs arbitrary: ys)
  case Nil
  then show ?case by (cases ys) auto
next
  case (Cons x xs)
  show ?case
  proof (cases ys)
    case Nil
    then show ?thesis using Cons.prems(3) by simp
  next
    case ys: (Cons y ys')
    from Cons.prems(3) ys have eq: "utf8_point x @ concat (map utf8_point xs) = utf8_point y @ concat (map utf8_point ys')"
      by (simp only: list.map concat.simps)
    have x: "x < 0x110000" by (rule bspec [OF Cons.prems(1)]) simp
    have y: "y < 0x110000" by (rule bspec [OF Cons.prems(2)]) (simp add: ys)
    let ?a = "concat (map utf8_point xs)" and ?b = "concat (map utf8_point ys')"
    have "Some (x, ?a) = utf8_read (utf8_point x @ ?a)" by (rule utf8_read_point [OF x, symmetric])
    also have "\<dots> = utf8_read (utf8_point y @ ?b)" by (rule arg_cong [OF eq])
    also have "\<dots> = Some (y, ?b)" by (rule utf8_read_point [OF y])
    finally have "x = y" "?a = ?b" by blast+
    with Cons.IH [of ys'] Cons.prems(1,2) show ?thesis by (simp add: ys)
  qed
qed

fun utf16_point :: "nat \<Rightarrow> jstring" where
  "utf16_point c = (if c < 0x10000 then [of_nat c]
     else [of_nat (0xD800 + (c - 0x10000) div 1024), of_nat (0xDC00 + (c - 0x10000) mod 1024)])"

lemma surrogate_bounds:
  "is_high c \<Longrightarrow> 0xD800 \<le> unat c \<and> unat c < 0xDC00" "is_low c \<Longrightarrow> 0xDC00 \<le> unat c \<and> unat c < 0xE000"
  by (auto simp: is_high_def is_low_def word_le_nat_alt)

lemma utf16_pair:
  assumes "is_high c" "is_low d"
  shows "utf16_point ((unat c - 0xD800) * 1024 + (unat d - 0xDC00) + 0x10000) = [c, d]"
proof -
  have "(unat d - 0xDC00) < 1024" using surrogate_bounds(2) [OF assms(2)] by linarith
  then have "((unat c - 0xD800) * 1024 + (unat d - 0xDC00)) div 1024 = unat c - 0xD800"
    "((unat c - 0xD800) * 1024 + (unat d - 0xDC00)) mod 1024 = unat d - 0xDC00" by (simp_all add: pack)
  then show ?thesis
    using surrogate_bounds(1) [OF assms(1)] surrogate_bounds(2) [OF assms(2)] by (simp del: of_nat_add)
qed

lemma unit_less: "unat (c :: 16 word) < 65536"
  using unsigned_less [of c] by simp

lemma utf16_unit: "utf16_point (unat c) = [c]"
  using unit_less [of c] by simp

lemma utf16_inverse: "concat (map utf16_point (code_point_list s)) = s"
  by (induction s rule: code_point_list.induct) (simp_all add: utf16_pair utf16_unit del: utf16_point.simps)

lemma code_point_list_inj: "code_point_list s = code_point_list t \<Longrightarrow> s = t"
  by (metis utf16_inverse)

fun wf16 :: "jstring \<Rightarrow> bool" where
  "wf16 [] = True"
| "wf16 [c] = (\<not> is_high c \<and> \<not> is_low c)"
| "wf16 (c # d # s) =
     (if is_high c \<and> is_low d then wf16 s else \<not> is_high c \<and> \<not> is_low c \<and> wf16 (d # s))"

lemma not_high_and_low [simp]: "is_high c \<Longrightarrow> \<not> is_low c"
  using surrogate_bounds [of c] by auto

lemma wf16_append: "wf16 x \<Longrightarrow> wf16 (x @ y) = wf16 y \<and> code_point_list (x @ y) = code_point_list x @ code_point_list y"
proof (induction x rule: wf16.induct)
  case (2 c)
  then show ?case by (cases y) auto
qed (auto split: if_splits)

lemma wf16_plain: "\<forall>c \<in> set s. \<not> is_high c \<and> \<not> is_low c \<Longrightarrow> wf16 s"
  by (induction s rule: wf16.induct) auto

lemma wf16_points: "wf16 s \<Longrightarrow> \<forall>c \<in> set (code_point_list s). c < 0x110000 \<and> (c < 0xD800 \<or> 0xDFFF < c)"
proof (induction s rule: wf16.induct)
  case (2 c)
  then show ?case using unit_less [of c] by (auto simp: is_high_def is_low_def word_le_nat_alt)
next
  case (3 c d s)
  show ?case
  proof (cases "is_high c \<and> is_low d")
    case True
    then show ?thesis using 3 surrogate_bounds(1) [of c] surrogate_bounds(2) [of d] by auto
  next
    case False
    then show ?thesis using 3 unit_less [of c] by (auto simp: is_high_def is_low_def word_le_nat_alt)
  qed
qed simp

lemma utf8_wf16: "wf16 s \<Longrightarrow> utf8 s = concat (map utf8_point (code_point_list s))"
  using wf16_points [of s] by (fastforce simp: utf8_def intro!: arg_cong [where f = concat] map_cong)

lemma utf8_inj: "wf16 s \<Longrightarrow> wf16 t \<Longrightarrow> utf8 s = utf8 t \<Longrightarrow> s = t"
  using utf8_points_inj [of "code_point_list s" "code_point_list t"] wf16_points [of s] wf16_points [of t]
  by (auto simp: utf8_wf16 intro!: code_point_list_inj)

lemma utf8_append: "wf16 x \<Longrightarrow> utf8 (x @ y) = utf8 x @ utf8 y"
  by (simp add: utf8_def wf16_append)

lemma byte_nonzero: "0 < n \<Longrightarrow> n < 256 \<Longrightarrow> (of_nat n :: 8 word) \<noteq> 0"
  using unat_byte [of n] by (metis less_numeral_extra(3) unat_0)

lemma utf8_point_nonzero:
  assumes "c < 0x110000" "0 < c"
  shows "0 \<notin> set (utf8_point c)"
proof -
  have m: "(of_nat (128 + n mod 64) :: 8 word) \<noteq> 0" for n
    by (rule byte_nonzero) (use mod_less_divisor [of 64 n] in linarith)+
  have q: "(of_nat (k + n) :: 8 word) \<noteq> 0" if "0 < k" "n < 256 - k" for k n
    using that by (intro byte_nonzero) linarith+
  consider "c < 128" | "128 \<le> c" "c < 2048" | "2048 \<le> c" "c < 65536" | "65536 \<le> c" by linarith
  then show ?thesis
  proof cases
    case 1
    then show ?thesis using assms byte_nonzero [of c] by (auto simp: utf8_point_def)
  next
    case 2
    then have "c div 64 < 32" by (simp add: less_mult_imp_div_less)
    then have "(of_nat (192 + c div 64) :: 8 word) \<noteq> 0" by (intro q) linarith+
    with 2 m [of c] show ?thesis by (auto simp: utf8_point_def simp del: of_nat_add)
  next
    case 3
    then have "c div 4096 < 16" by (simp add: less_mult_imp_div_less)
    then have "(of_nat (224 + c div 4096) :: 8 word) \<noteq> 0" by (intro q) linarith+
    with 3 m [of c] m [of "c div 64"] show ?thesis by (auto simp: utf8_point_def simp del: of_nat_add)
  next
    case 4
    from assms have "c div 262144 < 5" by (simp add: less_mult_imp_div_less)
    then have "(of_nat (240 + c div 262144) :: 8 word) \<noteq> 0" by (intro q) linarith+
    with 4 m [of c] m [of "c div 64"] m [of "c div 4096"] show ?thesis
      by (auto simp: utf8_point_def simp del: of_nat_add)
  qed
qed

lemma code_point_zero: "0 \<in> set (code_point_list s) \<Longrightarrow> 0 \<in> set s"
  by (induction s rule: code_point_list.induct) (auto simp: unat_eq_zero split: if_splits)

lemma utf8_nonzero: "wf16 s \<Longrightarrow> 0 \<notin> set s \<Longrightarrow> 0 \<notin> set (utf8 s)"
  using wf16_points [of s] code_point_zero [of s] utf8_point_nonzero
  by (auto simp: utf8_wf16)

end
