(* ===== verification/Signature_Input.thy ===== *)
theory Signature_Input
  imports Unicode_Text
begin

text \<open>
  Unique readability of canonical JSON and of signature inputs. Strings and numbers are read back by
  decoders; values by an induction over their text, in which the character after a value is a
  delimiter.
\<close>

section \<open>Numerals\<close>

definition hex_value :: "16 word \<Rightarrow> nat" where
  "hex_value d = (if unat d < 58 then unat d - 48 else unat d - 87)"

lemma hex_value_digit: "n < 16 \<Longrightarrow> hex_value (hex_digit n) = n"
  by (auto simp: hex_value_def hex_digit_def unat_of_nat)

lemma unit_lt: "unat (c :: 16 word) < 65536"
  using unsigned_less [of c, where ?'a = nat] by simp

lemma hex_digits_sum:
  "n div 4096 * 4096 + n div 256 mod 16 * 256 + n div 16 mod 16 * 16 + n mod 16 = (n :: nat)"
proof -
  have "n div 256 = n div 16 div 16" "n div 4096 = n div 16 div 16 div 16"
    by (simp_all add: div_mult2_eq [symmetric])
  moreover have eq: "q3 * 4096 + r3 * 256 + r2 * 16 + r1 = n"
    if "q1 * 16 + r1 = n" "q2 * 16 + r2 = q1" "q3 * 16 + r3 = q2" for q1 q2 q3 r1 r2 r3 :: nat
    using that by (simp add: algebra_simps)
  ultimately show ?thesis
    using eq [OF div_mult_mod_eq [of n 16] div_mult_mod_eq [of "n div 16" 16] div_mult_mod_eq [of "n div 16 div 16" 16]]
    by simp
qed

definition undec :: "jstring \<Rightarrow> nat" where
  "undec s = foldl (\<lambda>a c. a * 10 + (unat c - 48)) 0 s"

definition is_digit :: "16 word \<Rightarrow> bool" where
  "is_digit c \<longleftrightarrow> 48 \<le> c \<and> c \<le> 57"

lemma digit_unit: "n < 10 \<Longrightarrow> unat (of_nat (n + 48) :: 16 word) = n + 48"
  by (simp add: unat_of_nat del: of_nat_add)

lemma is_digit_unit: "n < 10 \<Longrightarrow> is_digit (of_nat (n + 48))"
  using digit_unit [of n] by (simp add: is_digit_def word_le_nat_alt del: of_nat_add)

lemma undec_dec: "undec (dec_nat n) = n"
proof (induction n rule: dec_nat.induct)
  case (1 n)
  show ?case
  proof (cases "n < 10")
    case True
    then show ?thesis using digit_unit [of n] by (subst dec_nat.simps) (simp add: undec_def del: of_nat_add)
  next
    case False
    then have "dec_nat n = dec_nat (n div 10) @ [of_nat (n mod 10 + 48)]" by (subst dec_nat.simps) simp
    moreover have "unat (of_nat (n mod 10 + 48) :: 16 word) = n mod 10 + 48" by (rule digit_unit) simp
    ultimately show ?thesis using 1 [OF False] by (simp add: undec_def del: of_nat_add)
  qed
qed

lemma dec_nat_inj: "dec_nat m = dec_nat n \<longleftrightarrow> m = n"
  by (metis undec_dec)

lemma dec_digits: "dec_nat n \<noteq> [] \<and> (\<forall>c \<in> set (dec_nat n). is_digit c)"
proof (induction n rule: dec_nat.induct)
  case (1 n)
  show ?case
  proof (cases "n < 10")
    case True
    then show ?thesis using is_digit_unit [of n] by (subst (1 2) dec_nat.simps) (simp del: of_nat_add)
  next
    case False
    then have "dec_nat n = dec_nat (n div 10) @ [of_nat (n mod 10 + 48)]" by (subst dec_nat.simps) simp
    moreover have "is_digit (of_nat (n mod 10 + 48))" by (rule is_digit_unit) simp
    ultimately show ?thesis using 1 [OF False] by (auto simp del: of_nat_add)
  qed
qed

lemma dec_int_inj: "dec_int m = dec_int n \<longleftrightarrow> m = n"
proof
  assume eq: "dec_int m = dec_int n"
  have minus: "hd (dec_nat k) \<noteq> 0x2D" for k
    using dec_digits [of k] by (cases "dec_nat k") (auto simp: is_digit_def)
  show "m = n"
  proof (cases "m < 0"; cases "n < 0")
    assume "m < 0" "n < 0"
    then have "dec_nat (nat (- m)) = dec_nat (nat (- n))" using eq by (simp add: dec_int_def)
    then have "nat (- m) = nat (- n)" by (metis undec_dec)
    with \<open>m < 0\<close> \<open>n < 0\<close> show ?thesis by simp
  next
    assume "m < 0" "\<not> n < 0"
    then have "0x2D # dec_nat (nat (- m)) = dec_nat (nat n)" using eq by (simp add: dec_int_def)
    with minus [of "nat n"] show ?thesis by (metis list.sel(1))
  next
    assume "\<not> m < 0" "n < 0"
    then have "dec_nat (nat m) = 0x2D # dec_nat (nat (- n))" using eq by (simp add: dec_int_def)
    with minus [of "nat m"] show ?thesis by (metis list.sel(1))
  next
    assume "\<not> m < 0" "\<not> n < 0"
    then have "nat m = nat n" using eq by (simp add: dec_int_def) (metis undec_dec)
    with \<open>\<not> m < 0\<close> \<open>\<not> n < 0\<close> show ?thesis by simp
  qed
qed simp

section \<open>Strings\<close>

definition unescape :: "16 word \<Rightarrow> 16 word" where
  "unescape c = (if c = 0x62 then 0x08 else if c = 0x74 then 0x09 else if c = 0x6E then 0x0A
     else if c = 0x66 then 0x0C else if c = 0x72 then 0x0D else c)"

fun unquote :: "jstring \<Rightarrow> (jstring \<times> jstring) option" where
  "unquote [] = None"
| "unquote [c] = (if c = 0x22 then Some ([], []) else None)"
| "unquote (c # d # s) =
     (if c = 0x22 then Some ([], d # s)
      else if c \<noteq> 0x5C then map_option (\<lambda>(t, r). (c # t, r)) (unquote (d # s))
      else if d \<noteq> 0x75 then map_option (\<lambda>(t, r). (unescape d # t, r)) (unquote s)
      else
        (case s of
           e # f # g # h # s' \<Rightarrow>
             map_option (\<lambda>(t, r). (of_nat (hex_value e * 4096 + hex_value f * 256 + hex_value g * 16 + hex_value h) # t, r))
               (unquote s')
         | _ \<Rightarrow> None))"

lemma unquote_plain:
  "c \<noteq> 0x22 \<Longrightarrow> c \<noteq> 0x5C \<Longrightarrow> unquote (c # s) = map_option (\<lambda>(t, r). (c # t, r)) (unquote s)"
  by (cases s) auto

lemma unquote_escape: "unquote (unicode_escape c @ s) = map_option (\<lambda>(t, r). (c # t, r)) (unquote s)"
proof -
  have "of_nat (unat c div 4096 * 4096 + unat c div 256 mod 16 * 256 + unat c div 16 mod 16 * 16 + unat c mod 16) = c"
    unfolding hex_digits_sum by simp
  moreover have "unat c div 4096 < 16" using unit_lt [of c] by (simp add: less_mult_imp_div_less)
  ultimately show ?thesis
    by (simp add: unicode_escape_def hex_value_digit del: of_nat_add of_nat_mult)
qed

lemma unquote_unit: "unquote (quote_unit c @ s) = map_option (\<lambda>(t, r). (c # t, r)) (unquote s)"
  by (simp add: quote_unit_def unquote_escape unquote_plain unescape_def)

lemma surrogate_plain: "is_high c \<or> is_low c \<Longrightarrow> c \<noteq> 0x22 \<and> c \<noteq> 0x5C"
  by (auto simp: is_high_def is_low_def)

lemma unquote_units: "unquote (quote_units s @ 0x22 # r) = Some (s, r)"
proof (induction s rule: quote_units.induct)
  case 1
  then show ?case by (cases r) auto
next
  case (2 c)
  have "unquote (0x22 # r) = Some ([], r)" by (cases r) auto
  then show ?case by (simp add: unquote_unit)
next
  case (3 c d s)
  then show ?case using surrogate_plain [of c] surrogate_plain [of d] by (auto simp: unquote_plain unquote_unit)
qed

lemma quote_unique: "quote s @ r = quote t @ r' \<Longrightarrow> s = t \<and> r = r'"
proof -
  assume "quote s @ r = quote t @ r'"
  then have "quote_units s @ 0x22 # r = quote_units t @ 0x22 # r'" by (simp add: quote_def)
  then have "Some (s, r) = Some (t, r')" by (metis unquote_units)
  then show ?thesis by simp
qed

section \<open>Well-formed JSON values\<close>

text \<open>The double is finite and has a fractional part.\<close>

definition fractional_bits :: "64 word \<Rightarrow> bool" where
  "fractional_bits w \<longleftrightarrow>
     (let e = unat w div 2 ^ 52 mod 2 ^ 11; m = unat w mod 2 ^ 52 in
      (e < 1023 \<and> (e \<noteq> 0 \<or> m \<noteq> 0)) \<or> (1023 \<le> e \<and> e < 1075 \<and> m mod 2 ^ (1075 - e) \<noteq> 0))"

fun json_ok :: "jsval \<Rightarrow> bool" where
  "json_ok JUndef = False"
| "json_ok JNull = True"
| "json_ok (JBool b) = True"
| "json_ok (JNum n) = (\<bar>n\<bar> < 10 ^ 21)"
| "json_ok (JNumOther w) = fractional_bits w"
| "json_ok (JStr s) = True"
| "json_ok (JBytes bs) = False"
| "json_ok (JArr vs) = (\<forall>v \<in> set vs. json_ok v)"
| "json_ok (JObj ps) = (distinct (map fst ps) \<and> (\<forall>p \<in> set ps. json_ok (snd p)))"

definition number_char :: "16 word \<Rightarrow> bool" where
  "number_char c \<longleftrightarrow> is_digit c \<or> c = 0x2D \<or> c = 0x2B \<or> c = 0x2E \<or> c = 0x65"

text \<open>What is relied on of the text of numbers with a fractional part.\<close>

definition number_format :: "(64 word \<Rightarrow> jstring) \<Rightarrow> bool" where
  "number_format fmt \<longleftrightarrow>
     (\<forall>w. fractional_bits w \<longrightarrow> fmt w \<noteq> [] \<and> (is_digit (hd (fmt w)) \<or> hd (fmt w) = 0x2D) \<and>
        (\<forall>c \<in> set (fmt w). number_char c) \<and> (\<forall>n. fmt w \<noteq> dec_int n)) \<and>
     inj_on fmt {w. fractional_bits w}"

lemma fractional_finite: "fractional_bits w \<Longrightarrow> finite_bits w"
  by (auto simp: fractional_bits_def finite_bits_def Let_def)

text \<open>The text of a value, and the value with its keys in order.\<close>

fun json_text :: "(jstring \<Rightarrow> jstring \<Rightarrow> bool) \<Rightarrow> (64 word \<Rightarrow> jstring) \<Rightarrow> jsval \<Rightarrow> jstring" where
  "json_text le fmt JUndef = []"
| "json_text le fmt JNull = js ''null''"
| "json_text le fmt (JBool b) = (if b then js ''true'' else js ''false'')"
| "json_text le fmt (JNum n) = dec_int n"
| "json_text le fmt (JNumOther w) = fmt w"
| "json_text le fmt (JStr s) = quote s"
| "json_text le fmt (JBytes bs) = []"
| "json_text le fmt (JArr vs) = [0x5B] @ join_comma (map (json_text le fmt) vs) @ [0x5D]"
| "json_text le fmt (JObj ps) = object_text le (map (\<lambda>p. (fst p, json_text le fmt (snd p))) ps)"

fun json_norm :: "(jstring \<Rightarrow> jstring \<Rightarrow> bool) \<Rightarrow> jsval \<Rightarrow> jsval" where
  "json_norm le (JArr vs) = JArr (map (json_norm le) vs)"
| "json_norm le (JObj ps) = JObj (js_sort (\<lambda>x y. le (fst x) (fst y)) (map (\<lambda>p. (fst p, json_norm le (snd p))) ps))"
| "json_norm le v = v"

lemma canon_text:
  "json_ok v \<Longrightarrow> canon le fmt v = Inr (Some (json_text le fmt v))"
  "\<forall>v \<in> set vs. json_ok v \<Longrightarrow> canon_list le fmt vs = Inr (map (json_text le fmt) vs)"
  "\<forall>p \<in> set ps. json_ok (snd p) \<Longrightarrow>
     canon_props le fmt ps = Inr (map (\<lambda>p. (fst p, json_text le fmt (snd p))) ps)"
proof (induction le fmt v and le fmt vs and le fmt ps rule: canon_canon_list_canon_props.induct)
  case (9 le fmt ps)
  then show ?case by simp
qed (auto simp: fractional_finite)

lemma map_insert_by:
  "map h (insert_by (\<lambda>x y. le (fst x) (fst y)) x ys) = insert_by (\<lambda>x y. le (fst x) (fst y)) (h x) (map h ys)"
  if "\<And>x. fst (h x) = fst x" for h :: "'a \<times> 'b \<Rightarrow> 'a \<times> 'c"
  using that by (induction ys) auto

lemma map_js_sort:
  "map h (js_sort (\<lambda>x y. le (fst x) (fst y)) xs) = js_sort (\<lambda>x y. le (fst x) (fst y)) (map h xs)"
  if "\<And>x. fst (h x) = fst x" for h :: "'a \<times> 'b \<Rightarrow> 'a \<times> 'c"
  using that by (induction xs) (simp_all add: js_sort_def map_insert_by)

section \<open>Unique readability\<close>

definition delim :: "jstring \<Rightarrow> bool" where
  "delim r \<longleftrightarrow> r = [] \<or> hd r \<in> {0x2C, 0x5D, 0x7D}"

lemma number_token:
  assumes "\<forall>c \<in> set x. number_char c" "\<forall>c \<in> set y. number_char c" "delim r" "delim s" "x @ r = y @ s"
  shows "x = y \<and> r = s"
proof -
  have stop: "takeWhile number_char (u @ t) = u" if "\<forall>c \<in> set u. number_char c" "delim t" for u t
  proof -
    have "takeWhile number_char t = []"
      using that(2) by (cases t) (auto simp: delim_def number_char_def is_digit_def)
    then show ?thesis using that(1) by (simp add: takeWhile_append)
  qed
  from stop [OF assms(1,3)] stop [OF assms(2,4)] assms(5) show ?thesis by simp
qed

lemma join_comma_Cons: "join_comma (t # ts) = t @ (if ts = [] then [] else 0x2C # join_comma ts)"
  by (cases ts) auto

lemma join_unique:
  assumes "\<forall>x \<in> set xs. \<forall>y \<in> set ys. \<forall>r s. delim r \<longrightarrow> delim s \<longrightarrow> f x @ r = f y @ s \<longrightarrow> g x = g y \<and> r = s"
    and "\<forall>x \<in> set xs \<union> set ys. f x \<noteq> [] \<and> hd (f x) \<notin> {0x2C, 0x5D, 0x7D}"
    and e: "e = 0x5D \<or> e = 0x7D"
    and "join_comma (map f xs) @ e # r = join_comma (map f ys) @ e # s"
  shows "map g xs = map g ys \<and> r = s"
  using assms(1,2,4)
proof (induction xs arbitrary: ys)
  case Nil
  show ?case
  proof (cases ys)
    case (Cons y ys')
    then have "hd (f y) = e" using Nil(2,3) by (cases "f y") (auto simp: join_comma_Cons)
    then show ?thesis using Nil(2) Cons e by auto
  qed (use Nil in simp)
next
  case (Cons x xs)
  show ?case
  proof (cases ys)
    case Nil
    then have "hd (f x) = e" using Cons.prems(2,3) by (cases "f x") (auto simp: join_comma_Cons)
    then show ?thesis using Cons.prems(2) e by auto
  next
    case ys: (Cons y ys')
    let ?tail = "\<lambda>zs t. if zs = [] then e # t else 0x2C # join_comma (map f zs) @ e # t"
    have tail: "join_comma (map f (z # zs)) @ e # t = f z @ ?tail zs t" for z zs t
      by (simp add: join_comma_Cons)
    have "delim (?tail xs r)" "delim (?tail ys' s)" using e by (auto simp: delim_def)
    then have gxy: "g x = g y" and eq: "?tail xs r = ?tail ys' s"
      using Cons.prems(1,3) ys tail by auto
    show ?thesis
    proof (cases "xs = [] \<or> ys' = []")
      case True
      then show ?thesis using eq gxy ys e by (auto split: if_splits)
    next
      case False
      then have "map g xs = map g ys' \<and> r = s"
        using Cons.IH [of ys'] Cons.prems(1,2) eq ys by simp
      then show ?thesis using gxy ys by simp
    qed
  qed
qed

fun text_class :: "jsval \<Rightarrow> nat" where
  "text_class JUndef = 0"
| "text_class JNull = 1"
| "text_class (JBool b) = (if b then 2 else 3)"
| "text_class (JNum n) = 4"
| "text_class (JNumOther w) = 4"
| "text_class (JStr s) = 5"
| "text_class (JBytes bs) = 0"
| "text_class (JArr vs) = 6"
| "text_class (JObj ps) = 7"

definition char_class :: "16 word \<Rightarrow> nat" where
  "char_class c = (if c = 0x6E then 1 else if c = 0x74 then 2 else if c = 0x66 then 3
     else if is_digit c \<or> c = 0x2D then 4 else if c = 0x22 then 5 else if c = 0x5B then 6
     else if c = 0x7B then 7 else 0)"

lemma dec_int_chars:
  "dec_int n \<noteq> [] \<and> (\<forall>c \<in> set (dec_int n). number_char c) \<and> (is_digit (hd (dec_int n)) \<or> hd (dec_int n) = 0x2D)"
  using dec_digits [of "nat n"] dec_digits [of "nat (- n)"]
  by (auto simp: dec_int_def number_char_def)

lemma char_class_number: "is_digit c \<or> c = 0x2D \<Longrightarrow> char_class c = 4"
  by (auto simp: char_class_def is_digit_def)

lemma json_text_head:
  assumes "json_ok v" "number_format fmt"
  shows "json_text le fmt v \<noteq> [] \<and> char_class (hd (json_text le fmt v)) = text_class v \<and> text_class v \<noteq> 0"
proof (cases v)
  case (JNum n)
  then show ?thesis using dec_int_chars [of n] char_class_number by simp
next
  case (JNumOther w)
  then show ?thesis using assms char_class_number by (simp add: number_format_def)
qed (use assms in \<open>auto simp: js_def char_class_def quote_def object_text_def is_digit_def\<close>)

lemma json_text_start:
  assumes "json_ok v" "number_format fmt"
  shows "json_text le fmt v \<noteq> [] \<and> hd (json_text le fmt v) \<notin> {0x2C, 0x5D, 0x7D}"
proof -
  have "char_class c = 0" if "c \<in> {0x2C, 0x5D, 0x7D}" for c
    using that by (auto simp: char_class_def is_digit_def)
  then show ?thesis using json_text_head [OF assms, of le] by fastforce
qed

lemma json_text_class:
  assumes "json_ok v" "json_ok w" "number_format fmt" "json_text le fmt v @ r = json_text le fmt w @ s"
  shows "text_class v = text_class w"
  using json_text_head [OF assms(1,3), of le] json_text_head [OF assms(2,3), of le] assms(4)
  by (metis hd_append2)

lemma number_text:
  assumes "text_class v = 4" "json_ok v" "number_format fmt"
  shows "\<forall>c \<in> set (json_text le fmt v). number_char c"
  using assms dec_int_chars by (cases v) (auto simp: number_format_def split: if_splits)

lemma number_formatD:
  assumes "number_format fmt" "fractional_bits w"
  shows "fmt w \<noteq> dec_int n" "dec_int n \<noteq> fmt w" "fractional_bits w' \<Longrightarrow> fmt w = fmt w' \<longleftrightarrow> w = w'"
  using assms by (auto simp: number_format_def inj_on_eq_iff) (metis)

lemma number_value:
  assumes "text_class v = 4" "text_class w = 4" "json_ok v" "json_ok w" "number_format fmt"
    "json_text le fmt v = json_text le fmt w"
  shows "v = w"
  using assms number_formatD [OF assms(5)] dec_int_inj
  by (cases v; cases w) (simp_all split: if_splits)

lemma atom_unique:
  assumes "json_ok v" "json_ok w" "number_format fmt" "delim r" "delim s"
    "json_text le fmt v @ r = json_text le fmt w @ s" "text_class v \<le> 5"
  shows "v = w \<and> r = s"
proof -
  have c: "text_class w = text_class v" using json_text_class [OF assms(1-3,6)] by simp
  consider "text_class v = 4" | "text_class v = 5" | "text_class v \<in> {1, 2, 3}"
    using assms(7) json_text_head [OF assms(1,3), of le] by fastforce
  then show ?thesis
  proof cases
    case 1
    then have w4: "text_class w = 4" using c by simp
    have "json_text le fmt v = json_text le fmt w \<and> r = s"
      using number_token [OF number_text [OF 1 assms(1,3)] number_text [OF w4 assms(2,3)] assms(4,5,6)] .
    then show ?thesis using number_value [OF 1 w4 assms(1-3), of le] by simp
  next
    case 2
    then obtain x y where "v = JStr x" "w = JStr y" using c by (cases v; cases w) (auto split: if_splits)
    then show ?thesis using assms(6) quote_unique [of x r y s] by simp
  next
    case 3
    then have "v = w" using c by (cases v; cases w) (auto split: if_splits)
    then show ?thesis using assms(6) by simp
  qed
qed

lemma atom_norm:
  assumes "json_ok v" "json_ok w" "number_format fmt" "delim r" "delim s"
    "json_text le fmt v @ r = json_text le fmt w @ s" "text_class v \<le> 5"
  shows "json_norm le v = json_norm le w \<and> r = s"
  using atom_unique [OF assms] by simp

lemma member_unique:
  assumes v: "\<forall>r s. delim r \<longrightarrow> delim s \<longrightarrow> t @ r = u @ s \<longrightarrow> P \<and> r = s"
    and "delim r" "delim s" "member_text (k, t) @ r = member_text (l, u) @ s"
  shows "k = l \<and> P \<and> r = s"
proof -
  have "quote k @ (0x3A # t @ r) = quote l @ (0x3A # u @ s)" using assms(4) by (simp add: member_text_def)
  from quote_unique [OF this] v assms(2,3) show ?thesis by auto
qed

lemma json_text_unique:
  assumes "json_ok v" "json_ok w" "number_format fmt" "delim r" "delim s"
    "json_text le fmt v @ r = json_text le fmt w @ s"
  shows "json_norm le v = json_norm le w \<and> r = s"
  using assms
proof (induction v arbitrary: w r s)
  case (JArr vs)
  from json_text_class [OF JArr.prems(1,2,3,6)] obtain ws where w: "w = JArr ws" by (cases w) (auto split: if_splits)
  have "join_comma (map (json_text le fmt) vs) @ 0x5D # r = join_comma (map (json_text le fmt) ws) @ 0x5D # s"
    using JArr.prems(6) w by simp
  moreover have "\<forall>x \<in> set vs \<union> set ws. json_text le fmt x \<noteq> [] \<and> hd (json_text le fmt x) \<notin> {0x2C, 0x5D, 0x7D}"
    using JArr.prems(1,2,3) w json_text_start by auto
  ultimately have "map (json_norm le) vs = map (json_norm le) ws \<and> r = s"
    using JArr.IH JArr.prems(1,2,3) w by (intro join_unique [where e = "0x5D" and f = "json_text le fmt"]) auto
  then show ?case using w by simp
next
  case (JObj ps)
  from json_text_class [OF JObj.prems(1,2,3,6)] obtain qs where w: "w = JObj qs" by (cases w) (auto split: if_splits)
  let ?sort = "js_sort (\<lambda>x y :: jstring \<times> jsval. le (fst x) (fst y))"
  let ?t = "\<lambda>p. (fst p, json_text le fmt (snd p))" and ?n = "\<lambda>p. (fst p, json_norm le (snd p))"
  have tx: "json_text le fmt (JObj zs) = 0x7B # join_comma (map (\<lambda>p. member_text (?t p)) (?sort zs)) @ [0x7D]" for zs
    by (simp add: object_text_def map_js_sort [of ?t le zs, symmetric] comp_def)
  have nm: "json_norm le (JObj zs) = JObj (map ?n (?sort zs))" for zs
    by (simp add: map_js_sort [of ?n le zs, symmetric])
  have "join_comma (map (\<lambda>p. member_text (?t p)) (?sort ps)) @ 0x7D # r =
      join_comma (map (\<lambda>p. member_text (?t p)) (?sort qs)) @ 0x7D # s"
    using JObj.prems(6) unfolding w tx by simp
  moreover have "\<forall>p \<in> set (?sort ps) \<union> set (?sort qs). member_text (?t p) \<noteq> [] \<and> hd (member_text (?t p)) \<notin> {0x2C, 0x5D, 0x7D}"
    by (simp add: member_text_def quote_def)
  moreover have "\<forall>x \<in> set (?sort ps). \<forall>y \<in> set (?sort qs). \<forall>r s. delim r \<longrightarrow> delim s \<longrightarrow>
      member_text (?t x) @ r = member_text (?t y) @ s \<longrightarrow> ?n x = ?n y \<and> r = s"
  proof (intro ballI allI impI)
    fix x y r s
    assume x: "x \<in> set (?sort ps)" and y: "y \<in> set (?sort qs)" and d: "delim r" "delim s"
      "member_text (?t x) @ r = member_text (?t y) @ s"
    have "\<forall>r s. delim r \<longrightarrow> delim s \<longrightarrow> json_text le fmt (snd x) @ r = json_text le fmt (snd y) @ s \<longrightarrow>
        json_norm le (snd x) = json_norm le (snd y) \<and> r = s"
      using JObj.IH [of x "snd x" "snd y"] x y JObj.prems(1,2,3) w by (auto simp: snds.simps)
    from member_unique [OF this d] show "?n x = ?n y \<and> r = s" by simp
  qed
  ultimately have "map ?n (?sort ps) = map ?n (?sort qs) \<and> r = s"
    by (intro join_unique [where e = "0x7D" and f = "\<lambda>p. member_text (?t p)"]) auto
  then show ?case unfolding w nm by simp
qed (rule atom_norm, assumption+, simp)+

section \<open>The bytes that are signed\<close>

definition text_ok :: "jstring \<Rightarrow> bool" where
  "text_ok t \<longleftrightarrow> wf16 t \<and> 0 \<notin> set t"

lemma text_ok_append [simp]: "text_ok x \<Longrightarrow> text_ok (x @ y) = text_ok y"
  by (auto simp: text_ok_def wf16_append)

lemma text_ok_plain: "\<forall>c \<in> set t. c \<noteq> 0 \<and> \<not> is_high c \<and> \<not> is_low c \<Longrightarrow> text_ok t"
  by (auto simp: text_ok_def intro: wf16_plain)

lemma text_ok_Nil [simp]: "text_ok []"
  by (simp add: text_ok_def)

lemma text_ok_Cons: "c \<noteq> 0 \<Longrightarrow> \<not> is_high c \<Longrightarrow> \<not> is_low c \<Longrightarrow> text_ok (c # t) = text_ok t"
  using text_ok_append [of "[c]" t] by (simp add: text_ok_def)

lemma text_ok_marks [simp]:
  "text_ok (0x22 # t) = text_ok t" "text_ok (0x2C # t) = text_ok t" "text_ok (0x3A # t) = text_ok t"
  "text_ok (0x5B # t) = text_ok t" "text_ok (0x5D # t) = text_ok t" "text_ok (0x7B # t) = text_ok t"
  "text_ok (0x7D # t) = text_ok t"
  by (rule text_ok_Cons; simp add: is_high_def is_low_def)+

lemma number_char_plain: "number_char c \<Longrightarrow> c \<noteq> 0 \<and> \<not> is_high c \<and> \<not> is_low c"
  unfolding number_char_def is_digit_def is_high_def is_low_def word_le_nat_alt by auto

lemma hex_digit_plain: "n < 16 \<Longrightarrow> hex_digit n \<noteq> 0 \<and> \<not> is_high (hex_digit n) \<and> \<not> is_low (hex_digit n)"
proof -
  assume "n < 16"
  then have "unat (hex_digit n) = (if n < 10 then n + 48 else n + 87)"
    by (simp add: hex_digit_def unat_of_nat del: of_nat_add)
  with \<open>n < 16\<close> show ?thesis by (auto simp: is_high_def is_low_def word_le_nat_alt split: if_splits)
qed

lemma text_ok_escape: "text_ok (unicode_escape c)"
proof -
  have "unat c div 4096 < 16" using unit_lt [of c] by (simp add: less_mult_imp_div_less)
  then show ?thesis
    using hex_digit_plain [of "unat c div 4096"] hex_digit_plain [of "unat c div 256 mod 16"]
      hex_digit_plain [of "unat c div 16 mod 16"] hex_digit_plain [of "unat c mod 16"]
    unfolding unicode_escape_def by (intro text_ok_plain) (simp add: is_high_def is_low_def)
qed

lemma text_ok_unit: "text_ok (quote_unit c)"
proof (cases "c < 0x20 \<or> is_high c \<or> is_low c")
  case True
  then show ?thesis
    by (auto simp: quote_unit_def text_ok_escape intro!: text_ok_plain) (auto simp: is_high_def is_low_def)
next
  case False
  then have "c \<noteq> 0" by auto
  with False show ?thesis
    by (auto simp: quote_unit_def intro!: text_ok_plain) (auto simp: is_high_def is_low_def)
qed

lemma text_ok_quote: "text_ok (quote s)"
proof -
  have pair: "text_ok (c # d # t) = text_ok t" if "is_high c" "is_low d" for c d t
    using that by (auto simp: text_ok_def is_high_def is_low_def)
  have "text_ok (quote_units s)"
    by (induction s rule: quote_units.induct) (auto simp: pair text_ok_unit)
  then show ?thesis by (simp add: quote_def)
qed

lemma text_ok_join: "\<forall>t \<in> set ts. text_ok t \<Longrightarrow> text_ok (join_comma ts)"
  by (induction ts rule: join_comma.induct) auto

lemma json_text_ok:
  assumes "number_format fmt"
  shows "json_ok v \<Longrightarrow> text_ok (json_text le fmt v)"
proof (induction v)
  case (JNumOther w)
  then have "\<forall>c \<in> set (fmt w). number_char c" using assms by (simp add: number_format_def)
  then have "text_ok (fmt w)" by (intro text_ok_plain ballI number_char_plain) simp
  then show ?case by simp
next
  case (JNum n)
  have "text_ok (dec_int n)" using dec_int_chars [of n] by (intro text_ok_plain ballI number_char_plain) simp
  then show ?case by simp
next
  case (JArr vs)
  then have "text_ok (join_comma (map (json_text le fmt) vs))" by (intro text_ok_join) auto
  then show ?case by simp
next
  case (JObj ps)
  have "text_ok (json_text le fmt (snd p))" if "p \<in> set ps" for p
    using that JObj.prems by (intro JObj.IH [of p]) (auto simp: snds.simps)
  then have "\<forall>t \<in> set (map member_text (js_sort (\<lambda>x y. le (fst x) (fst y))
      (map (\<lambda>p. (fst p, json_text le fmt (snd p))) ps))). text_ok t"
    by (auto simp: member_text_def text_ok_quote)
  then show ?case by (simp add: object_text_def text_ok_join)
qed (auto simp: text_ok_quote js_def is_high_def is_low_def intro!: text_ok_plain)

lemma last_zero_split:
  assumes "x @ 0 # y = x' @ 0 # y'" "0 \<notin> set y" "0 \<notin> set y'"
  shows "x = x' \<and> y = (y' :: 'a :: zero list)"
proof -
  have tw: "takeWhile (\<lambda>c. c \<noteq> 0) (rev (u @ 0 # v)) = rev v" if "0 \<notin> set v" for u v :: "'a list"
    using that by (auto simp: takeWhile_append)
  from tw [OF assms(2), of x] tw [OF assms(3), of x'] assms(1) show ?thesis by simp
qed

lemma code_points_append_zero: "code_point_list (x @ [0]) = code_point_list x @ [0]"
  by (induction x rule: code_point_list.induct) (auto simp: is_low_def)

lemma utf8_zero: "utf8 (x @ [0]) = utf8 x @ [0]"
  by (simp add: utf8_def code_points_append_zero utf8_point_def)

lemma json_norm_prop:
  assumes "json_ok v"
  shows "js_prop (json_norm le v) k = json_norm le (js_prop v k)"
proof (cases v)
  case (JObj ps)
  let ?n = "\<lambda>p. (fst p, json_norm le (snd p))"
  have "map_of (js_sort (\<lambda>x y. le (fst x) (fst y)) (map ?n ps)) = map_of (map ?n ps)"
    using assms JObj by (intro map_of_perm) (simp_all add: o_def distinct_js_sort)
  then show ?thesis using JObj by (auto simp: map_of_map [of "json_norm le", unfolded case_prod_beta] split: option.splits)
qed simp_all

lemma json_norm_string [simp]: "json_norm le v = JStr s \<longleftrightarrow> v = JStr s"
  by (cases v) auto

lemma json_norm_null [simp]: "json_norm le v = JNull \<longleftrightarrow> v = JNull"
  by (cases v) auto

lemma json_ok_prop: "json_ok v \<Longrightarrow> js_prop v k \<noteq> JUndef \<Longrightarrow> json_ok (js_prop v k)"
  by (cases v) (auto split: option.splits dest: map_of_SomeD)

section \<open>Properties\<close>

definition sample_number :: "64 word \<Rightarrow> jstring" where
  "sample_number w = js ''0.'' @ dec_nat (unat w)"

lemma sample_number_format: "number_format sample_number"
proof -
  have js: "js ''0.'' = [0x30, 0x2E]" by (simp add: js_def)
  have "sample_number w \<noteq> dec_int n" for w n
  proof
    assume "sample_number w = dec_int n"
    then have eq: "0x30 # 0x2E # dec_nat (unat w) = dec_int n" by (simp add: sample_number_def js)
    moreover have "(0x2E :: 16 word) \<notin> set (dec_nat k)" for k
      using dec_digits [of k] by (auto simp: is_digit_def)
    ultimately have "(0x2E :: 16 word) \<notin> set (0x30 # 0x2E # dec_nat (unat w))" unfolding eq by (auto simp: dec_int_def)
    then show False by simp
  qed
  moreover have "is_digit (hd (sample_number w))" for w by (simp add: sample_number_def js is_digit_def)
  moreover have "\<forall>c \<in> set (sample_number w). number_char c" "sample_number w \<noteq> []" for w
    using dec_digits [of "unat w"] by (auto simp: sample_number_def js number_char_def is_digit_def)
  moreover have "inj sample_number"
    by (rule injI) (metis sample_number_def append_same_eq append_eq_append_conv undec_dec word_unat_eq_iff)
  ultimately show ?thesis by (auto simp: number_format_def intro: inj_on_subset)
qed

lemma same_text_norm:
  assumes "number_format fmt" "json_ok v" "json_ok w"
    and "canonicalize_json fmt v = Inr (Some t)" "canonicalize_json fmt w = Inr (Some t)"
  shows "json_norm (\<le>) v = json_norm (\<le>) w"
proof -
  have "json_text (\<le>) fmt v @ [] = json_text (\<le>) fmt w @ []"
    using assms(4,5) by (simp add: canonicalize_json_def canon_text(1) [OF assms(2)] canon_text(1) [OF assms(3)])
  from json_text_unique [OF assms(2,3,1) _ _ this] show ?thesis by (simp add: delim_def)
qed

text \<open>C14. The canonical text that \<open>canonicalizeJson\<close> gives a JSON value determines the value: two values with the same
  text are equal up to the order in which their objects list the keys.\<close>

theorem canonical_text_determines_value:
  assumes "number_format fmt" "json_ok v" "json_ok w"
    and "canonicalize_json fmt v = Inr (Some t)" "canonicalize_json fmt w = Inr (Some t)"
  shows "json_norm (\<le>) v = json_norm (\<le>) w"
  using assms by (rule same_text_norm)

theorem canonical_text_determines_value_witness:
  "json_norm (\<le>) (JObj [(js ''a'', JArr [JNull]), (js ''b'', JNum 7)]) =
   json_norm (\<le>) (JObj [(js ''b'', JNum 7), (js ''a'', JArr [JNull])])"
proof (rule canonical_text_determines_value [OF sample_number_format])
  show "canonicalize_json sample_number (JObj [(js ''a'', JArr [JNull]), (js ''b'', JNum 7)]) =
      Inr (Some (js ''{\"a\":[null],\"b\":7}''))" by code_simp
  show "canonicalize_json sample_number (JObj [(js ''b'', JNum 7), (js ''a'', JArr [JNull])]) =
      Inr (Some (js ''{\"a\":[null],\"b\":7}''))" by code_simp
qed (simp_all add: js_def)

text \<open>C15. The bytes that an identity signs determine what was signed: equal signature inputs come from the same
  payload, up to the order of keys, and from the same signature domain, so a signature made for one purpose is never
  one for another.\<close>

theorem signature_input_injective:
  assumes "number_format fmt" "json_ok v" "json_ok w"
    and kinds: "js_prop v (js ''kind'') = JStr k" "js_prop w (js ''kind'') = JStr l"
    and "canonicalize_signature_json fmt v = Inr (Some c)" "canonicalize_signature_json fmt w = Inr (Some d)"
    and domains: "wf16 domain" "wf16 domain'"
    and eq: "signature_input k c domain = signature_input l d domain'"
  shows "json_norm (\<lambda>l r. compare_canonical_keys l r \<le> 0) v = json_norm (\<lambda>l r. compare_canonical_keys l r \<le> 0) w \<and>
    k = l \<and> domain = domain'"
proof -
  let ?le = "\<lambda>l r. compare_canonical_keys l r \<le> 0"
  have c: "c = json_text ?le fmt v" and d: "d = json_text ?le fmt w"
    using assms(6,7) by (simp_all add: canonicalize_signature_json_def canon_text(1) [OF assms(2)] canon_text(1) [OF assms(3)])
  from json_text_ok [OF assms(1,2), of ?le] json_text_ok [OF assms(1,3), of ?le]
  have ok: "wf16 c" "0 \<notin> set c" "wf16 d" "0 \<notin> set d" by (simp_all add: c d text_ok_def)
  have split: "signature_input k c domain = utf8 (domain @ 0x2F # k) @ 0 # utf8 c" for k c domain
    using utf8_zero [of "domain @ 0x2F # k"] by (simp add: signature_input_def)
  from eq have "utf8 (domain @ 0x2F # k) = utf8 (domain' @ 0x2F # l)" "utf8 c = utf8 d"
    unfolding split using last_zero_split utf8_nonzero ok by blast+
  with utf8_inj ok have "c = d" by blast
  then have norm: "json_norm ?le v = json_norm ?le w"
    using json_text_unique [OF assms(2,3,1), of "[]" "[]" ?le] by (simp add: delim_def c d)
  moreover have "k = l"
    using json_norm_prop [OF assms(2), of ?le "js ''kind''"] json_norm_prop [OF assms(3), of ?le "js ''kind''"] kinds norm
    by simp
  moreover from this \<open>utf8 (domain @ 0x2F # k) = _\<close> have "utf8 domain = utf8 domain'"
    by (simp add: utf8_append domains)
  ultimately show ?thesis using utf8_inj domains by blast
qed

definition sample_payload :: jsval where
  "sample_payload = JObj [(js ''kind'', JStr (js ''k'')), (js ''a'', JBool True)]"

definition sample_reordered :: jsval where
  "sample_reordered = JObj [(js ''a'', JBool True), (js ''kind'', JStr (js ''k''))]"

theorem signature_input_injective_witness:
  "json_norm (\<lambda>l r. compare_canonical_keys l r \<le> 0) sample_payload =
   json_norm (\<lambda>l r. compare_canonical_keys l r \<le> 0) sample_reordered \<and> js ''k'' = js ''k'' \<and> js ''mesh'' = js ''mesh''"
proof (rule signature_input_injective [OF sample_number_format])
  show "canonicalize_signature_json sample_number sample_payload = Inr (Some (js ''{\"a\":true,\"kind\":\"k\"}''))"
    by code_simp
  show "canonicalize_signature_json sample_number sample_reordered = Inr (Some (js ''{\"a\":true,\"kind\":\"k\"}''))"
    by code_simp
qed (simp_all add: sample_payload_def sample_reordered_def js_def is_high_def is_low_def)

end
