(* ===== verification/Peer_Limits.thy ===== *)
theory Peer_Limits
  imports Peer_Properties Signature_Input
begin












section \<open>The merged record\<close>





lemma sample_scope [simp]:
  "pe_validate_scope sample_env v t = Inr (\<lparr> so_person = js ''p'', so_key = js ''k'', so_certificates = [] \<rparr>,
     \<lparr> so_person = js ''p'', so_key = js ''k'', so_certificates = [] \<rparr>)"
  "pe_merge_scopes sample_env a b t = Inr b"
  by (simp_all add: sample_env_def)











end
