(* ===== verification/Identity_Envelope.thy ===== *)
theory Identity_Envelope
  imports Js_Object "HOL-Library.Code_Target_Nat"
begin

text \<open>
  Signed envelopes of the identity package (\<open>packages/mesh-identity/src/index.ts\<close>): hashes and key
  identifiers over canonical text, \<open>signEnvelope\<close> and \<open>verifyEnvelope\<close>. WebCrypto's
  SHA-256 and Ed25519 are a parameter, the record \<open>mesh_crypto\<close>; an Ed25519 key is imported when it has 32
  bytes. Envelopes and the values inside them come from other peers and are untyped values. Shown: what
  \<open>signEnvelope\<close> produced verifies with the signer's public key and domain.
\<close>

record mesh_crypto =
  cr_sha256 :: "bytes \<Rightarrow> bytes"
  cr_public :: "bytes \<Rightarrow> bytes"
  cr_sign :: "bytes \<Rightarrow> bytes \<Rightarrow> bytes"
  cr_verify :: "bytes \<Rightarrow> bytes \<Rightarrow> bytes \<Rightarrow> bool"
  cr_number :: "64 word \<Rightarrow> jstring"

datatype identity_error =
    TypeFault | JsonFault json_error | InvalidCharacter | InvalidKeyData | InvalidPublicKey | KindNotText
  | IdentityKeyMismatch | InvalidCertificateChain | MissingDeviceCertificate | InvalidDeviceCertificate
  | InvalidRootCertificate | InvalidAuthorityEvidence | ConflictingDeviceCertificate | InvalidRevocation
  | OverlappingRevocation | InvalidFrontier | FrontierTooLarge | FrontierHistoryTooLarge | NoRevocationAuthority
  | InvalidRevocationSignature | LastManagementAuthority | DeviceRevoked | NoManagementAuthority
  | InvalidAuthorityView | ViewKeyMismatch | InvalidRevocationHead | ViewDigestMismatch | DifferentPeople
  | StaleRevocationHead | RevocationFork | ConflictingCatalog

text \<open>\<open>value.key\<close>, which throws on \<open>undefined\<close> and \<open>null\<close>.\<close>

definition js_get :: "jsval \<Rightarrow> jstring \<Rightarrow> identity_error + jsval" where
  "js_get v k = (if v = JUndef \<or> v = JNull then Inl TypeFault else Inr (js_prop v k))"

definition json_r :: "json_error + 'a \<Rightarrow> identity_error + 'a" where
  "json_r m = (case m of Inl e \<Rightarrow> Inl (JsonFault e) | Inr x \<Rightarrow> Inr x)"

definition canonical_text :: "'m mesh_crypto_scheme \<Rightarrow> jsval \<Rightarrow> identity_error + jstring option" where
  "canonical_text cr v = json_r (canonicalize_json (cr_number cr) v)"

text \<open>\<open>TextEncoder.encode\<close>, of \<open>undefined\<close> the empty array.\<close>

definition encode_text :: "jstring option \<Rightarrow> bytes" where
  "encode_text t = (case t of None \<Rightarrow> [] | Some t \<Rightarrow> utf8 t)"

definition sha256_base64url :: "'m mesh_crypto_scheme \<Rightarrow> bytes \<Rightarrow> jstring" where
  "sha256_base64url cr bs = to_base64url (cr_sha256 cr bs)"

definition hash_json :: "'m mesh_crypto_scheme \<Rightarrow> jsval \<Rightarrow> identity_error + jstring" where
  "hash_json cr v = bind_r (canonical_text cr v) (\<lambda>t. Inr (sha256_base64url cr (encode_text t)))"

definition decode_base64url :: "jsval \<Rightarrow> identity_error + bytes" where
  "decode_base64url v =
     (case v of
        JStr s \<Rightarrow> (case from_base64url s of None \<Rightarrow> Inl InvalidCharacter | Some bs \<Rightarrow> Inr bs)
      | _ \<Rightarrow> Inl TypeFault)"

definition public_key_id :: "'m mesh_crypto_scheme \<Rightarrow> jsval \<Rightarrow> identity_error + jstring" where
  "public_key_id cr v =
     bind_r (decode_base64url v) (\<lambda>bs.
     if length bs \<noteq> 32 then Inl InvalidPublicKey else Inr (sha256_base64url cr bs))"

definition certificate_hash :: "'m mesh_crypto_scheme \<Rightarrow> jsval \<Rightarrow> identity_error + jstring" where
  "certificate_hash cr certificate = hash_json cr certificate"

definition import_key :: "jsval \<Rightarrow> identity_error + bytes" where
  "import_key v = bind_r (decode_base64url v) (\<lambda>bs. if length bs \<noteq> 32 then Inl InvalidKeyData else Inr bs)"

text \<open>The \<open>kind\<close> that prefixes the signed bytes is a string in every envelope type.\<close>

definition payload_kind :: "jsval \<Rightarrow> identity_error + jstring" where
  "payload_kind payload =
     bind_r (js_get payload (js ''kind'')) (\<lambda>k. case k of JStr s \<Rightarrow> Inr s | _ \<Rightarrow> Inl KindNotText)"

definition text_of :: "jstring option \<Rightarrow> jstring" where
  "text_of t = (case t of None \<Rightarrow> [] | Some t \<Rightarrow> t)"

definition sign_envelope ::
  "'m mesh_crypto_scheme \<Rightarrow> bytes \<Rightarrow> jsval \<Rightarrow> jstring \<Rightarrow> jstring \<Rightarrow> identity_error + jsval" where
  "sign_envelope cr private_key payload signer domain =
     bind_r (json_r (capture_envelope_payload payload)) (\<lambda>captured.
     bind_r (payload_kind captured) (\<lambda>kind.
     bind_r (json_r (canonicalize_signature_json (cr_number cr) captured)) (\<lambda>canonical.
     let input = signature_input kind (text_of canonical) domain in
     Inr (JObj [(js ''payload'', captured), (js ''signerKeyId'', JStr signer),
       (js ''signature'', JStr (to_base64url (cr_sign cr private_key input)))]))))"

definition verify_envelope ::
  "'m mesh_crypto_scheme \<Rightarrow> jsval \<Rightarrow> jsval \<Rightarrow> jstring \<Rightarrow> identity_error + bool" where
  "verify_envelope cr envelope public_key domain =
     bind_r (import_key public_key) (\<lambda>key.
     bind_r (js_get envelope (js ''payload'')) (\<lambda>payload.
     bind_r (json_r (canonicalize_signature_json (cr_number cr) payload)) (\<lambda>canonical.
     bind_r (decode_base64url (js_prop envelope (js ''signature''))) (\<lambda>signature.
     bind_r (payload_kind payload) (\<lambda>kind.
     if cr_verify cr key signature (signature_input kind (text_of canonical) domain) then Inr True
     else
       bind_r (canonical_text cr payload) (\<lambda>legacy.
       Inr (legacy \<noteq> canonical \<and>
         cr_verify cr key signature (signature_input kind (text_of legacy) domain))))))))"

section \<open>Signing and verifying\<close>

text \<open>What WebCrypto documents of Ed25519: public keys have 32 bytes, and a signature of a key pair verifies.\<close>

definition ed25519 :: "'m mesh_crypto_scheme \<Rightarrow> bool" where
  "ed25519 cr \<longleftrightarrow> (\<forall>key. length (cr_public cr key) = 32) \<and>
     (\<forall>key input. cr_verify cr (cr_public cr key) (cr_sign cr key input) input)"

lemma decode_encoded [simp]: "decode_base64url (JStr (to_base64url bs)) = Inr bs"
  by (simp add: decode_base64url_def from_to_base64url)

lemma json_r_simps [simp]:
  "json_r (Inr x) = Inr x" "json_r m = Inr y \<longleftrightarrow> m = Inr y"
  by (auto simp: json_r_def split: sum.splits)

lemma js_keys_distinct [simp]:
  "js ''payload'' \<noteq> js ''signerKeyId''" "js ''payload'' \<noteq> js ''signature''" "js ''signerKeyId'' \<noteq> js ''signature''"
  by (simp_all add: js_def)

lemma signed_envelope:
  assumes "ed25519 cr" "sign_envelope cr key payload signer domain = Inr envelope"
  obtains p s where "capture_envelope_payload payload = Inr p"
    "envelope = JObj [(js ''payload'', p), (js ''signerKeyId'', JStr signer), (js ''signature'', JStr s)]"
    "verify_envelope cr envelope (JStr (to_base64url (cr_public cr key))) domain = Inr True"
proof -
  from assms(2) obtain p kind c where p: "capture_envelope_payload payload = Inr p" "payload_kind p = Inr kind"
    "canonicalize_signature_json (cr_number cr) p = Inr c"
    and e: "envelope = JObj [(js ''payload'', p), (js ''signerKeyId'', JStr signer),
      (js ''signature'', JStr (to_base64url (cr_sign cr key (signature_input kind (text_of c) domain))))]"
    by (auto simp: sign_envelope_def bind_r_eq_Inr Let_def)
  have get: "js_get envelope (js ''payload'') = Inr p"
    "js_prop envelope (js ''signature'') = JStr (to_base64url (cr_sign cr key (signature_input kind (text_of c) domain)))"
    unfolding e by (simp_all add: js_get_def js_keys_distinct [symmetric])
  have "import_key (JStr (to_base64url (cr_public cr key))) = Inr (cr_public cr key)"
    using assms(1) by (simp add: import_key_def ed25519_def)
  then have "verify_envelope cr envelope (JStr (to_base64url (cr_public cr key))) domain = Inr True"
    using p get assms(1) by (simp add: verify_envelope_def ed25519_def)
  with that p(1) e show thesis by blast
qed

text \<open>C16. Signing and verifying fit together: an envelope made by \<open>signEnvelope\<close> carries the captured payload and
  the signer's id, and \<open>verifyEnvelope\<close> accepts it with the public key of the signer and the same domain.\<close>

theorem sign_verify_roundtrip:
  assumes "ed25519 cr" "sign_envelope cr key payload signer domain = Inr envelope"
  shows "verify_envelope cr envelope (JStr (to_base64url (cr_public cr key))) domain = Inr True \<and>
    capture_envelope_payload payload = Inr (js_prop envelope (js ''payload'')) \<and>
    js_prop envelope (js ''signerKeyId'') = JStr signer"
  by (rule signed_envelope [OF assms]) (simp add: js_keys_distinct [symmetric])

definition sample_crypto :: mesh_crypto where
  "sample_crypto = \<lparr> cr_sha256 = (\<lambda>bs. bs), cr_public = (\<lambda>k. take 32 (k @ replicate 32 0)), cr_sign = (\<lambda>k input. input),
     cr_verify = (\<lambda>key sig input. sig = input), cr_number = (\<lambda>w. js ''0.5'') \<rparr>"

theorem sign_verify_roundtrip_witness:
  "\<exists>envelope. sign_envelope sample_crypto [7] (JObj [(js ''kind'', JStr (js ''k'')), (js ''n'', JNum 3)]) (js ''me'') (js ''mesh'')
      = Inr envelope \<and>
    verify_envelope sample_crypto envelope (JStr (to_base64url (cr_public sample_crypto [7]))) (js ''mesh'') = Inr True"
proof -
  have ok: "ed25519 sample_crypto" by (simp add: ed25519_def sample_crypto_def min_def)
  have "\<not> isl (sign_envelope sample_crypto [7] (JObj [(js ''kind'', JStr (js ''k'')), (js ''n'', JNum 3)]) (js ''me'')
      (js ''mesh''))"
    by code_simp
  then obtain envelope where "sign_envelope sample_crypto [7] (JObj [(js ''kind'', JStr (js ''k'')), (js ''n'', JNum 3)])
      (js ''me'') (js ''mesh'') = Inr envelope"
    by (metis isl_def old.sum.exhaust)
  then show ?thesis using sign_verify_roundtrip [OF ok] by blast
qed

end
