(* ===== verification/Identity_Authority.thy ===== *)
theory Identity_Authority
  imports Identity_Envelope
begin

text \<open>
  Device certificates, revocations and authority views of the identity package
  (\<open>packages/mesh-identity/src/index.ts\<close>, lines 657 to 1101). A certificate chain
  leads from a device to a root certificate signed by the identity key; revocations are numbered, signed records
  that block a device and everything it enrolled; a view packs both for another peer and is merged only when its
  history extends the one at hand.

  Certificates and revocations are untyped values, as they arrive from peers. Device ids that a set or map holds
  are strings; the verified authority and the verified view, which the code keeps in \<open>WeakMap\<close>s under the objects it
  returned, are the records \<open>device_authority\<close> and \<open>identity_view\<close> themselves.
\<close>

record public_identity =
  pi_person :: jstring
  pi_key :: jstring

abbreviation payload_of :: "jsval \<Rightarrow> jsval" where
  "payload_of v \<equiv> js_prop v (js ''payload'')"

abbreviation device_of :: "jsval \<Rightarrow> jsval" where
  "device_of v \<equiv> js_prop (payload_of v) (js ''deviceId'')"

text \<open>\<open>certificate.payload.deviceId\<close>.\<close>

definition get_device :: "jsval \<Rightarrow> identity_error + jsval" where
  "get_device c = bind_r (js_get c (js ''payload'')) (\<lambda>p. js_get p (js ''deviceId''))"

section \<open>Certificate chains\<close>

fun by_hash_loop :: "'m mesh_crypto_scheme \<Rightarrow> jsval list \<Rightarrow> (jstring \<times> jsval) list \<Rightarrow> identity_error + (jstring \<times> jsval) list" where
  "by_hash_loop cr [] m = Inr m"
| "by_hash_loop cr (c # cs) m = bind_r (certificate_hash cr c) (\<lambda>h. by_hash_loop cr cs (AList.update h c m))"

definition by_hash :: "'m mesh_crypto_scheme \<Rightarrow> jsval list \<Rightarrow> identity_error + (jstring \<times> jsval) list" where
  "by_hash cr certificates = by_hash_loop cr certificates []"

fun find_device :: "jstring \<Rightarrow> jsval list \<Rightarrow> identity_error + jsval option" where
  "find_device d [] = Inr None"
| "find_device d (c # cs) =
     bind_r (get_device c) (\<lambda>i. if i = JStr d then Inr (Some c) else find_device d cs)"

text \<open>\<open>byHash.get\<close>: a key that is not a string is never found.\<close>

definition hash_get :: "(jstring \<times> jsval) list \<Rightarrow> jsval \<Rightarrow> jsval option" where
  "hash_get m k = (case k of JStr h \<Rightarrow> map_of m h | _ \<Rightarrow> None)"

lemma hash_get_mem: "hash_get m k = Some c \<Longrightarrow> c \<in> snd ` set m"
  by (auto simp: hash_get_def split: jsval.splits dest!: map_of_SomeD intro: rev_image_eqI)

text \<open>The device ids a walk towards the root has not met yet.\<close>

definition unseen :: "(jstring \<times> jsval) list \<Rightarrow> jsval \<Rightarrow> jsval list \<Rightarrow> nat" where
  "unseen hashes current seen = card (device_of ` insert current (snd ` set hashes) - set seen)"

lemma unseen_less:
  assumes "hash_get hashes k = Some issuer" "device_of current \<notin> set seen"
  shows "unseen hashes issuer (device_of current # seen) < unseen hashes current seen"
proof -
  have "insert issuer (snd ` set hashes) \<subseteq> insert current (snd ` set hashes)" using hash_get_mem [OF assms(1)] by auto
  then have "device_of ` insert issuer (snd ` set hashes) - set (device_of current # seen) \<subset>
      device_of ` insert current (snd ` set hashes) - set seen"
    using assms(2) by auto
  then show ?thesis unfolding unseen_def by (intro psubset_card_mono) auto
qed

text \<open>The loop of \<open>verifyDeviceCertificateChain\<close> from the certificate \<open>current\<close>.\<close>

function chain_loop ::
  "'m mesh_crypto_scheme \<Rightarrow> public_identity \<Rightarrow> jstring \<Rightarrow> (jstring \<times> jsval) list \<Rightarrow> jsval \<Rightarrow> jsval list \<Rightarrow> identity_error + unit" where
  "chain_loop cr identity domain hashes current seen =
     bind_r (js_get current (js ''payload'')) (\<lambda>p.
     bind_r (js_get p (js ''kind'')) (\<lambda>k.
     if k \<noteq> JStr (js ''device-certificate'') \<or> js_prop p (js ''version'') \<noteq> JNum 1 \<or>
        js_prop p (js ''personId'') \<noteq> JStr (pi_person identity) then Inl InvalidDeviceCertificate
     else
       bind_r (public_key_id cr (js_prop p (js ''devicePublicKey''))) (\<lambda>i.
       if js_prop p (js ''deviceId'') \<noteq> JStr i \<or> JStr i \<in> set seen then Inl InvalidDeviceCertificate
       else if js_prop p (js ''issuerCertificateHash'') = JNull then
         (if js_prop current (js ''signerKeyId'') \<noteq> JStr (pi_person identity) then Inl InvalidRootCertificate
          else bind_r (verify_envelope cr current (JStr (pi_key identity)) domain) (\<lambda>ok.
            if ok then Inr () else Inl InvalidRootCertificate))
       else
         (case hash_get hashes (js_prop p (js ''issuerCertificateHash'')) of
            None \<Rightarrow> Inl InvalidCertificateChain
          | Some issuer \<Rightarrow>
              if \<not> js_truthy issuer then Inl InvalidCertificateChain
              else
                bind_r (js_get issuer (js ''payload'')) (\<lambda>ip.
                bind_r (js_get ip (js ''canEnrollDevices'')) (\<lambda>enroll.
                if \<not> js_truthy enroll \<or> \<not> js_eq (js_prop current (js ''signerKeyId'')) (js_prop ip (js ''deviceId''))
                then Inl InvalidCertificateChain
                else
                  bind_r (verify_envelope cr current (js_prop ip (js ''devicePublicKey'')) domain) (\<lambda>ok.
                  if \<not> ok then Inl InvalidCertificateChain
                  else chain_loop cr identity domain hashes issuer (JStr i # seen))))))))"
  by pat_completeness auto

lemma js_get_Inr: "js_get v k = Inr w \<longleftrightarrow> v \<noteq> JUndef \<and> v \<noteq> JNull \<and> w = js_prop v k"
  by (auto simp: js_get_def)

termination chain_loop
  by (relation "measure (\<lambda>(cr, identity, domain, hashes, current, seen). unseen hashes current seen)")
    (auto simp: js_get_Inr, metis unseen_less)

declare chain_loop.simps [simp del]

definition verify_device_certificate_chain ::
  "'m mesh_crypto_scheme \<Rightarrow> public_identity \<Rightarrow> jstring \<Rightarrow> jsval list \<Rightarrow> jstring \<Rightarrow> identity_error + jsval" where
  "verify_device_certificate_chain cr identity d certificates domain =
     bind_r (public_key_id cr (JStr (pi_key identity))) (\<lambda>i.
     if i \<noteq> pi_person identity then Inl IdentityKeyMismatch
     else if length certificates < 1 \<or> 32 < length certificates then Inl InvalidCertificateChain
     else
       bind_r (by_hash cr certificates) (\<lambda>hashes.
       bind_r (find_device d certificates) (\<lambda>leaf.
       case leaf of
         None \<Rightarrow> Inl MissingDeviceCertificate
       | Some leaf \<Rightarrow>
           bind_r (chain_loop cr identity domain hashes leaf []) (\<lambda>_.
           Inr (js_prop (payload_of leaf) (js ''devicePublicKey''))))))"

section \<open>Revoked chains and descendants\<close>

function revoked_loop ::
  "(jstring \<times> jsval) list \<Rightarrow> jstring list \<Rightarrow> jsval \<Rightarrow> jsval list \<Rightarrow> identity_error + bool" where
  "revoked_loop hashes revoked current seen =
     bind_r (get_device current) (\<lambda>i.
     if i \<in> JStr ` set revoked \<or> i \<in> set seen then Inr True
     else if js_prop (payload_of current) (js ''issuerCertificateHash'') = JNull then Inr False
     else
       (case hash_get hashes (js_prop (payload_of current) (js ''issuerCertificateHash'')) of
          None \<Rightarrow> Inr True
        | Some issuer \<Rightarrow> if \<not> js_truthy issuer then Inr True else revoked_loop hashes revoked issuer (i # seen)))"
  by pat_completeness auto

lemma get_device_Inr: "get_device c = Inr i \<Longrightarrow> i = device_of c"
  by (auto simp: get_device_def bind_r_eq_Inr js_get_Inr)

termination revoked_loop
  by (relation "measure (\<lambda>(hashes, revoked, current, seen). unseen hashes current seen)")
    (auto dest!: get_device_Inr intro: unseen_less)

declare revoked_loop.simps [simp del]

definition is_chain_revoked ::
  "'m mesh_crypto_scheme \<Rightarrow> jstring \<Rightarrow> jstring list \<Rightarrow> jsval list \<Rightarrow> identity_error + bool" where
  "is_chain_revoked cr d revoked certificates =
     bind_r (by_hash cr certificates) (\<lambda>hashes.
     bind_r (find_device d certificates) (\<lambda>c.
     case c of None \<Rightarrow> Inr True | Some c \<Rightarrow> revoked_loop hashes revoked c []))"

function descendant_loop :: "(jstring \<times> jsval) list \<Rightarrow> jstring \<Rightarrow> jsval \<Rightarrow> jsval list \<Rightarrow> identity_error + bool" where
  "descendant_loop hashes root current seen =
     bind_r (get_device current) (\<lambda>i.
     if i = JStr root then Inr True
     else if i \<in> set seen then Inr False
     else if js_prop (payload_of current) (js ''issuerCertificateHash'') = JNull then Inr False
     else
       (case hash_get hashes (js_prop (payload_of current) (js ''issuerCertificateHash'')) of
          None \<Rightarrow> Inr False
        | Some issuer \<Rightarrow> if \<not> js_truthy issuer then Inr False else descendant_loop hashes root issuer (i # seen)))"
  by pat_completeness auto

termination descendant_loop
  by (relation "measure (\<lambda>(hashes, root, current, seen). unseen hashes current seen)")
    (auto dest!: get_device_Inr intro: unseen_less)

declare descendant_loop.simps [simp del]

definition is_certificate_descendant ::
  "'m mesh_crypto_scheme \<Rightarrow> jsval \<Rightarrow> jstring \<Rightarrow> jsval list \<Rightarrow> identity_error + bool" where
  "is_certificate_descendant cr certificate root certificates =
     bind_r (by_hash cr certificates) (\<lambda>hashes.
     if \<not> js_truthy certificate then Inr False else descendant_loop hashes root certificate [])"

fun descendants_loop ::
  "'m mesh_crypto_scheme \<Rightarrow> jstring \<Rightarrow> jsval list \<Rightarrow> jsval list \<Rightarrow> jsval list \<Rightarrow> identity_error + jsval list" where
  "descendants_loop cr root certificates [] subtree = Inr subtree"
| "descendants_loop cr root certificates (c # cs) subtree =
     bind_r (is_certificate_descendant cr c root certificates) (\<lambda>d.
     if d then bind_r (get_device c) (\<lambda>i. descendants_loop cr root certificates cs (List.insert i subtree))
     else descendants_loop cr root certificates cs subtree)"

definition identity_device_descendants ::
  "'m mesh_crypto_scheme \<Rightarrow> jstring \<Rightarrow> jsval list \<Rightarrow> identity_error + jsval list" where
  "identity_device_descendants cr root certificates = descendants_loop cr root certificates certificates []"

fun management_loop ::
  "'m mesh_crypto_scheme \<Rightarrow> public_identity \<Rightarrow> jsval list \<Rightarrow> jstring list \<Rightarrow> jstring \<Rightarrow> jsval list \<Rightarrow> identity_error + bool" where
  "management_loop cr identity certificates revoked domain [] = Inr False"
| "management_loop cr identity certificates revoked domain (c # cs) =
     bind_r (js_get c (js ''payload'')) (\<lambda>p.
     bind_r (js_get p (js ''canEnrollDevices'')) (\<lambda>enroll.
     case (js_truthy enroll, js_prop p (js ''deviceId'')) of
       (True, JStr d) \<Rightarrow>
         bind_r (is_chain_revoked cr d revoked certificates) (\<lambda>r.
         if r then management_loop cr identity certificates revoked domain cs
         else
           (case verify_device_certificate_chain cr identity d certificates domain of
              Inr key \<Rightarrow> Inr True
            | Inl e \<Rightarrow> management_loop cr identity certificates revoked domain cs))
     | _ \<Rightarrow> management_loop cr identity certificates revoked domain cs))"

definition active_management_devices ::
  "'m mesh_crypto_scheme \<Rightarrow> public_identity \<Rightarrow> jsval list \<Rightarrow> jstring list \<Rightarrow> jstring \<Rightarrow> identity_error + bool" where
  "active_management_devices cr identity certificates revoked domain =
     management_loop cr identity certificates revoked domain certificates"

section \<open>Device authority\<close>

fun by_device_loop :: "jsval list \<Rightarrow> (jstring \<times> jsval) list \<Rightarrow> identity_error + (jstring \<times> jsval) list" where
  "by_device_loop [] m = Inr m"
| "by_device_loop (c # cs) m =
     (case device_of c of
        JStr d \<Rightarrow> if map_of m d \<noteq> None then Inl ConflictingDeviceCertificate else by_device_loop cs (m @ [(d, c)])
      | _ \<Rightarrow> Inl ConflictingDeviceCertificate)"

fun verify_chains ::
  "'m mesh_crypto_scheme \<Rightarrow> public_identity \<Rightarrow> jsval list \<Rightarrow> jstring \<Rightarrow> jstring list \<Rightarrow> identity_error + unit" where
  "verify_chains cr identity certificates domain [] = Inr ()"
| "verify_chains cr identity certificates domain (d # ds) =
     bind_r (verify_device_certificate_chain cr identity d certificates domain) (\<lambda>_.
     verify_chains cr identity certificates domain ds)"

text \<open>The order of the revocations. A revision that is not an integer compares as \<open>NaN\<close> or is refused afterwards,
  wherever it was sorted to.\<close>

definition revision_le :: "jsval \<Rightarrow> jsval \<Rightarrow> bool" where
  "revision_le a b =
     (case (js_prop (payload_of a) (js ''revision''), js_prop (payload_of b) (js ''revision'')) of
        (JNum m, JNum n) \<Rightarrow> m \<le> n
      | _ \<Rightarrow> True)"

text \<open>\<open>/^[A-Za-z0-9_-]{43}$/u\<close>.\<close>

definition is_hash :: "jstring \<Rightarrow> bool" where
  "is_hash s \<longleftrightarrow> length s = 43 \<and> list_all url_safe s"

fun is_hash_value :: "jsval \<Rightarrow> bool" where
  "is_hash_value (JStr s) = is_hash s"
| "is_hash_value v = False"

fun cover_subtree :: "jsval list \<Rightarrow> jsval list \<Rightarrow> identity_error + jsval list" where
  "cover_subtree [] covered = Inr covered"
| "cover_subtree (d # ds) covered = (if d \<in> set covered then Inl OverlappingRevocation else cover_subtree ds (d # covered))"

fun frontier_loop :: "jsval list \<Rightarrow> (jstring \<times> jsval) list \<Rightarrow> nat \<Rightarrow> identity_error + nat" where
  "frontier_loop subtree [] observed = Inr observed"
| "frontier_loop subtree ((d, v) # es) observed =
     (case v of
        JArr hashes \<Rightarrow>
          if JStr d \<notin> set subtree \<or> 512 < length hashes \<or> \<not> list_all is_hash_value hashes then Inl InvalidFrontier
          else if 512 < observed + length hashes then Inl FrontierTooLarge
          else frontier_loop subtree es (observed + length hashes)
      | _ \<Rightarrow> Inl InvalidFrontier)"

record authority_walk =
  aw_revoked :: "jstring list"
  aw_covered :: "jsval list"
  aw_total :: nat

text \<open>The guard of one revocation: its shape, its revision and the standing of its target and its signer.\<close>

definition revocation_shape :: "public_identity \<Rightarrow> (jstring \<times> jsval) list \<Rightarrow> nat \<Rightarrow> jsval \<Rightarrow> jstring \<Rightarrow> jstring \<Rightarrow> bool" where
  "revocation_shape identity devices index p d signer \<longleftrightarrow>
     js_prop p (js ''kind'') = JStr (js ''mesh-identity-device-revocation'') \<and> js_prop p (js ''version'') = JNum 1 \<and>
     join_comma (js_sort (\<le>) (map fst (js_entries p))) = js ''deviceId,kind,personId,profileOperationHashes,revision,version'' \<and>
     js_prop p (js ''personId'') = JStr (pi_person identity) \<and> map_of devices d \<noteq> None \<and>
     js_prop p (js ''revision'') = JNum (int index + 1) \<and> is_safe_integer (int index + 1) \<and>
     is_record (js_prop p (js ''profileOperationHashes'')) \<and>
     length (js_entries (js_prop p (js ''profileOperationHashes''))) \<le> 256 \<and> signer \<noteq> d"

definition revocation_step ::
  "'m mesh_crypto_scheme \<Rightarrow> public_identity \<Rightarrow> jsval list \<Rightarrow> (jstring \<times> jsval) list \<Rightarrow> jstring \<Rightarrow> nat \<Rightarrow> jsval
     \<Rightarrow> authority_walk \<Rightarrow> identity_error + authority_walk" where
  "revocation_step cr identity certificates devices domain index r w =
     (case (js_prop (payload_of r) (js ''deviceId''), js_prop r (js ''signerKeyId'')) of
        (JStr d, JStr signer) \<Rightarrow>
          if \<not> revocation_shape identity devices index (payload_of r) d signer \<or> d \<in> set (aw_revoked w)
          then Inl InvalidRevocation
          else
            bind_r (is_chain_revoked cr signer (aw_revoked w) certificates) (\<lambda>s.
            if s then Inl InvalidRevocation else
            bind_r (is_chain_revoked cr d (aw_revoked w) certificates) (\<lambda>t.
            if t then Inl InvalidRevocation else
            bind_r (identity_device_descendants cr d certificates) (\<lambda>subtree.
            bind_r (cover_subtree subtree (aw_covered w)) (\<lambda>covered.
            bind_r (frontier_loop subtree (js_entries (js_prop (payload_of r) (js ''profileOperationHashes''))) 0) (\<lambda>observed.
            if 512 < aw_total w + observed then Inl FrontierHistoryTooLarge else
            case map_of devices signer of
              None \<Rightarrow> Inl NoRevocationAuthority
            | Some c \<Rightarrow>
                if \<not> js_truthy (js_prop (payload_of c) (js ''canEnrollDevices'')) then Inl NoRevocationAuthority
                else
                  bind_r (verify_device_certificate_chain cr identity signer certificates domain) (\<lambda>key.
                  bind_r (verify_envelope cr r key domain) (\<lambda>ok.
                  if \<not> ok then Inl InvalidRevocationSignature
                  else
                    bind_r (active_management_devices cr identity certificates (aw_revoked w @ [d]) domain) (\<lambda>active.
                    if \<not> active then Inl LastManagementAuthority
                    else Inr \<lparr> aw_revoked = aw_revoked w @ [d], aw_covered = covered, aw_total = aw_total w + observed \<rparr>))))))))
      | _ \<Rightarrow> Inl InvalidRevocation)"

fun revocations_loop ::
  "'m mesh_crypto_scheme \<Rightarrow> public_identity \<Rightarrow> jsval list \<Rightarrow> (jstring \<times> jsval) list \<Rightarrow> jstring \<Rightarrow> nat \<Rightarrow> jsval list
     \<Rightarrow> authority_walk \<Rightarrow> identity_error + authority_walk" where
  "revocations_loop cr identity certificates devices domain index [] w = Inr w"
| "revocations_loop cr identity certificates devices domain index (r # rs) w =
     bind_r (revocation_step cr identity certificates devices domain index r w) (\<lambda>w.
     revocations_loop cr identity certificates devices domain (index + 1) rs w)"

fun blocked_loop :: "'m mesh_crypto_scheme \<Rightarrow> jsval list \<Rightarrow> jstring list \<Rightarrow> jstring list \<Rightarrow> identity_error + jstring list" where
  "blocked_loop cr certificates revoked [] = Inr []"
| "blocked_loop cr certificates revoked (d # ds) =
     bind_r (is_chain_revoked cr d revoked certificates) (\<lambda>b.
     bind_r (blocked_loop cr certificates revoked ds) (\<lambda>bs. Inr (if b then d # bs else bs)))"

record device_authority =
  da_identity :: public_identity
  da_certificates :: "jsval list"
  da_revocations :: "jsval list"
  da_ordered :: "jsval list"
  da_revoked :: "jstring list"
  da_blocked :: "jstring list"

fun js_array :: "jsval \<Rightarrow> jsval list option" where
  "js_array (JArr vs) = Some vs"
| "js_array v = None"

definition verify_identity_device_authority ::
  "'m mesh_crypto_scheme \<Rightarrow> public_identity \<Rightarrow> jsval \<Rightarrow> jstring \<Rightarrow> identity_error + device_authority" where
  "verify_identity_device_authority cr identity evidence domain =
     (case (js_array (js_prop evidence (js ''certificates'')), js_array (js_prop evidence (js ''revocations''))) of
        (Some certificates, Some revocations) \<Rightarrow>
          if length certificates < 1 \<or> 256 < length certificates \<or> 256 < length revocations
          then Inl InvalidAuthorityEvidence
          else
            bind_r (by_device_loop certificates []) (\<lambda>devices.
            bind_r (verify_chains cr identity certificates domain (map fst devices)) (\<lambda>_.
            let ordered = js_sort revision_le revocations in
            bind_r (revocations_loop cr identity certificates devices domain 0 ordered
              \<lparr> aw_revoked = [], aw_covered = [], aw_total = 0 \<rparr>) (\<lambda>w.
            bind_r (blocked_loop cr certificates (aw_revoked w) (map fst devices)) (\<lambda>blocked.
            Inr \<lparr> da_identity = identity, da_certificates = certificates, da_revocations = revocations,
              da_ordered = ordered, da_revoked = aw_revoked w, da_blocked = blocked \<rparr>))))
      | _ \<Rightarrow> Inl InvalidAuthorityEvidence)"

definition authorize_identity_device ::
  "'m mesh_crypto_scheme \<Rightarrow> device_authority \<Rightarrow> jstring \<Rightarrow> jstring \<Rightarrow> identity_error + jsval" where
  "authorize_identity_device cr authority d domain =
     (if d \<in> set (da_blocked authority) then Inl DeviceRevoked
      else
        bind_r (find_device d (da_certificates authority)) (\<lambda>c.
        case c of
          None \<Rightarrow> Inl NoManagementAuthority
        | Some c \<Rightarrow>
            if \<not> js_truthy (js_prop (payload_of c) (js ''canEnrollDevices'')) then Inl NoManagementAuthority
            else verify_device_certificate_chain cr (da_identity authority) d (da_certificates authority) domain))"

text \<open>\<open>identityDeviceCertificateChain\<close>: the walk has no bound of its own.\<close>

partial_function (option) chain_walk ::
  "(jstring \<times> jsval) list \<Rightarrow> jsval \<Rightarrow> jsval list \<Rightarrow> (identity_error + jsval list) option" where
  "chain_walk hashes current chain =
     (let p = payload_of current; h = js_prop p (js ''issuerCertificateHash'') in
      if p = JUndef \<or> p = JNull then Some (Inl TypeFault)
      else if h = JNull then Some (Inr (chain @ [current]))
      else
        (case hash_get hashes h of
           None \<Rightarrow> Some (Inl InvalidCertificateChain)
         | Some issuer \<Rightarrow>
             if \<not> js_truthy issuer then Some (Inl InvalidCertificateChain)
             else chain_walk hashes issuer (chain @ [current])))"

declare chain_walk.simps [code]

definition identity_device_certificate_chain ::
  "'m mesh_crypto_scheme \<Rightarrow> public_identity \<Rightarrow> jsval \<Rightarrow> jstring \<Rightarrow> jstring \<Rightarrow> (identity_error + jsval list) option" where
  "identity_device_certificate_chain cr identity evidence d domain =
     (case verify_identity_device_authority cr identity evidence domain of
        Inl e \<Rightarrow> Some (Inl e)
      | Inr authority \<Rightarrow>
          if d \<in> set (da_blocked authority) then Some (Inl DeviceRevoked)
          else
            (case (by_hash cr (da_certificates authority), find_device d (da_certificates authority)) of
               (Inr hashes, Inr (Some c)) \<Rightarrow> chain_walk hashes c []
             | (Inl e, _) \<Rightarrow> Some (Inl e)
             | (_, Inl e) \<Rightarrow> Some (Inl e)
             | (_, Inr None) \<Rightarrow> Some (Inl MissingDeviceCertificate)))"

section \<open>Authority views\<close>

record identity_view =
  iv_person :: jstring
  iv_key :: jstring
  iv_certificates :: "jsval list"
  iv_revocations :: "jsval list"
  iv_revision :: nat
  iv_record_hash :: jstring
  iv_digest :: jstring

definition view_identity :: "identity_view \<Rightarrow> public_identity" where
  "view_identity view = \<lparr> pi_person = iv_person view, pi_key = iv_key view \<rparr>"

definition evidence_json :: "jsval list \<Rightarrow> jsval list \<Rightarrow> jsval" where
  "evidence_json certificates revocations = JObj [(js ''certificates'', JArr certificates), (js ''revocations'', JArr revocations)]"

definition head_json :: "nat \<Rightarrow> jstring \<Rightarrow> jsval" where
  "head_json revision record_hash = JObj [(js ''revision'', JNum (int revision)), (js ''recordHash'', JStr record_hash)]"

definition identity_authority_head ::
  "'m mesh_crypto_scheme \<Rightarrow> public_identity \<Rightarrow> jsval list \<Rightarrow> identity_error + nat \<times> jstring" where
  "identity_authority_head cr identity revocations =
     bind_r (hash_json cr (if revocations \<noteq> [] \<and> js_truthy (last revocations) then last revocations
       else JObj [(js ''kind'', JStr (js ''mesh-identity-revocation-genesis'')), (js ''version'', JNum 1),
         (js ''personId'', JStr (pi_person identity)), (js ''identityPublicKey'', JStr (pi_key identity))])) (\<lambda>h.
     Inr (length revocations, h))"

definition digest_json :: "public_identity \<Rightarrow> jsval list \<Rightarrow> jsval list \<Rightarrow> jsval" where
  "digest_json identity certificates revocations =
     JObj [(js ''kind'', JStr (js ''mesh-identity-authority-view'')), (js ''version'', JNum 1),
       (js ''personId'', JStr (pi_person identity)), (js ''identityPublicKey'', JStr (pi_key identity)),
       (js ''certificates'', JArr certificates), (js ''revocations'', JArr revocations)]"

text \<open>Certificates are ordered by their device ids, which are strings.\<close>

definition device_le :: "jsval \<Rightarrow> jsval \<Rightarrow> bool" where
  "device_le a b =
     (case (device_of a, device_of b) of (JStr x, JStr y) \<Rightarrow> x \<le> y | _ \<Rightarrow> True)"

definition make_identity_authority_view ::
  "'m mesh_crypto_scheme \<Rightarrow> public_identity \<Rightarrow> jsval list \<Rightarrow> jsval list \<Rightarrow> identity_error + identity_view" where
  "make_identity_authority_view cr identity certificates_value revocations_value =
     (let certificates = js_sort device_le certificates_value; revocations = js_sort revision_le revocations_value in
      bind_r (identity_authority_head cr identity revocations) (\<lambda>(revision, record_hash).
      bind_r (hash_json cr (digest_json identity certificates revocations)) (\<lambda>digest.
      Inr \<lparr> iv_person = pi_person identity, iv_key = pi_key identity, iv_certificates = certificates,
        iv_revocations = revocations, iv_revision = revision, iv_record_hash = record_hash, iv_digest = digest \<rparr>)))"

text \<open>The view as the untyped value that other peers receive.\<close>

definition view_json :: "identity_view \<Rightarrow> jsval" where
  "view_json view =
     JObj [(js ''kind'', JStr (js ''mesh-identity-authority-view'')), (js ''version'', JNum 1),
       (js ''personId'', JStr (iv_person view)), (js ''identityPublicKey'', JStr (iv_key view)),
       (js ''certificates'', JArr (iv_certificates view)), (js ''revocations'', JArr (iv_revocations view)),
       (js ''revocationHead'', head_json (iv_revision view) (iv_record_hash view)),
       (js ''viewDigest'', JStr (iv_digest view))]"

definition has_exact_keys :: "jsval \<Rightarrow> jstring list \<Rightarrow> bool" where
  "has_exact_keys v keys \<longleftrightarrow>
     length (js_entries v) = length keys \<and> (\<forall>k \<in> set keys. k \<in> set (map fst (js_entries v)))"

definition view_shape :: "jsval \<Rightarrow> jstring \<Rightarrow> bool" where
  "view_shape v digest \<longleftrightarrow>
     is_record v \<and> has_exact_keys v (map js [''kind'', ''version'', ''personId'', ''identityPublicKey'', ''certificates'',
       ''revocations'', ''revocationHead'', ''viewDigest'']) \<and>
     js_prop v (js ''kind'') = JStr (js ''mesh-identity-authority-view'') \<and> js_prop v (js ''version'') = JNum 1 \<and>
     (let h = js_prop v (js ''revocationHead'') in
      is_record h \<and> has_exact_keys h (map js [''revision'', ''recordHash'']) \<and>
      (case js_prop h (js ''revision'') of JNum n \<Rightarrow> is_safe_integer n | _ \<Rightarrow> False) \<and>
      js_str (js_prop h (js ''recordHash'')) \<noteq> None) \<and> is_hash digest"

definition verify_identity_authority_view ::
  "'m mesh_crypto_scheme \<Rightarrow> jsval \<Rightarrow> jstring \<Rightarrow> identity_error + identity_view" where
  "verify_identity_authority_view cr v domain =
     (case (js_str (js_prop v (js ''personId'')), js_str (js_prop v (js ''identityPublicKey'')),
        js_array (js_prop v (js ''certificates'')), js_array (js_prop v (js ''revocations'')),
        js_str (js_prop v (js ''viewDigest''))) of
        (Some person, Some key, Some certificates, Some revocations, Some digest) \<Rightarrow>
          if \<not> view_shape v digest then Inl InvalidAuthorityView
          else
            let identity = \<lparr> pi_person = person, pi_key = key \<rparr> in
            bind_r (public_key_id cr (JStr key)) (\<lambda>i.
            if i \<noteq> person then Inl ViewKeyMismatch
            else
              bind_r (verify_identity_device_authority cr identity (evidence_json certificates revocations) domain) (\<lambda>_.
              bind_r (identity_authority_head cr identity revocations) (\<lambda>(revision, record_hash).
              bind_r (canonical_text cr (js_prop v (js ''revocationHead''))) (\<lambda>have_head.
              bind_r (canonical_text cr (head_json revision record_hash)) (\<lambda>want_head.
              if have_head \<noteq> want_head then Inl InvalidRevocationHead
              else
                bind_r (make_identity_authority_view cr identity certificates revocations) (\<lambda>expected.
                if digest \<noteq> iv_digest expected then Inl ViewDigestMismatch else Inr expected))))))
      | _ \<Rightarrow> Inl InvalidAuthorityView)"

text \<open>\<open>mergeIdentityAuthorityViews\<close>. The incoming history may be shorter only in the loop's view: the element is then
  \<open>undefined\<close>.\<close>

fun prefix_loop :: "'m mesh_crypto_scheme \<Rightarrow> jsval list \<Rightarrow> jsval list \<Rightarrow> identity_error + unit" where
  "prefix_loop cr [] incoming = Inr ()"
| "prefix_loop cr (r # rs) incoming =
     bind_r (canonical_text cr r) (\<lambda>a.
     bind_r (canonical_text cr (case incoming of [] \<Rightarrow> JUndef | i # _ \<Rightarrow> i)) (\<lambda>b.
     if a \<noteq> b then Inl RevocationFork else prefix_loop cr rs (tl incoming)))"

fun catalog_loop :: "'m mesh_crypto_scheme \<Rightarrow> jsval list \<Rightarrow> (jsval \<times> jsval) list \<Rightarrow> identity_error + (jsval \<times> jsval) list" where
  "catalog_loop cr [] m = Inr m"
| "catalog_loop cr (c # cs) m =
     (case map_of m (device_of c) of
        None \<Rightarrow> catalog_loop cr cs (AList.update (device_of c) c m)
      | Some previous \<Rightarrow>
          bind_r (canonical_text cr previous) (\<lambda>a.
          bind_r (canonical_text cr c) (\<lambda>b.
          if a \<noteq> b then Inl ConflictingCatalog else catalog_loop cr cs (AList.update (device_of c) c m))))"

definition merge_identity_authority_views ::
  "'m mesh_crypto_scheme \<Rightarrow> jsval \<Rightarrow> jsval \<Rightarrow> jstring \<Rightarrow> identity_error + identity_view" where
  "merge_identity_authority_views cr current_value incoming_value domain =
     bind_r (verify_identity_authority_view cr current_value domain) (\<lambda>current.
     bind_r (verify_identity_authority_view cr incoming_value domain) (\<lambda>incoming.
     if iv_person current \<noteq> iv_person incoming \<or> iv_key current \<noteq> iv_key incoming then Inl DifferentPeople
     else if iv_revision incoming < iv_revision current then Inl StaleRevocationHead
     else
       bind_r (prefix_loop cr (iv_revocations current) (iv_revocations incoming)) (\<lambda>_.
       bind_r (catalog_loop cr (iv_certificates current @ iv_certificates incoming) []) (\<lambda>catalog.
       bind_r (make_identity_authority_view cr (view_identity current) (map snd catalog) (iv_revocations incoming)) (\<lambda>merged.
       verify_identity_authority_view cr (view_json merged) domain)))))"

text \<open>\<open>authorizeIdentityDataDevice\<close>: any certified device, also one that may not enroll others.\<close>

definition authorize_identity_data_device ::
  "'m mesh_crypto_scheme \<Rightarrow> identity_view \<Rightarrow> jstring \<Rightarrow> jstring \<Rightarrow> identity_error + jsval" where
  "authorize_identity_data_device cr view d domain =
     bind_r (verify_identity_device_authority cr (view_identity view)
       (evidence_json (iv_certificates view) (iv_revocations view)) domain) (\<lambda>authority.
     if d \<in> set (da_blocked authority) then Inl DeviceRevoked
     else verify_device_certificate_chain cr (view_identity view) d (da_certificates authority) domain)"

end
