(* ===== verification/Signed_Records.thy ===== *)
theory Signed_Records
  imports Identity_Authority
begin

text \<open>
  What the packages for messages, contacts and calls share: the profile that signs, verification of a device of an
  untyped identity, text normalization, times, and blob descriptors (\<open>packages/mesh-blob/src/descriptor.ts\<close>).
  Conversations and channels are Automerge documents; here they are plain values, a change is an update of the
  value, and loading, saving and merging documents are parameters. Keys of an object are its own properties; names
  inherited from \<open>Object.prototype\<close> are not modelled.
\<close>

record chat_env = mesh_crypto +
  ch_parse :: "jsval \<Rightarrow> int option"
  ch_iso :: "int \<Rightarrow> jstring"
  ch_locale :: "jstring \<Rightarrow> jstring \<Rightarrow> int"
  ch_load :: "bytes \<Rightarrow> jsval option"
  ch_save :: "jsval \<Rightarrow> bytes"
  ch_merge :: "jsval \<Rightarrow> jsval \<Rightarrow> jsval"

datatype messaging_fault =
    InvalidTitle | InvalidBody | TooManyAttachments | NotParticipant | ParticipantMismatch | MissingGrant | InvalidGrant
  | IssuerNotAdmin | InvalidGrantSignature | InvalidMessage | InvalidAttachment | InvalidTimestamp | AuthorNotParticipant
  | InvalidMessageSignature | MessageExists | InvalidConversation | InvalidCreator | InvalidParticipantId | InvalidMessageId
  | ConversationMismatch

datatype contact_fault =
    InvalidName | InvalidContactBody | InvalidContactTimestamp | FutureTimestamp | RequestExpired | RecordTooLarge | InvalidRequest
  | InvalidRequestSignature | MissingChannelSecret | InvalidDecision | InvalidDecisionSignature | InvalidContactMessage
  | InvalidContactSignature | NotAccepted | NotChannelParticipant | ChannelIdentityMismatch | ContactMessageExists
  | InvalidChannel | InvalidBinding | TooManyMessages | InvalidContactMessageId | ChannelMismatch

datatype call_fault =
    SessionBusy | InvalidSession | CannotConnect | CannotActivate | NoSession | NoVideoSession
  | InvalidSignal | ExpiredSignal | CallerNotMember | InvalidSignalSignature

datatype chat_error =
    IdentityFault identity_error | ValueFault | RangeFault | LoadFault | BlobNameRequired | InvalidBlobDescriptor
  | Messaging messaging_fault | Contact contact_fault | Call call_fault

definition identity_r :: "identity_error + 'a \<Rightarrow> chat_error + 'a" where
  "identity_r m = (case m of Inl e \<Rightarrow> Inl (IdentityFault e) | Inr x \<Rightarrow> Inr x)"

text \<open>\<open>value.key\<close>, and \<open>value[key]\<close> with a key that is converted to a string.\<close>

definition get_r :: "jsval \<Rightarrow> jstring \<Rightarrow> chat_error + jsval" where
  "get_r v k = identity_r (js_get v k)"

fun key_text :: "(64 word \<Rightarrow> jstring) \<Rightarrow> jsval \<Rightarrow> jstring option" where
  "key_text fmt (JStr s) = Some s"
| "key_text fmt (JNum n) = Some (dec_int n)"
| "key_text fmt (JNumOther w) = Some (fmt w)"
| "key_text fmt (JBool b) = Some (if b then js ''true'' else js ''false'')"
| "key_text fmt JUndef = Some (js ''undefined'')"
| "key_text fmt JNull = Some (js ''null'')"
| "key_text fmt v = None"

definition js_index :: "'m mesh_crypto_scheme \<Rightarrow> jsval \<Rightarrow> jsval \<Rightarrow> jsval" where
  "js_index cr v k = (case key_text (cr_number cr) k of None \<Rightarrow> JUndef | Some t \<Rightarrow> js_prop v t)"

text \<open>\<open>JSON.parse(JSON.stringify(value))\<close> of a value that is not \<open>undefined\<close>.\<close>

fun js_clone :: "jsval \<Rightarrow> jsval"
  and clone_list :: "jsval list \<Rightarrow> jsval list"
  and clone_props :: "(jstring \<times> jsval) list \<Rightarrow> (jstring \<times> jsval) list" where
  "js_clone JUndef = JNull"
| "js_clone JNull = JNull"
| "js_clone (JBool b) = JBool b"
| "js_clone (JNum n) = JNum n"
| "js_clone (JNumOther w) = (if finite_bits w then JNumOther w else JNull)"
| "js_clone (JStr s) = JStr s"
| "js_clone (JBytes bs) = JObj (map (\<lambda>(i, b). (dec_nat i, JNum (uint b))) (zip [0..<length bs] bs))"
| "js_clone (JArr vs) = JArr (clone_list vs)"
| "js_clone (JObj ps) = JObj (clone_props ps)"
| "clone_list [] = []"
| "clone_list (v # vs) = js_clone v # clone_list vs"
| "clone_props [] = []"
| "clone_props ((k, v) # ps) = (if v = JUndef then clone_props ps else (k, js_clone v) # clone_props ps)"

text \<open>The profile that signs: its identity and certificate as values, its device id and the device's private key.\<close>

record local_profile =
  lp_identity :: jsval
  lp_device :: jstring
  lp_certificate :: jsval
  lp_device_key :: bytes

abbreviation person_of :: "jsval \<Rightarrow> jsval" where
  "person_of identity \<equiv> js_prop identity (js ''personId'')"

text \<open>\<open>verifyDeviceCertificateChain\<close> with its default domain on an identity, a device id and certificates that come
  from a document. A device id that is not a string names no certificate.\<close>

definition verify_device :: "'m mesh_crypto_scheme \<Rightarrow> jsval \<Rightarrow> jsval \<Rightarrow> jsval \<Rightarrow> chat_error + jsval" where
  "verify_device cr identity device certificates =
     identity_r (bind_r (js_get identity (js ''publicKey'')) (\<lambda>k.
       bind_r (public_key_id cr k) (\<lambda>i.
       if person_of identity \<noteq> JStr i then Inl IdentityKeyMismatch
       else
         (case (certificates, device, k) of
            (JArr cs, JStr d, JStr key) \<Rightarrow>
              verify_device_certificate_chain cr \<lparr> pi_person = i, pi_key = key \<rparr> d cs (js ''MATCH/1'')
          | (JArr cs, _, _) \<Rightarrow> if cs = [] \<or> 32 < length cs then Inl InvalidCertificateChain else Inl MissingDeviceCertificate
          | _ \<Rightarrow> Inl InvalidCertificateChain))))"

definition verify_signed :: "'m mesh_crypto_scheme \<Rightarrow> jsval \<Rightarrow> jsval \<Rightarrow> jstring \<Rightarrow> chat_error \<Rightarrow> chat_error + unit" where
  "verify_signed cr envelope key domain e =
     bind_r (identity_r (verify_envelope cr envelope key domain)) (\<lambda>ok. assert_r ok e)"

text \<open>Whether some certificate of the list is for the device; a value without a payload throws.\<close>

fun some_device :: "jsval \<Rightarrow> jsval list \<Rightarrow> chat_error + bool" where
  "some_device d [] = Inr False"
| "some_device d (c # cs) = bind_r (identity_r (get_device c)) (\<lambda>i. if js_eq i d then Inr True else some_device d cs)"

section \<open>Text and time\<close>

fun is_str :: "jsval \<Rightarrow> bool" where
  "is_str (JStr s) = True"
| "is_str v = False"

text \<open>\<open>value.replace(/\s+/g, " ")\<close>.\<close>

fun collapse_space :: "jstring \<Rightarrow> jstring" where
  "collapse_space [] = []"
| "collapse_space [c] = [if js_space c then 32 else c]"
| "collapse_space (c # d # s) =
     (if js_space c then (if js_space d then collapse_space (d # s) else 32 # collapse_space (d # s))
      else c # collapse_space (d # s))"

text \<open>\<open>value.trim()\<close> throws on a value that is not a string.\<close>

definition trim_r :: "jsval \<Rightarrow> chat_error + jstring" where
  "trim_r v = (case v of JStr s \<Rightarrow> Inr (js_trim s) | _ \<Rightarrow> Inl ValueFault)"

text \<open>\<open>new Date(ms).toISOString()\<close> throws outside the range of dates.\<close>

definition iso_text :: "'m chat_env_scheme \<Rightarrow> int \<Rightarrow> chat_error + jstring" where
  "iso_text env t = (if \<bar>t\<bar> \<le> 8640000000000000 then Inr (ch_iso env t) else Inl RangeFault)"

text \<open>What is relied on of dates: the text of a date parses to the date.\<close>

definition iso_dates :: "'m chat_env_scheme \<Rightarrow> bool" where
  "iso_dates env \<longleftrightarrow> (\<forall>t. \<bar>t\<bar> \<le> 8640000000000000 \<longrightarrow> ch_parse env (JStr (ch_iso env t)) = Some t)"

section \<open>Blob descriptors\<close>

definition max_blob_bytes :: int where "max_blob_bytes = 8 * 1024 * 1024"
definition max_attachments :: nat where "max_attachments = 4"

text \<open>\<open>normalizeName\<close>: control characters are dropped and the rest is cut to 180 code units.\<close>

definition blob_name :: "jsval \<Rightarrow> chat_error + jstring" where
  "blob_name v = bind_r (trim_r v) (\<lambda>t.
     let name = take 180 (filter (\<lambda>c. \<not> (c \<le> 0x1F \<or> c = 0x7F)) t) in
     if name = [] then Inl BlobNameRequired else Inr name)"

text \<open>\<open>toLowerCase\<close> as far as the test after it can tell: besides the Latin letters only the Kelvin sign has a
  lower case letter in the ASCII range.\<close>

definition lower_unit :: "16 word \<Rightarrow> 16 word" where
  "lower_unit c = (if 0x41 \<le> c \<and> c \<le> 0x5A then c + 32 else if c = 0x212A then 0x6B else c)"

definition ascii_between :: "16 word \<Rightarrow> 16 word \<Rightarrow> 16 word \<Rightarrow> bool" where
  "ascii_between a b c \<longleftrightarrow> a \<le> c \<and> c \<le> b"

definition word_unit :: "16 word \<Rightarrow> bool" where
  "word_unit c \<longleftrightarrow> ascii_between 0x61 0x7A c \<or> ascii_between 0x41 0x5A c \<or> ascii_between 0x30 0x39 c \<or> c = 0x5F"

definition media_unit :: "16 word \<Rightarrow> bool" where
  "media_unit c \<longleftrightarrow> word_unit c \<or> c = 0x2E \<or> c = 0x2B \<or> c = 0x2D"

definition is_media_type :: "jstring \<Rightarrow> bool" where
  "is_media_type s \<longleftrightarrow>
     (let a = takeWhile (\<lambda>c. c \<noteq> 0x2F) s; b = dropWhile (\<lambda>c. c \<noteq> 0x2F) s in
      a \<noteq> [] \<and> list_all media_unit a \<and> b \<noteq> [] \<and> tl b \<noteq> [] \<and> list_all media_unit (tl b))"

definition blob_media_type :: "jsval \<Rightarrow> chat_error + jstring" where
  "blob_media_type v = bind_r (trim_r v) (\<lambda>t.
     let media = map lower_unit t in
     Inr (if is_media_type media then take 120 media else js ''application/octet-stream''))"

definition url_unit :: "16 word \<Rightarrow> bool" where
  "url_unit c \<longleftrightarrow> word_unit c \<or> c = 0x2D"

definition hex_unit :: "16 word \<Rightarrow> bool" where
  "hex_unit c \<longleftrightarrow> ascii_between 0x30 0x39 c \<or> ascii_between 0x61 0x66 c \<or> ascii_between 0x41 0x46 c"

definition is_valid_blob_id :: "jsval \<Rightarrow> bool" where
  "is_valid_blob_id v =
     (case v of
        JStr s \<Rightarrow>
          (starts_with (js ''sha256:'') s \<and> length s = 50 \<and> list_all url_unit (drop 7 s)) \<or>
          (starts_with (js ''blake3:'') s \<and> length s = 71 \<and> list_all hex_unit (drop 7 s))
      | _ \<Rightarrow> False)"

definition valid_blob_head :: "jsval \<Rightarrow> bool" where
  "valid_blob_head v \<longleftrightarrow>
     js_prop v (js ''kind'') = JStr (js ''blob'') \<and> js_prop v (js ''version'') = JNum 1 \<and> is_valid_blob_id (js_prop v (js ''blobId'')) \<and>
     (js_prop v (js ''hash'') = JUndef \<or>
      (starts_with (js ''blake3:'') (js_text (js_prop v (js ''blobId''))) \<and>
       js_prop v (js ''hash'') = JStr (drop 7 (js_text (js_prop v (js ''blobId''))))))"

definition validate_blob_descriptor :: "jsval \<Rightarrow> chat_error + jsval" where
  "validate_blob_descriptor v =
     bind_r (assert_r (valid_blob_head v) InvalidBlobDescriptor) (\<lambda>_.
     bind_r (blob_name (js_prop v (js ''name''))) (\<lambda>n.
     bind_r (assert_r (js_prop v (js ''name'') = JStr n) InvalidBlobDescriptor) (\<lambda>_.
     bind_r (blob_media_type (js_prop v (js ''mediaType''))) (\<lambda>m.
     bind_r (assert_r (js_prop v (js ''mediaType'') = JStr m \<and> js_safe (js_prop v (js ''size'')) \<and>
       1 \<le> js_int (js_prop v (js ''size'')) \<and> js_int (js_prop v (js ''size'')) \<le> max_blob_bytes) InvalidBlobDescriptor) (\<lambda>_.
     Inr v)))))"

definition create_blob_descriptor_from_id :: "jstring \<Rightarrow> int \<Rightarrow> jsval \<Rightarrow> jsval \<Rightarrow> chat_error + jsval" where
  "create_blob_descriptor_from_id blob_id bytes name media_type =
     bind_r (blob_name name) (\<lambda>n.
     bind_r (blob_media_type media_type) (\<lambda>m.
     validate_blob_descriptor (JObj [(js ''kind'', JStr (js ''blob'')), (js ''version'', JNum 1), (js ''blobId'', JStr blob_id),
       (js ''size'', JNum bytes), (js ''name'', JStr n), (js ''mediaType'', JStr m)])))"

end
