(* ===== verification/Contacts.thy ===== *)
theory Contacts
  imports Signed_Records
begin

text \<open>
  Contact requests, decisions and channels (\<open>packages/mesh-contact/src/index.ts\<close>): a visitor signs a request, the
  owner signs a decision, and the channel that an accepted request opens holds signed messages of the two.
\<close>

definition contact_domain :: jstring where "contact_domain = js ''META-MESH/1''"
definition max_contact_message_length :: nat where "max_contact_message_length = 2000"
definition max_contact_record_bytes :: nat where "max_contact_record_bytes = 24 * 1024"
definition max_contact_age_ms :: int where "max_contact_age_ms = 60 * 60 * 1000"
definition max_future_tolerance_ms :: int where "max_future_tolerance_ms = 5 * 60 * 1000"

definition contact_body :: "jstring \<Rightarrow> chat_error + jstring" where
  "contact_body s =
     (let message = js_trim s in
      if message = [] \<or> max_contact_message_length < code_points message then Inl (Contact InvalidContactBody) else Inr message)"

definition contact_name :: "jstring \<Rightarrow> chat_error + jstring" where
  "contact_name s =
     (let name = collapse_space (js_trim s) in
      if name = [] \<or> 80 < code_points name then Inl (Contact InvalidName) else Inr name)"

text \<open>\<open>now\<close> is \<open>None\<close> when it is not a number: comparisons with it are false.\<close>

definition validate_timestamp :: "'m chat_env_scheme \<Rightarrow> jsval \<Rightarrow> int option \<Rightarrow> chat_error + unit" where
  "validate_timestamp env v now =
     (case ch_parse env v of
        None \<Rightarrow> Inl (Contact InvalidContactTimestamp)
      | Some t \<Rightarrow>
          if v \<noteq> JStr (ch_iso env t) then Inl (Contact InvalidContactTimestamp)
          else
            (case now of
               None \<Rightarrow> Inr ()
             | Some n \<Rightarrow>
                 if n + max_future_tolerance_ms < t then Inl (Contact FutureTimestamp)
                 else if t < n - max_contact_age_ms then Inl (Contact RequestExpired) else Inr ()))"

abbreviation signed_payload :: "jsval \<Rightarrow> jsval" where
  "signed_payload v \<equiv> js_prop (js_prop v (js ''signed'')) (js ''payload'')"

abbreviation signed_identity :: "jsval \<Rightarrow> jsval" where
  "signed_identity v \<equiv> js_prop v (js ''identity'')"

definition contact_bundle :: "jsval \<Rightarrow> jsval \<Rightarrow> jsval list \<Rightarrow> jsval" where
  "contact_bundle envelope identity certificates =
     JObj [(js ''signed'', envelope), (js ''identity'', identity), (js ''certificates'', JArr certificates)]"

section \<open>Requests and decisions\<close>

text \<open>The request id, the display name and the certificates are the optional inputs or their defaults.\<close>

definition create_contact_request ::
  "'m chat_env_scheme \<Rightarrow> local_profile \<Rightarrow> jstring \<Rightarrow> jstring \<Rightarrow> jstring \<Rightarrow> int \<Rightarrow> jsval list \<Rightarrow> chat_error + jsval" where
  "create_contact_request env profile request_id display_name first_message now certificates =
     bind_r (contact_name display_name) (\<lambda>name.
     bind_r (contact_body first_message) (\<lambda>body.
     bind_r (iso_text env now) (\<lambda>created.
     bind_r (identity_r (sign_envelope env (lp_device_key profile)
       (JObj [(js ''kind'', JStr (js ''contact-request'')), (js ''requestId'', JStr request_id),
         (js ''personId'', person_of (lp_identity profile)), (js ''deviceId'', JStr (lp_device profile)),
         (js ''displayName'', JStr name), (js ''firstMessage'', JStr body), (js ''createdAt'', JStr created), (js ''version'', JNum 1)])
       (lp_device profile) contact_domain)) (\<lambda>signed.
     Inr (contact_bundle signed (lp_identity profile) certificates)))))"

definition request_head :: "jsval \<Rightarrow> bool" where
  "request_head p \<longleftrightarrow>
     js_truthy p \<and> js_prop p (js ''kind'') = JStr (js ''contact-request'') \<and> js_prop p (js ''version'') = JNum 1 \<and>
     short_text (js_prop p (js ''requestId'')) 128 \<and> is_str (person_of p) \<and> is_str (js_prop p (js ''deviceId'')) \<and>
     is_str (js_prop p (js ''displayName''))"

definition verify_contact_request :: "'m chat_env_scheme \<Rightarrow> jsval \<Rightarrow> int option \<Rightarrow> chat_error + jsval" where
  "verify_contact_request env request now =
     bind_r (assert_r (json_bytes (cr_number env) request \<le> max_contact_record_bytes) (Contact RecordTooLarge)) (\<lambda>_.
     let p = signed_payload request in
     bind_r (assert_r (request_head p) (Contact InvalidRequest)) (\<lambda>_.
     bind_r (contact_name (js_text (js_prop p (js ''displayName'')))) (\<lambda>name.
     bind_r (assert_r (js_prop p (js ''displayName'') = JStr name \<and> is_str (js_prop p (js ''firstMessage''))) (Contact InvalidRequest)) (\<lambda>_.
     bind_r (contact_body (js_text (js_prop p (js ''firstMessage'')))) (\<lambda>body.
     bind_r (assert_r (js_prop p (js ''firstMessage'') = JStr body \<and>
       js_prop (js_prop request (js ''signed'')) (js ''signerKeyId'') = js_prop p (js ''deviceId'') \<and>
       person_of (signed_identity request) = person_of p) (Contact InvalidRequest)) (\<lambda>_.
     bind_r (validate_timestamp env (js_prop p (js ''createdAt'')) now) (\<lambda>_.
     bind_r (verify_device env (signed_identity request) (js_prop p (js ''deviceId'')) (js_prop request (js ''certificates''))) (\<lambda>key.
     bind_r (verify_signed env (js_prop request (js ''signed'')) key contact_domain (Contact InvalidRequestSignature)) (\<lambda>_.
     Inr request)))))))))"

text \<open>The channel id and secret of an accepted decision are the options or, for the id, a random one.\<close>

definition create_contact_decision ::
  "'m chat_env_scheme \<Rightarrow> local_profile \<Rightarrow> jsval \<Rightarrow> bool \<Rightarrow> int \<Rightarrow> jstring \<Rightarrow> jsval \<Rightarrow> jsval list \<Rightarrow> chat_error + jsval" where
  "create_contact_decision env profile request accepted now channel_id channel_secret certificates =
     bind_r (iso_text env now) (\<lambda>created.
     let p = signed_payload request; secret = (if accepted then channel_secret else JUndef) in
     bind_r (assert_r (\<not> accepted \<or> js_truthy secret) (Contact MissingChannelSecret)) (\<lambda>_.
     bind_r (identity_r (sign_envelope env (lp_device_key profile)
       (JObj [(js ''kind'', JStr (js ''contact-decision'')), (js ''version'', JNum 1), (js ''requestId'', js_prop p (js ''requestId'')),
         (js ''visitorPersonId'', person_of p), (js ''ownerPersonId'', person_of (lp_identity profile)),
         (js ''ownerDeviceId'', JStr (lp_device profile)), (js ''accepted'', JBool accepted),
         (js ''channelId'', if accepted then JStr channel_id else JUndef), (js ''channelSecret'', secret), (js ''createdAt'', JStr created)])
       (lp_device profile) contact_domain)) (\<lambda>signed.
     Inr (contact_bundle signed (lp_identity profile) certificates))))"

definition decision_matches :: "jsval \<Rightarrow> jsval \<Rightarrow> jsval \<Rightarrow> bool" where
  "decision_matches request decision p \<longleftrightarrow>
     js_truthy p \<and> js_prop p (js ''kind'') = JStr (js ''contact-decision'') \<and> js_prop p (js ''version'') = JNum 1 \<and>
     js_eq (js_prop p (js ''requestId'')) (js_prop (signed_payload request) (js ''requestId'')) \<and>
     js_eq (js_prop p (js ''visitorPersonId'')) (person_of (signed_payload request)) \<and>
     is_str (js_prop p (js ''ownerPersonId'')) \<and> is_str (js_prop p (js ''ownerDeviceId'')) \<and>
     (case js_prop p (js ''accepted'') of
        JBool True \<Rightarrow> js_truthy (js_prop p (js ''channelId'')) \<and> js_truthy (js_prop p (js ''channelSecret''))
      | JBool False \<Rightarrow> js_prop p (js ''channelId'') = JUndef \<and> js_prop p (js ''channelSecret'') = JUndef
      | _ \<Rightarrow> False) \<and>
     js_prop (js_prop decision (js ''signed'')) (js ''signerKeyId'') = js_prop p (js ''ownerDeviceId'') \<and>
     person_of (signed_identity decision) = js_prop p (js ''ownerPersonId'')"

definition verify_contact_decision :: "'m chat_env_scheme \<Rightarrow> jsval \<Rightarrow> jsval \<Rightarrow> int option \<Rightarrow> chat_error + jsval" where
  "verify_contact_decision env decision request now =
     bind_r (assert_r (json_bytes (cr_number env) decision \<le> max_contact_record_bytes) (Contact RecordTooLarge)) (\<lambda>_.
     let p = signed_payload decision in
     bind_r (assert_r (decision_matches request decision p) (Contact InvalidDecision)) (\<lambda>_.
     bind_r (validate_timestamp env (js_prop p (js ''createdAt'')) now) (\<lambda>_.
     bind_r (verify_device env (signed_identity decision) (js_prop p (js ''ownerDeviceId'')) (js_prop decision (js ''certificates''))) (\<lambda>key.
     bind_r (verify_signed env (js_prop decision (js ''signed'')) key contact_domain (Contact InvalidDecisionSignature)) (\<lambda>_.
     Inr decision)))))"

section \<open>Messages\<close>

definition create_contact_message ::
  "'m chat_env_scheme \<Rightarrow> local_profile \<Rightarrow> jstring \<Rightarrow> jstring \<Rightarrow> int \<Rightarrow> jstring \<Rightarrow> chat_error + jsval" where
  "create_contact_message env profile channel_id body now message_id =
     bind_r (contact_body body) (\<lambda>b.
     bind_r (iso_text env now) (\<lambda>created.
     identity_r (sign_envelope env (lp_device_key profile)
       (JObj [(js ''kind'', JStr (js ''contact-message'')), (js ''version'', JNum 1), (js ''channelId'', JStr channel_id),
         (js ''messageId'', JStr message_id), (js ''authorPersonId'', person_of (lp_identity profile)),
         (js ''authorDeviceId'', JStr (lp_device profile)), (js ''body'', JStr b), (js ''createdAt'', JStr created)])
       (lp_device profile) contact_domain)))"

text \<open>\<open>[...party.certificates, ...(channel.certificates ?? [])]\<close>.\<close>

definition spread_r :: "jsval \<Rightarrow> chat_error + jsval list" where
  "spread_r v = (case v of JArr vs \<Rightarrow> Inr vs | _ \<Rightarrow> Inl ValueFault)"

definition party_certificates :: "jsval \<Rightarrow> jsval \<Rightarrow> bool \<Rightarrow> chat_error + jsval list" where
  "party_certificates doc party owner =
     bind_r (spread_r (js_prop party (js ''certificates''))) (\<lambda>a.
     bind_r (spread_r (js_or (js_prop doc (if owner then js ''ownerCertificates'' else js ''visitorCertificates'')) (JArr []))) (\<lambda>b.
     Inr (a @ b)))"

definition contact_message_head :: "jsval \<Rightarrow> jsval \<Rightarrow> jsval \<Rightarrow> bool" where
  "contact_message_head doc message p \<longleftrightarrow>
     js_truthy p \<and> js_prop p (js ''kind'') = JStr (js ''contact-message'') \<and> js_prop p (js ''version'') = JNum 1 \<and>
     js_eq (js_prop p (js ''channelId'')) (js_prop doc (js ''channelId'')) \<and> short_text (js_prop p (js ''messageId'')) 128 \<and>
     (js_eq (js_prop p (js ''authorPersonId'')) (js_prop doc (js ''ownerPersonId'')) \<or>
      js_eq (js_prop p (js ''authorPersonId'')) (js_prop doc (js ''visitorPersonId''))) \<and>
     is_str (js_prop p (js ''authorDeviceId'')) \<and> js_prop message (js ''signerKeyId'') = js_prop p (js ''authorDeviceId'') \<and>
     is_str (js_prop p (js ''body''))"

definition verify_contact_message :: "'m chat_env_scheme \<Rightarrow> jsval \<Rightarrow> jsval \<Rightarrow> int \<Rightarrow> chat_error + unit" where
  "verify_contact_message env message doc now =
     (let p = js_prop message (js ''payload'') in
      bind_r (assert_r (contact_message_head doc message p) (Contact InvalidContactMessage)) (\<lambda>_.
      bind_r (contact_body (js_text (js_prop p (js ''body'')))) (\<lambda>b.
      bind_r (assert_r (js_prop p (js ''body'') = JStr b) (Contact InvalidContactMessage)) (\<lambda>_.
      bind_r (case ch_parse env (js_prop p (js ''createdAt'')) of None \<Rightarrow> Inl (Contact InvalidContactTimestamp)
        | Some t \<Rightarrow> assert_r (js_prop p (js ''createdAt'') = JStr (ch_iso env t) \<and> t \<le> now + max_future_tolerance_ms)
            (Contact InvalidContactTimestamp)) (\<lambda>_.
      let owner = js_eq (js_prop p (js ''authorPersonId'')) (js_prop doc (js ''ownerPersonId''));
          party = js_prop doc (if owner then js ''decision'' else js ''request'')
      in bind_r (party_certificates doc party owner) (\<lambda>certificates.
         bind_r (verify_device env (signed_identity party) (js_prop p (js ''authorDeviceId'')) (JArr certificates)) (\<lambda>key.
         verify_signed env message key contact_domain (Contact InvalidContactSignature))))))))"

section \<open>Channels\<close>

definition create_contact_channel :: "'m chat_env_scheme \<Rightarrow> jsval \<Rightarrow> jsval \<Rightarrow> int \<Rightarrow> chat_error + jsval" where
  "create_contact_channel env request_value decision_value now =
     bind_r (verify_contact_request env request_value (Some now)) (\<lambda>request.
     bind_r (verify_contact_decision env decision_value request (Some now)) (\<lambda>decision.
     let p = signed_payload decision in
     bind_r (assert_r (js_truthy (js_prop p (js ''accepted'')) \<and> js_truthy (js_prop p (js ''channelId''))) (Contact NotAccepted)) (\<lambda>_.
     Inr (JObj [(js ''kind'', JStr (js ''contact-channel'')), (js ''version'', JNum 1), (js ''channelId'', js_prop p (js ''channelId'')),
       (js ''ownerPersonId'', js_prop p (js ''ownerPersonId'')), (js ''visitorPersonId'', person_of (signed_payload request)),
       (js ''request'', js_clone request), (js ''decision'', js_clone decision),
       (js ''ownerCertificates'', js_clone (js_prop decision (js ''certificates''))),
       (js ''visitorCertificates'', js_clone (js_prop request (js ''certificates''))), (js ''messages'', JObj [])]))))"

definition add_contact_device_certificate ::
  "'m mesh_crypto_scheme \<Rightarrow> jsval \<Rightarrow> jsval \<Rightarrow> jsval \<Rightarrow> chat_error + jsval" where
  "add_contact_device_certificate cr doc identity certificate =
     (let owner = js_eq (person_of identity) (js_prop doc (js ''ownerPersonId''));
          visitor = js_eq (person_of identity) (js_prop doc (js ''visitorPersonId''));
          party = js_prop doc (if owner then js ''decision'' else js ''request'');
          key = (if owner then js ''ownerCertificates'' else js ''visitorCertificates'')
      in bind_r (assert_r (owner \<or> visitor) (Contact NotChannelParticipant)) (\<lambda>_.
         bind_r (assert_r (js_eq (js_prop (signed_identity party) (js ''publicKey'')) (js_prop identity (js ''publicKey'')))
           (Contact ChannelIdentityMismatch)) (\<lambda>_.
         bind_r (identity_r (get_device certificate)) (\<lambda>device.
         bind_r (verify_device cr identity device (JArr [certificate])) (\<lambda>_.
         bind_r (party_certificates doc party owner) (\<lambda>certificates.
         bind_r (some_device device certificates) (\<lambda>known.
         if known then Inr doc
         else Inr (obj_set key (JArr (js_list (js_prop doc key) @ [js_clone certificate])) doc))))))))"

fun verify_each_certificate :: "'m mesh_crypto_scheme \<Rightarrow> jsval \<Rightarrow> jsval list \<Rightarrow> chat_error + unit" where
  "verify_each_certificate cr identity [] = Inr ()"
| "verify_each_certificate cr identity (c # cs) =
     bind_r (identity_r (get_device c)) (\<lambda>d.
     bind_r (verify_device cr identity d (JArr [c])) (\<lambda>_.
     verify_each_certificate cr identity cs))"

fun verify_contact_messages :: "'m chat_env_scheme \<Rightarrow> jsval \<Rightarrow> int \<Rightarrow> (jstring \<times> jsval) list \<Rightarrow> chat_error + unit" where
  "verify_contact_messages env doc now [] = Inr ()"
| "verify_contact_messages env doc now ((i, message) # rest) =
     bind_r (get_r message (js ''payload'')) (\<lambda>p.
     bind_r (get_r p (js ''messageId'')) (\<lambda>j.
     bind_r (assert_r (j = JStr i) (Contact InvalidContactMessageId)) (\<lambda>_.
     bind_r (verify_contact_message env message doc now) (\<lambda>_.
     verify_contact_messages env doc now rest))))"

definition channel_head :: "jsval \<Rightarrow> bool" where
  "channel_head doc \<longleftrightarrow>
     js_truthy doc \<and> js_prop doc (js ''kind'') = JStr (js ''contact-channel'') \<and> js_prop doc (js ''version'') = JNum 1 \<and>
     is_str (js_prop doc (js ''channelId'')) \<and> js_truthy (js_prop doc (js ''channelId'')) \<and>
     is_str (js_prop doc (js ''ownerPersonId'')) \<and> is_str (js_prop doc (js ''visitorPersonId'')) \<and>
     js_truthy (js_prop doc (js ''request'')) \<and> js_truthy (js_prop doc (js ''decision'')) \<and>
     js_truthy (js_prop doc (js ''messages'')) \<and> \<not> is_array (js_prop doc (js ''messages''))"

text \<open>\<open>Date.parse(value.signed.payload.createdAt)\<close>.\<close>

definition signed_time :: "'m chat_env_scheme \<Rightarrow> jsval \<Rightarrow> chat_error + int option" where
  "signed_time env v =
     bind_r (get_r (js_prop v (js ''signed'')) (js ''payload'')) (\<lambda>p.
     bind_r (get_r p (js ''createdAt'')) (\<lambda>t. Inr (ch_parse env t)))"

definition verify_contact_channel :: "'m chat_env_scheme \<Rightarrow> jsval \<Rightarrow> int \<Rightarrow> chat_error + jsval" where
  "verify_contact_channel env doc now =
     bind_r (assert_r (channel_head doc) (Contact InvalidChannel)) (\<lambda>_.
     bind_r (signed_time env (js_prop doc (js ''request''))) (\<lambda>request_time.
     bind_r (signed_time env (js_prop doc (js ''decision''))) (\<lambda>decision_time.
     bind_r (verify_contact_request env (js_prop doc (js ''request'')) request_time) (\<lambda>request.
     bind_r (verify_contact_decision env (js_prop doc (js ''decision'')) request decision_time) (\<lambda>decision.
     let p = signed_payload decision in
     bind_r (assert_r (js_truthy (js_prop p (js ''accepted'')) \<and> js_eq (js_prop p (js ''channelId'')) (js_prop doc (js ''channelId'')) \<and>
       js_eq (js_prop p (js ''ownerPersonId'')) (js_prop doc (js ''ownerPersonId'')) \<and>
       js_eq (person_of (signed_payload request)) (js_prop doc (js ''visitorPersonId''))) (Contact InvalidBinding)) (\<lambda>_.
     bind_r (spread_r (js_or (js_prop doc (js ''ownerCertificates'')) (JArr []))) (\<lambda>owners.
     bind_r (verify_each_certificate env (signed_identity decision) owners) (\<lambda>_.
     bind_r (spread_r (js_or (js_prop doc (js ''visitorCertificates'')) (JArr []))) (\<lambda>visitors.
     bind_r (verify_each_certificate env (signed_identity request) visitors) (\<lambda>_.
     let entries = js_entries (js_prop doc (js ''messages'')) in
     bind_r (assert_r (length entries \<le> 10000) (Contact TooManyMessages)) (\<lambda>_.
     bind_r (verify_contact_messages env doc now entries) (\<lambda>_.
     Inr doc))))))))))))"

definition append_contact_message :: "'m chat_env_scheme \<Rightarrow> jsval \<Rightarrow> jsval \<Rightarrow> int \<Rightarrow> chat_error + jsval" where
  "append_contact_message env doc message now =
     bind_r (verify_contact_channel env doc now) (\<lambda>_.
     bind_r (verify_contact_message env message doc now) (\<lambda>_.
     let i = js_text (js_prop (js_prop message (js ''payload'')) (js ''messageId''));
         messages = js_prop doc (js ''messages'')
     in if i \<in> fst ` set (js_entries messages) then
          bind_r (identity_r (canonical_text env (js_prop messages i))) (\<lambda>a.
          bind_r (identity_r (canonical_text env message)) (\<lambda>b.
          if a \<noteq> b then Inl (Contact ContactMessageExists) else Inr doc))
        else Inr (obj_set (js ''messages'') (obj_set i (js_clone message) messages) doc)))"

definition merge_contact_channels :: "'m chat_env_scheme \<Rightarrow> jsval \<Rightarrow> bytes \<Rightarrow> int \<Rightarrow> chat_error + jsval" where
  "merge_contact_channels env local_doc remote_bytes now =
     (case ch_load env remote_bytes of
        None \<Rightarrow> Inl LoadFault
      | Some remote \<Rightarrow>
          if \<not> js_eq (js_prop remote (js ''channelId'')) (js_prop local_doc (js ''channelId'')) \<or>
             \<not> js_eq (js_prop remote (js ''ownerPersonId'')) (js_prop local_doc (js ''ownerPersonId'')) \<or>
             \<not> js_eq (js_prop remote (js ''visitorPersonId'')) (js_prop local_doc (js ''visitorPersonId'')) then Inl (Contact ChannelMismatch)
          else
            let candidate = ch_merge env local_doc remote in
            bind_r (verify_contact_channel env candidate now) (\<lambda>_. Inr candidate))"

section \<open>Timeline\<close>

definition timeline_entry :: "jsval \<Rightarrow> jsval \<Rightarrow> jsval \<Rightarrow> jsval \<Rightarrow> bool \<Rightarrow> jsval" where
  "timeline_entry i author body created join_request =
     JObj [(js ''id'', i), (js ''authorPersonId'', author), (js ''body'', body), (js ''createdAt'', created),
       (js ''isJoinRequest'', JBool join_request)]"

definition contact_timeline :: "'m chat_env_scheme \<Rightarrow> jsval \<Rightarrow> jsval list" where
  "contact_timeline env doc =
     (let first = signed_payload (js_prop doc (js ''request''));
          entries = timeline_entry (js_prop first (js ''requestId'')) (person_of first) (js_prop first (js ''firstMessage''))
            (js_prop first (js ''createdAt'')) True #
            map (\<lambda>m. let p = js_prop m (js ''payload'') in timeline_entry (js_prop p (js ''messageId'')) (js_prop p (js ''authorPersonId''))
              (js_prop p (js ''body'')) (js_prop p (js ''createdAt'')) False) (map snd (js_entries (js_prop doc (js ''messages''))));
          field = (\<lambda>k v. js_text (js_prop v k))
      in js_sort (\<lambda>a b. let d = ch_locale env (field (js ''createdAt'') a) (field (js ''createdAt'') b) in
           if d \<noteq> 0 then d < 0 else ch_locale env (field (js ''id'') a) (field (js ''id'') b) \<le> 0) entries)"

definition contact_request_idempotency_key :: "jsval \<Rightarrow> jsval" where
  "contact_request_idempotency_key request = person_of (signed_identity request)"

end
