(* ===== verification/Messaging.thy ===== *)
theory Messaging
  imports Signed_Records
begin

text \<open>
  Conversations of the messaging package (\<open>packages/mesh-messaging/src/index.ts\<close>): grants signed by admins, signed
  messages, and the verification of a whole conversation after it was merged.
\<close>

definition messaging_domain :: jstring where "messaging_domain = js ''MESH-MESSAGING/1''"
definition max_message_length :: nat where "max_message_length = 4000"

definition normalize_title :: "jsval \<Rightarrow> chat_error + jstring" where
  "normalize_title v = bind_r (trim_r v) (\<lambda>t.
     let title = collapse_space t in
     if title = [] \<or> 120 < code_points title then Inl (Messaging InvalidTitle) else Inr title)"

definition normalize_body :: "jsval \<Rightarrow> bool \<Rightarrow> chat_error + jstring" where
  "normalize_body v has_attachments = bind_r (trim_r v) (\<lambda>body.
     if (body = [] \<and> \<not> has_attachments) \<or> max_message_length < code_points body then Inl (Messaging InvalidBody) else Inr body)"

definition profile_participant :: "local_profile \<Rightarrow> jsval \<Rightarrow> jsval" where
  "profile_participant profile grant =
     JObj [(js ''identity'', js_clone (lp_identity profile)), (js ''certificates'', JArr [js_clone (lp_certificate profile)]),
       (js ''grant'', js_clone grant)]"

definition create_conversation :: "local_profile \<Rightarrow> jsval \<Rightarrow> jstring \<Rightarrow> jstring \<Rightarrow> chat_error + jsval" where
  "create_conversation profile title conversation_id room_kind =
     bind_r (normalize_title title) (\<lambda>t.
     Inr (JObj [(js ''kind'', JStr (js ''conversation'')), (js ''version'', JNum 1), (js ''roomKind'', JStr room_kind),
       (js ''conversationId'', JStr conversation_id), (js ''title'', JStr t),
       (js ''creatorPersonId'', person_of (lp_identity profile)),
       (js ''participants'', JObj [(js_text (person_of (lp_identity profile)), profile_participant profile JNull)]),
       (js ''messages'', JObj [])]))"

abbreviation participants_of :: "jsval \<Rightarrow> jsval" where
  "participants_of doc \<equiv> js_prop doc (js ''participants'')"

abbreviation certificates_of :: "jsval \<Rightarrow> jsval" where
  "certificates_of v \<equiv> js_prop v (js ''certificates'')"

definition set_participant :: "jstring \<Rightarrow> jsval \<Rightarrow> jsval \<Rightarrow> jsval" where
  "set_participant person record_value doc =
     obj_set (js ''participants'') (obj_set person record_value (participants_of doc)) doc"

definition add_participant_device_certificate ::
  "'m mesh_crypto_scheme \<Rightarrow> jsval \<Rightarrow> local_profile \<Rightarrow> chat_error + jsval" where
  "add_participant_device_certificate cr doc profile =
     (let person = person_of (lp_identity profile) in
      let participant = js_index cr (participants_of doc) person in
      bind_r (assert_r (js_truthy participant) (Messaging NotParticipant)) (\<lambda>_.
      bind_r (get_r (js_prop participant (js ''identity'')) (js ''publicKey'')) (\<lambda>key.
      bind_r (assert_r (js_eq key (js_prop (lp_identity profile) (js ''publicKey''))) (Messaging ParticipantMismatch)) (\<lambda>_.
      bind_r (verify_device cr (lp_identity profile) (JStr (lp_device profile)) (JArr [lp_certificate profile])) (\<lambda>_.
      bind_r (case certificates_of participant of JArr cs \<Rightarrow> some_device (JStr (lp_device profile)) cs | _ \<Rightarrow> Inl ValueFault) (\<lambda>known.
      if known then Inr doc
      else Inr (set_participant (js_text person) (obj_set (js ''certificates'')
        (JArr (js_list (certificates_of participant) @ [js_clone (lp_certificate profile)])) participant) doc)))))))"

section \<open>Grants\<close>

definition create_conversation_grant ::
  "'m chat_env_scheme \<Rightarrow> local_profile \<Rightarrow> jstring \<Rightarrow> jstring \<Rightarrow> jstring \<Rightarrow> int \<Rightarrow> chat_error + jsval" where
  "create_conversation_grant env issuer conversation_id member role now =
     bind_r (iso_text env now) (\<lambda>created.
     identity_r (sign_envelope env (lp_device_key issuer)
       (JObj [(js ''kind'', JStr (js ''conversation-grant'')), (js ''version'', JNum 1),
         (js ''conversationId'', JStr conversation_id), (js ''issuerPersonId'', person_of (lp_identity issuer)),
         (js ''issuerDeviceId'', JStr (lp_device issuer)), (js ''memberPersonId'', JStr member), (js ''role'', JStr role),
         (js ''createdAt'', JStr created)])
       (lp_device issuer) messaging_domain))"

definition grant_matches :: "jsval \<Rightarrow> jsval \<Rightarrow> jsval \<Rightarrow> jsval \<Rightarrow> bool" where
  "grant_matches doc identity grant payload \<longleftrightarrow>
     js_prop payload (js ''kind'') = JStr (js ''conversation-grant'') \<and> js_prop payload (js ''version'') = JNum 1 \<and>
     js_eq (js_prop payload (js ''conversationId'')) (js_prop doc (js ''conversationId'')) \<and>
     js_eq (js_prop payload (js ''memberPersonId'')) (person_of identity) \<and>
     js_eq (js_prop grant (js ''signerKeyId'')) (js_prop payload (js ''issuerDeviceId'')) \<and>
     js_prop payload (js ''role'') \<in> {JStr (js ''member''), JStr (js ''admin'')}"

text \<open>\<open>issuer.grant?.payload.role\<close>.\<close>

definition grant_role :: "jsval \<Rightarrow> chat_error + jsval" where
  "grant_role participant =
     (let g = js_prop participant (js ''grant'') in
      if g = JUndef \<or> g = JNull then Inr JUndef
      else bind_r (get_r g (js ''payload'')) (\<lambda>p. get_r p (js ''role'')))"

definition verify_grant :: "'m mesh_crypto_scheme \<Rightarrow> jsval \<Rightarrow> jsval \<Rightarrow> chat_error + unit" where
  "verify_grant cr doc participant =
     bind_r (get_r participant (js ''grant'')) (\<lambda>grant.
     bind_r (assert_r (js_truthy grant) (Messaging MissingGrant)) (\<lambda>_.
     let payload = js_prop grant (js ''payload'') in
     bind_r (get_r payload (js ''kind'')) (\<lambda>_.
     bind_r (get_r (js_prop participant (js ''identity'')) (js ''personId'')) (\<lambda>_.
     bind_r (assert_r (grant_matches doc (js_prop participant (js ''identity'')) grant payload) (Messaging InvalidGrant)) (\<lambda>_.
     let issuer = js_index cr (participants_of doc) (js_prop payload (js ''issuerPersonId'')) in
     bind_r (assert_r (js_truthy issuer) (Messaging IssuerNotAdmin)) (\<lambda>_.
     bind_r (if js_eq (js_prop payload (js ''issuerPersonId'')) (js_prop doc (js ''creatorPersonId'')) then Inr ()
         else bind_r (grant_role issuer) (\<lambda>role. assert_r (role = JStr (js ''admin'')) (Messaging IssuerNotAdmin))) (\<lambda>_.
     bind_r (verify_device cr (js_prop issuer (js ''identity'')) (js_prop payload (js ''issuerDeviceId'')) (certificates_of issuer)) (\<lambda>key.
     verify_signed cr grant key messaging_domain (Messaging InvalidGrantSignature)))))))))"

definition add_conversation_participant ::
  "'m mesh_crypto_scheme \<Rightarrow> jsval \<Rightarrow> jsval \<Rightarrow> jsval \<Rightarrow> chat_error + jsval" where
  "add_conversation_participant cr doc participant grant =
     (let person = js_text (person_of (js_prop participant (js ''identity'')));
          record_value = obj_set (js ''grant'') (js_clone grant) (js_spread (js_clone participant));
          probe = set_participant person record_value (js_clone doc)
      in bind_r (verify_grant cr probe record_value) (\<lambda>_. Inr (set_participant person record_value doc)))"

section \<open>Messages\<close>

fun validate_attachments :: "jsval list \<Rightarrow> chat_error + unit" where
  "validate_attachments [] = Inr ()"
| "validate_attachments (v # vs) = bind_r (validate_blob_descriptor v) (\<lambda>_. validate_attachments vs)"

abbreviation blob_ids :: "jsval list \<Rightarrow> jsval list" where
  "blob_ids vs \<equiv> map (\<lambda>v. js_prop v (js ''blobId'')) vs"

definition create_message ::
  "'m chat_env_scheme \<Rightarrow> local_profile \<Rightarrow> jstring \<Rightarrow> jsval \<Rightarrow> int \<Rightarrow> jstring \<Rightarrow> jsval list \<Rightarrow> chat_error + jsval" where
  "create_message env profile conversation_id body now message_id attachments =
     bind_r (validate_attachments attachments) (\<lambda>_.
     bind_r (assert_r (length attachments \<le> max_attachments \<and> distinct (blob_ids attachments)) (Messaging TooManyAttachments)) (\<lambda>_.
     bind_r (normalize_body body (attachments \<noteq> [])) (\<lambda>b.
     bind_r (iso_text env now) (\<lambda>created.
     identity_r (sign_envelope env (lp_device_key profile)
       (JObj ([(js ''kind'', JStr (js ''message'')), (js ''version'', JNum 1), (js ''conversationId'', JStr conversation_id),
         (js ''messageId'', JStr message_id), (js ''authorPersonId'', person_of (lp_identity profile)),
         (js ''authorDeviceId'', JStr (lp_device profile)), (js ''body'', JStr b)] @
         (if attachments \<noteq> [] then [(js ''attachments'', JArr (map js_spread attachments))] else []) @
         [(js ''createdAt'', JStr created)]))
       (lp_device profile) messaging_domain)))))"

text \<open>\<open>attachments.length > 0\<close> on any value.\<close>

fun has_length :: "jsval \<Rightarrow> bool" where
  "has_length (JArr vs) = (vs \<noteq> [])"
| "has_length (JStr s) = (s \<noteq> [])"
| "has_length (JBytes bs) = (bs \<noteq> [])"
| "has_length (JObj ps) = (case map_of ps (js ''length'') of Some (JNum n) \<Rightarrow> 0 < n | _ \<Rightarrow> False)"
| "has_length v = False"

definition message_head :: "jsval \<Rightarrow> jsval \<Rightarrow> jsval \<Rightarrow> bool" where
  "message_head doc message payload \<longleftrightarrow>
     js_truthy payload \<and> js_prop payload (js ''kind'') = JStr (js ''message'') \<and> js_prop payload (js ''version'') = JNum 1 \<and>
     js_eq (js_prop payload (js ''conversationId'')) (js_prop doc (js ''conversationId'')) \<and>
     js_truthy (js_prop payload (js ''messageId'')) \<and>
     js_eq (js_prop message (js ''signerKeyId'')) (js_prop payload (js ''authorDeviceId''))"

definition verify_message :: "'m chat_env_scheme \<Rightarrow> jsval \<Rightarrow> jsval \<Rightarrow> int \<Rightarrow> chat_error + unit" where
  "verify_message env doc message now =
     (let payload = js_prop message (js ''payload''); attachments = js_or (js_prop payload (js ''attachments'')) (JArr []) in
      bind_r (assert_r (message_head doc message payload) (Messaging InvalidMessage)) (\<lambda>_.
      bind_r (normalize_body (js_prop payload (js ''body'')) (has_length attachments)) (\<lambda>b.
      bind_r (assert_r (js_prop payload (js ''body'') = JStr b \<and> is_array attachments \<and>
        length (js_list attachments) \<le> max_attachments \<and> distinct (blob_ids (js_list attachments))) (Messaging InvalidMessage)) (\<lambda>_.
      bind_r (case validate_attachments (js_list attachments) of Inl e \<Rightarrow> Inl (Messaging InvalidAttachment) | Inr u \<Rightarrow> Inr u) (\<lambda>_.
      bind_r (case ch_parse env (js_prop payload (js ''createdAt'')) of None \<Rightarrow> Inl (Messaging InvalidTimestamp)
        | Some t \<Rightarrow> assert_r (t \<le> now + 5 * 60 * 1000) (Messaging InvalidTimestamp)) (\<lambda>_.
      let author = js_index env (participants_of doc) (js_prop payload (js ''authorPersonId'')) in
      bind_r (assert_r (js_truthy author) (Messaging AuthorNotParticipant)) (\<lambda>_.
      bind_r (verify_device env (js_prop author (js ''identity'')) (js_prop payload (js ''authorDeviceId'')) (certificates_of author)) (\<lambda>key.
      verify_signed env message key messaging_domain (Messaging InvalidMessageSignature)))))))))"

section \<open>Conversations\<close>

fun verify_participants :: "'m mesh_crypto_scheme \<Rightarrow> jsval \<Rightarrow> (jstring \<times> jsval) list \<Rightarrow> chat_error + unit" where
  "verify_participants cr doc [] = Inr ()"
| "verify_participants cr doc ((person, participant) # rest) =
     bind_r (get_r participant (js ''identity'')) (\<lambda>identity.
     bind_r (get_r identity (js ''personId'')) (\<lambda>p.
     bind_r (assert_r (p = JStr person) (Messaging InvalidParticipantId)) (\<lambda>_.
     bind_r (if js_prop doc (js ''creatorPersonId'') = JStr person then Inr () else verify_grant cr doc participant) (\<lambda>_.
     verify_participants cr doc rest))))"

fun verify_messages :: "'m chat_env_scheme \<Rightarrow> jsval \<Rightarrow> int \<Rightarrow> (jstring \<times> jsval) list \<Rightarrow> chat_error + unit" where
  "verify_messages env doc now [] = Inr ()"
| "verify_messages env doc now ((message_id, message) # rest) =
     bind_r (get_r message (js ''payload'')) (\<lambda>payload.
     bind_r (get_r payload (js ''messageId'')) (\<lambda>i.
     bind_r (assert_r (i = JStr message_id) (Messaging InvalidMessageId)) (\<lambda>_.
     bind_r (verify_message env doc message now) (\<lambda>_.
     verify_messages env doc now rest))))"

definition conversation_head :: "jsval \<Rightarrow> bool" where
  "conversation_head doc \<longleftrightarrow>
     js_truthy doc \<and> js_prop doc (js ''kind'') = JStr (js ''conversation'') \<and> js_prop doc (js ''version'') = JNum 1 \<and>
     js_prop doc (js ''roomKind'') \<in> {JStr (js ''direct''), JStr (js ''group'')} \<and> js_truthy (js_prop doc (js ''conversationId''))"

definition verify_conversation :: "'m chat_env_scheme \<Rightarrow> jsval \<Rightarrow> int \<Rightarrow> chat_error + jsval" where
  "verify_conversation env doc now =
     bind_r (assert_r (conversation_head doc) (Messaging InvalidConversation)) (\<lambda>_.
     bind_r (normalize_title (js_prop doc (js ''title''))) (\<lambda>t.
     bind_r (assert_r (js_prop doc (js ''title'') = JStr t \<and> js_truthy (participants_of doc) \<and>
       js_truthy (js_prop doc (js ''messages''))) (Messaging InvalidConversation)) (\<lambda>_.
     let creator = js_index env (participants_of doc) (js_prop doc (js ''creatorPersonId'')) in
     bind_r (assert_r (js_truthy creator \<and> js_prop creator (js ''grant'') = JNull) (Messaging InvalidCreator)) (\<lambda>_.
     bind_r (case certificates_of creator of
         JArr [] \<Rightarrow> Inr JUndef
       | JArr (c # cs) \<Rightarrow> if c = JUndef \<or> c = JNull then Inr JUndef else identity_r (get_device c)
       | JUndef \<Rightarrow> Inl ValueFault
       | JNull \<Rightarrow> Inl ValueFault
       | _ \<Rightarrow> Inr JUndef) (\<lambda>device.
     bind_r (verify_device env (js_prop creator (js ''identity'')) device (certificates_of creator)) (\<lambda>_.
     bind_r (verify_participants env doc (js_entries (participants_of doc))) (\<lambda>_.
     bind_r (verify_messages env doc now (js_entries (js_prop doc (js ''messages'')))) (\<lambda>_.
     Inr doc))))))))"

definition set_message :: "jsval \<Rightarrow> jsval \<Rightarrow> jsval \<Rightarrow> jsval" where
  "set_message message_id message doc =
     obj_set (js ''messages'') (obj_set (js_text message_id) message (js_prop doc (js ''messages''))) doc"

definition append_message :: "'m chat_env_scheme \<Rightarrow> jsval \<Rightarrow> jsval \<Rightarrow> int \<Rightarrow> chat_error + jsval" where
  "append_message env doc message now =
     bind_r (verify_conversation env doc now) (\<lambda>_.
     bind_r (verify_message env doc message now) (\<lambda>_.
     let i = js_prop (js_prop message (js ''payload'')) (js ''messageId'');
         existing = js_index env (js_prop doc (js ''messages'')) i
     in if js_truthy existing then
          bind_r (identity_r (canonical_text env existing)) (\<lambda>a.
          bind_r (identity_r (canonical_text env message)) (\<lambda>b.
          if a \<noteq> b then Inl (Messaging MessageExists) else Inr doc))
        else Inr (set_message (case key_text (cr_number env) i of None \<Rightarrow> i | Some t \<Rightarrow> JStr t) (js_clone message) doc)))"

definition load_document :: "'m chat_env_scheme \<Rightarrow> bytes \<Rightarrow> chat_error + jsval" where
  "load_document env bs = (case ch_load env bs of None \<Rightarrow> Inl LoadFault | Some d \<Rightarrow> Inr d)"

definition merge_conversations :: "'m chat_env_scheme \<Rightarrow> jsval \<Rightarrow> bytes \<Rightarrow> int \<Rightarrow> chat_error + jsval" where
  "merge_conversations env local_doc remote_bytes now =
     bind_r (load_document env remote_bytes) (\<lambda>remote.
     if \<not> js_eq (js_prop remote (js ''conversationId'')) (js_prop local_doc (js ''conversationId'')) \<or>
        \<not> js_eq (js_prop remote (js ''creatorPersonId'')) (js_prop local_doc (js ''creatorPersonId'')) then Inl (Messaging ConversationMismatch)
     else
       let candidate = ch_merge env local_doc remote in
       bind_r (verify_conversation env candidate now) (\<lambda>_. Inr candidate))"

definition conversation_messages :: "'m chat_env_scheme \<Rightarrow> jsval \<Rightarrow> jsval list" where
  "conversation_messages env doc =
     (let created = (\<lambda>m. js_text (js_prop (js_prop m (js ''payload'')) (js ''createdAt'')));
          message_id = (\<lambda>m. js_text (js_prop (js_prop m (js ''payload'')) (js ''messageId'')))
      in js_sort (\<lambda>a b. let d = ch_locale env (created a) (created b) in
           if d \<noteq> 0 then d < 0 else ch_locale env (message_id a) (message_id b) \<le> 0)
         (map snd (js_entries (js_prop doc (js ''messages'')))))"

end
