(* ===== verification/Messaging_Properties.thy ===== *)
theory Messaging_Properties
  imports Messaging
begin

text \<open>
  Verified conversations stay verified: appending a message or adding a participant yields a conversation that passes
  verification again, unless the message's id is not a string. A grant that its own subject signed is accepted.
\<close>

section \<open>What verification depends on\<close>

lemma verify_message_cong:
  assumes "js_prop doc' (js ''conversationId'') = js_prop doc (js ''conversationId'')" "participants_of doc' = participants_of doc"
  shows "verify_message env doc' m now = verify_message env doc m now"
  unfolding verify_message_def message_head_def using assms by (simp only:)

lemma verify_grant_cong:
  assumes "js_prop doc' (js ''conversationId'') = js_prop doc (js ''conversationId'')" "participants_of doc' = participants_of doc"
    and "js_prop doc' (js ''creatorPersonId'') = js_prop doc (js ''creatorPersonId'')"
  shows "verify_grant cr doc' p = verify_grant cr doc p"
  unfolding verify_grant_def grant_matches_def using assms by (simp only:)

text \<open>A stored entry of a verified conversation.\<close>

definition message_entry_ok :: "'m chat_env_scheme \<Rightarrow> jsval \<Rightarrow> int \<Rightarrow> jstring \<times> jsval \<Rightarrow> bool" where
  "message_entry_ok env doc now e \<longleftrightarrow>
     js_prop (js_prop (snd e) (js ''payload'')) (js ''messageId'') = JStr (fst e) \<and> verify_message env doc (snd e) now = Inr ()"

definition participant_entry_ok :: "'m mesh_crypto_scheme \<Rightarrow> jsval \<Rightarrow> jstring \<times> jsval \<Rightarrow> bool" where
  "participant_entry_ok cr doc e \<longleftrightarrow>
     person_of (js_prop (snd e) (js ''identity'')) = JStr (fst e) \<and>
     (js_prop doc (js ''creatorPersonId'') = JStr (fst e) \<or> verify_grant cr doc (snd e) = Inr ())"

lemma identity_r_Inr [simp]: "identity_r m = Inr x \<longleftrightarrow> m = Inr x" "identity_r (Inr x) = Inr x"
  by (auto simp: identity_r_def split: sum.splits)

lemma get_r_Inr: "get_r v k = Inr w \<longleftrightarrow> v \<noteq> JUndef \<and> v \<noteq> JNull \<and> w = js_prop v k"
  by (auto simp: get_r_def identity_r_def js_get_def)

lemma js_prop_str_defined: "js_prop v k = JStr s \<Longrightarrow> v \<noteq> JUndef \<and> v \<noteq> JNull"
  by (cases v) simp_all

lemma verify_messages_iff: "verify_messages env doc now es = Inr () \<longleftrightarrow> list_all (message_entry_ok env doc now) es"
proof (induction es)
  case (Cons e es)
  obtain i m where e: "e = (i, m)" by fastforce
  have "js_prop (js_prop m (js ''payload'')) (js ''messageId'') = JStr i \<Longrightarrow>
      m \<noteq> JUndef \<and> m \<noteq> JNull \<and> js_prop m (js ''payload'') \<noteq> JUndef \<and> js_prop m (js ''payload'') \<noteq> JNull"
    using js_prop_str_defined by (metis js_prop.simps(2,3))
  then show ?case using Cons.IH
    by (auto simp: e bind_r_eq_Inr get_r_Inr assert_r_eq_Inr message_entry_ok_def)
qed simp

lemma verify_participants_iff: "verify_participants cr doc es = Inr () \<longleftrightarrow> list_all (participant_entry_ok cr doc) es"
proof (induction es)
  case (Cons e es)
  obtain i m where e: "e = (i, m)" by fastforce
  have "person_of (js_prop m (js ''identity'')) = JStr i \<Longrightarrow>
      m \<noteq> JUndef \<and> m \<noteq> JNull \<and> js_prop m (js ''identity'') \<noteq> JUndef \<and> js_prop m (js ''identity'') \<noteq> JNull"
    using js_prop_str_defined by (metis js_prop.simps(2,3))
  then show ?case using Cons.IH
    by (auto simp: e bind_r_eq_Inr get_r_Inr assert_r_eq_Inr participant_entry_ok_def split: if_splits)
qed simp

text \<open>The checks of a conversation before its entries.\<close>

definition frame_ok :: "'m chat_env_scheme \<Rightarrow> jsval \<Rightarrow> bool" where
  "frame_ok env doc \<longleftrightarrow>
     (let creator = js_index env (participants_of doc) (js_prop doc (js ''creatorPersonId'')) in
      conversation_head doc \<and> normalize_title (js_prop doc (js ''title'')) = Inr (js_text (js_prop doc (js ''title''))) \<and>
      is_str (js_prop doc (js ''title'')) \<and> js_truthy (participants_of doc) \<and> js_truthy (js_prop doc (js ''messages'')) \<and>
      js_truthy creator \<and> js_prop creator (js ''grant'') = JNull \<and>
      (\<exists>device key. (case certificates_of creator of
         JArr [] \<Rightarrow> Inr JUndef
       | JArr (c # cs) \<Rightarrow> if c = JUndef \<or> c = JNull then Inr JUndef else identity_r (get_device c)
       | JUndef \<Rightarrow> Inl ValueFault
       | JNull \<Rightarrow> Inl ValueFault
       | _ \<Rightarrow> Inr JUndef) = Inr device \<and>
        verify_device env (js_prop creator (js ''identity'')) device (certificates_of creator) = Inr key))"

lemma verify_conversation_iff:
  "verify_conversation env doc now = Inr doc \<longleftrightarrow>
     frame_ok env doc \<and> list_all (participant_entry_ok env doc) (js_entries (participants_of doc)) \<and>
     list_all (message_entry_ok env doc now) (js_entries (js_prop doc (js ''messages'')))"
proof -
  have title: "(normalize_title t = Inr s \<and> t = JStr s) \<longleftrightarrow> (normalize_title t = Inr (js_text t) \<and> is_str t \<and> s = js_text t)" for t s
    by (cases t) auto
  show ?thesis
    unfolding verify_conversation_def frame_ok_def Let_def bind_r_eq_Inr assert_r_eq_Inr
      verify_messages_iff [symmetric] verify_participants_iff [symmetric]
    using title by auto
qed

lemma verify_conversation_result: "verify_conversation env doc now = Inr d \<Longrightarrow> d = doc"
  by (auto simp: verify_conversation_def bind_r_eq_Inr Let_def)

lemma frame_ok_cong:
  assumes "conversation_head doc' = conversation_head doc" "js_prop doc' (js ''title'') = js_prop doc (js ''title'')"
    and "participants_of doc' = participants_of doc" "js_prop doc' (js ''creatorPersonId'') = js_prop doc (js ''creatorPersonId'')"
    and "js_truthy (js_prop doc' (js ''messages''))" "js_truthy (js_prop doc (js ''messages''))"
  shows "frame_ok env doc' = frame_ok env doc"
  unfolding frame_ok_def Let_def using assms by (simp only:)

lemma conversation_is_obj: "conversation_head doc \<Longrightarrow> is_obj doc"
  using js_prop_obj [of doc "js ''kind''"] by (auto simp: conversation_head_def)

section \<open>Appending\<close>

text \<open>The document after a new message was stored under a key.\<close>

lemma set_message_props:
  assumes "is_obj doc" "k \<noteq> js ''messages''"
  shows "js_prop (set_message i m doc) k = js_prop doc k"
  using assms by (simp add: set_message_def)

lemma set_message_messages:
  "is_obj doc \<Longrightarrow> js_prop (set_message (JStr i) m doc) (js ''messages'') = obj_set i m (js_prop doc (js ''messages''))"
  by (simp add: set_message_def)

lemma obj_set_truthy: "js_truthy (obj_set k v w) = js_truthy w"
  by (cases w) simp_all

lemma entries_obj_set: "set (js_entries (obj_set k v w)) \<subseteq> insert (k, v) (set (js_entries w))"
  using set_update_subset [of k v] by (cases w) auto

lemma entries_obj_set_mem: "is_obj w \<Longrightarrow> (k, v) \<in> set (js_entries (obj_set k v w))"
proof (cases w)
  case (JObj ps)
  have "map_of (AList.update k v ps) k = Some v" by (simp add: update_conv')
  then show ?thesis using map_of_SomeD JObj by fastforce
qed simp_all

lemma set_message_frame:
  assumes "frame_ok env doc"
  shows "frame_ok env (set_message (JStr i) m doc)"
    and "participant_entry_ok env (set_message (JStr i) m doc) = participant_entry_ok env doc"
    and "verify_message env (set_message (JStr i) m doc) = verify_message env doc"
proof -
  have o: "is_obj doc" using assms conversation_is_obj by (auto simp: frame_ok_def Let_def)
  note p = set_message_props [OF o, of _ "JStr i" m]
  have head: "conversation_head (set_message (JStr i) m doc) = conversation_head doc"
    using o p by (simp add: conversation_head_def) (cases doc; simp add: set_message_def)
  have t: "js_truthy (js_prop (set_message (JStr i) m doc) (js ''messages'')) = js_truthy (js_prop doc (js ''messages''))"
    using o by (simp add: set_message_messages obj_set_truthy)
  then have "js_truthy (js_prop (set_message (JStr i) m doc) (js ''messages''))" "js_truthy (js_prop doc (js ''messages''))"
    using assms by (simp_all add: frame_ok_def Let_def)
  with head show "frame_ok env (set_message (JStr i) m doc)"
    using frame_ok_cong [OF head, where env = env] p assms by simp
  show "verify_message env (set_message (JStr i) m doc) = verify_message env doc"
    by (intro ext verify_message_cong) (simp_all add: p)
  show "participant_entry_ok env (set_message (JStr i) m doc) = participant_entry_ok env doc"
    using verify_grant_cong [of "set_message (JStr i) m doc" doc env] by (simp add: participant_entry_ok_def fun_eq_iff p)
qed

lemma append_cases:
  assumes "append_message env doc m now = Inr doc'"
  obtains "verify_conversation env doc now = Inr doc" "verify_message env doc m now = Inr ()"
    "doc' = doc \<or> doc' = set_message (case key_text (cr_number env) (js_prop (js_prop m (js ''payload'')) (js ''messageId'')) of
       None \<Rightarrow> js_prop (js_prop m (js ''payload'')) (js ''messageId'') | Some t \<Rightarrow> JStr t) (js_clone m) doc"
  using assms unfolding append_message_def Let_def
  by (auto elim!: bind_r_InrE split: if_splits) (metis verify_conversation_result)+

lemma is_obj_defined: "is_obj v \<Longrightarrow> v \<noteq> JUndef"
  by auto

lemma is_obj_truthy: "is_obj v \<Longrightarrow> js_truthy v"
  by (cases v) simp_all

lemma js_prop_clone:
  "is_obj v \<Longrightarrow> js_prop v k \<noteq> JUndef \<Longrightarrow> js_prop (js_clone v) k = js_clone (js_prop v k)"
proof (cases v)
  case (JObj ps)
  have "map_of ps k = Some w \<Longrightarrow> w \<noteq> JUndef \<Longrightarrow> map_of (clone_props ps) k = Some (js_clone w)" for w
    by (induction ps) (auto split: if_splits)
  moreover assume "js_prop v k \<noteq> JUndef"
  ultimately show ?thesis using JObj by (auto split: option.splits)
qed simp_all

text \<open>
  C29. Appending keeps a conversation verified: whatever \<open>appendMessage\<close> returns passes \<open>verifyConversation\<close> at the
  same time, for every message that came as JSON with a string as its id.
\<close>

theorem append_keeps_verified:
  assumes "append_message env doc m now = Inr doc'" "js_clone m = m"
    and "js_prop (js_prop m (js ''payload'')) (js ''messageId'') = JStr i"
  shows "verify_conversation env doc' now = Inr doc'"
proof (rule append_cases [OF assms(1)])
  assume v: "verify_conversation env doc now = Inr doc" and m: "verify_message env doc m now = Inr ()"
    and d: "doc' = doc \<or> doc' = set_message (case key_text (cr_number env) (js_prop (js_prop m (js ''payload'')) (js ''messageId'')) of
       None \<Rightarrow> js_prop (js_prop m (js ''payload'')) (js ''messageId'') | Some t \<Rightarrow> JStr t) (js_clone m) doc"
  have f: "frame_ok env doc" using v by (simp add: verify_conversation_iff)
  have o: "is_obj doc" using f conversation_is_obj by (auto simp: frame_ok_def Let_def)
  have "message_entry_ok env doc now e" if "e \<in> set (js_entries (js_prop (set_message (JStr i) m doc) (js ''messages'')))" for e
  proof -
    from that have "e \<in> insert (i, m) (set (js_entries (js_prop doc (js ''messages''))))"
      using entries_obj_set by (auto simp: set_message_messages [OF o])
    then show ?thesis using m v assms(3) by (auto simp: message_entry_ok_def verify_conversation_iff list_all_iff)
  qed
  moreover have "message_entry_ok env (set_message (JStr i) m doc) now = message_entry_ok env doc now"
    by (simp add: message_entry_ok_def set_message_frame(3) [OF f] fun_eq_iff)
  ultimately have "verify_conversation env (set_message (JStr i) m doc) now = Inr (set_message (JStr i) m doc)"
    using v o by (simp add: verify_conversation_iff set_message_frame(1,2) [OF f] set_message_props list_all_iff)
  then show ?thesis using d v assms(2,3) by auto
qed

text \<open>
  C30. A message whose id is a number is accepted by \<open>appendMessage\<close>, but it is stored under the text of the number:
  the conversation that comes out is refused by \<open>verifyConversation\<close> from then on.
\<close>

theorem numeric_message_id_breaks_conversation:
  assumes "append_message env doc m now = Inr doc'" "js_prop (js_prop m (js ''payload'')) (js ''messageId'') = JNum n"
    and "is_obj (js_prop doc (js ''messages''))" "js_prop (js_prop doc (js ''messages'')) (dec_int n) = JUndef"
  shows "verify_conversation env doc' later \<noteq> Inr d"
proof (rule append_cases [OF assms(1)])
  let ?doc = "set_message (JStr (dec_int n)) (js_clone m) doc"
  assume v: "verify_conversation env doc now = Inr doc"
    and d: "doc' = doc \<or> doc' = set_message (case key_text (cr_number env) (js_prop (js_prop m (js ''payload'')) (js ''messageId'')) of
       None \<Rightarrow> js_prop (js_prop m (js ''payload'')) (js ''messageId'') | Some t \<Rightarrow> JStr t) (js_clone m) doc"
  have o: "is_obj doc" using v conversation_is_obj by (auto simp: verify_conversation_iff frame_ok_def Let_def)
  have m: "is_obj (js_prop m (js ''payload''))" "is_obj m"
    using assms(2) js_prop_obj [of m "js ''payload''"] js_prop_obj [of "js_prop m (js ''payload'')" "js ''messageId''"]
    by (cases m; simp)+
  have i: "js_prop (js_prop (js_clone m) (js ''payload'')) (js ''messageId'') = JNum n"
    using m assms(2) by (simp add: js_prop_clone is_obj_defined)
  have "doc' = ?doc"
    using assms(1,2,4) unfolding append_message_def Let_def
    by (auto elim!: bind_r_InrE simp: js_index_def)
  then have "(dec_int n, js_clone m) \<in> set (js_entries (js_prop doc' (js ''messages'')))"
    using entries_obj_set_mem [OF assms(3)] by (simp add: set_message_messages [OF o])
  then have "\<not> list_all (message_entry_ok env doc' later) (js_entries (js_prop doc' (js ''messages'')))"
    using i by (force simp: list_all_iff message_entry_ok_def)
  then show ?thesis using verify_conversation_result verify_conversation_iff by metis
qed

section \<open>Participants\<close>

text \<open>A document that has all the participants of another one, and otherwise agrees with it.\<close>

definition extends_participants :: "jsval \<Rightarrow> jsval \<Rightarrow> bool" where
  "extends_participants doc doc' \<longleftrightarrow>
     (\<forall>k. js_truthy (js_prop (participants_of doc) k) \<longrightarrow> js_prop (participants_of doc') k = js_prop (participants_of doc) k) \<and>
     js_truthy (participants_of doc') \<and> is_obj doc' \<and> (\<forall>k. k \<noteq> js ''participants'' \<longrightarrow> js_prop doc' k = js_prop doc k)"

lemma extends_index:
  assumes "extends_participants doc doc'" "js_truthy (js_index cr (participants_of doc) k)"
  shows "js_index cr (participants_of doc') k = js_index cr (participants_of doc) k"
  using assms by (auto simp: extends_participants_def js_index_def split: option.splits)

lemma extends_props:
  "extends_participants doc doc' \<Longrightarrow> k \<noteq> js ''participants'' \<Longrightarrow> js_prop doc' k = js_prop doc k"
  by (simp add: extends_participants_def)

lemma extends_grant:
  assumes e: "extends_participants doc doc'" and v: "verify_grant cr doc p = Inr ()"
  shows "verify_grant cr doc' p = Inr ()"
  using v extends_index [OF e, of cr] extends_props [OF e]
  unfolding verify_grant_def Let_def grant_matches_def by (auto simp: bind_r_eq_Inr assert_r_eq_Inr)

lemma extends_message:
  assumes e: "extends_participants doc doc'" and v: "verify_message env doc m now = Inr ()"
  shows "verify_message env doc' m now = Inr ()"
  using v extends_index [OF e, of env] extends_props [OF e]
  unfolding verify_message_def Let_def message_head_def by (auto simp: bind_r_eq_Inr assert_r_eq_Inr)

lemma extends_frame:
  assumes e: "extends_participants doc doc'" and f: "frame_ok env doc"
  shows "frame_ok env doc'"
proof -
  have "js_truthy doc'" "js_truthy (participants_of doc')" using e by (cases doc'; simp add: extends_participants_def)+
  then show ?thesis
    using f extends_index [OF e, of env] extends_props [OF e]
    unfolding frame_ok_def Let_def conversation_head_def by auto
qed

lemma set_participant_extends:
  assumes "is_obj doc" "is_obj (participants_of doc)" "js_prop (participants_of doc) p = JUndef"
  shows "extends_participants doc (set_participant p r doc)"
  using assms is_obj_truthy by (auto simp: extends_participants_def set_participant_def obj_set_truthy)

lemma extended_conversation:
  assumes v: "verify_conversation env doc now = Inr doc" and o: "is_obj (participants_of doc)"
    and fresh: "js_prop (participants_of doc) p = JUndef"
    and r: "verify_grant env (set_participant p r doc) r = Inr ()" "person_of (js_prop r (js ''identity'')) = JStr p"
  shows "verify_conversation env (set_participant p r doc) now = Inr (set_participant p r doc)"
proof -
  let ?d = "set_participant p r doc"
  have d: "is_obj doc" using v conversation_is_obj by (auto simp: verify_conversation_iff frame_ok_def Let_def)
  have e: "extends_participants doc ?d" using d o fresh by (rule set_participant_extends)
  have "participant_entry_ok env ?d x" if "x \<in> set (js_entries (participants_of ?d))" for x
  proof -
    from that have "x = (p, r) \<or> x \<in> set (js_entries (participants_of doc))"
      using entries_obj_set d by (fastforce simp: set_participant_def)
    moreover have "participant_entry_ok env doc x \<Longrightarrow> participant_entry_ok env ?d x"
      using extends_grant [OF e] extends_props [OF e] by (auto simp: participant_entry_ok_def)
    ultimately show ?thesis
      using r v by (auto simp: verify_conversation_iff participant_entry_ok_def list_all_iff)
  qed
  moreover have "message_entry_ok env doc now x \<Longrightarrow> message_entry_ok env ?d now x" for x
    using extends_message [OF e] by (auto simp: message_entry_ok_def)
  ultimately show ?thesis
    using v extends_frame [OF e] extends_props [OF e] by (auto simp: verify_conversation_iff list_all_iff)
qed

lemma add_participant_cases:
  assumes "add_conversation_participant cr doc participant grant = Inr doc'" "js_clone doc = doc"
    and "person_of (js_prop participant (js ''identity'')) = JStr p"
  obtains r where "doc' = set_participant p r doc" "verify_grant cr (set_participant p r doc) r = Inr ()"
    "r = obj_set (js ''grant'') (js_clone grant) (js_spread (js_clone participant))"
  using assms by (auto simp: add_conversation_participant_def Let_def bind_r_eq_Inr)

lemma cloned_person:
  assumes "person_of (js_prop participant (js ''identity'')) = JStr p"
  shows "person_of (js_prop (obj_set (js ''grant'') g (js_spread (js_clone participant))) (js ''identity'')) = JStr p"
proof -
  have o: "is_obj (js_prop participant (js ''identity''))" "is_obj participant"
    using assms js_prop_obj [of "js_prop participant (js ''identity'')" "js ''personId''"]
    by (cases participant; simp)+
  have "is_obj (js_clone participant)" using o by (cases participant) simp_all
  moreover have "js_prop participant (js ''identity'') \<noteq> JUndef" using o by auto
  ultimately show ?thesis using o assms by (simp add: js_prop_clone)
qed

text \<open>
  C31. Adding a new participant keeps a conversation verified: when the person is not a participant yet, whatever
  \<open>addConversationParticipant\<close> returns for a verified conversation passes \<open>verifyConversation\<close> again, with all its
  messages and the other participants.
\<close>

theorem new_participant_keeps_verified:
  assumes "verify_conversation env doc now = Inr doc" "js_clone doc = doc" "is_obj (participants_of doc)"
    and "person_of (js_prop participant (js ''identity'')) = JStr p" "js_prop (participants_of doc) p = JUndef"
    and "add_conversation_participant env doc participant grant = Inr doc'"
  shows "verify_conversation env doc' now = Inr doc'"
proof (rule add_participant_cases [OF assms(6,2,4)])
  fix r assume "doc' = set_participant p r doc" "verify_grant env (set_participant p r doc) r = Inr ()"
    and "r = obj_set (js ''grant'') (js_clone grant) (js_spread (js_clone participant))"
  with extended_conversation [OF assms(1,3,5)] cloned_person [OF assms(4)] show ?thesis by blast
qed

text \<open>The participant record that a profile offers, and a grant the profile signs for itself.\<close>

abbreviation profile_record :: "local_profile \<Rightarrow> jsval" where
  "profile_record profile \<equiv> JObj [(js ''identity'', lp_identity profile), (js ''certificates'', JArr [lp_certificate profile])]"

lemma signed_grant:
  assumes "ed25519 env" "person_of (lp_identity issuer) = JStr i"
    and "create_conversation_grant env issuer c member role now = Inr grant"
  obtains t s where
    "grant = JObj [(js ''payload'', JObj [(js ''kind'', JStr (js ''conversation-grant'')), (js ''version'', JNum 1),
         (js ''conversationId'', JStr c), (js ''issuerPersonId'', JStr i),
         (js ''issuerDeviceId'', JStr (lp_device issuer)), (js ''memberPersonId'', JStr member), (js ''role'', JStr role),
         (js ''createdAt'', JStr t)]), (js ''signerKeyId'', JStr (lp_device issuer)), (js ''signature'', JStr s)]"
    "verify_envelope env grant (JStr (to_base64url (cr_public env (lp_device_key issuer)))) messaging_domain = Inr True"
proof -
  from assms(3) obtain t where t: "sign_envelope env (lp_device_key issuer)
       (JObj [(js ''kind'', JStr (js ''conversation-grant'')), (js ''version'', JNum 1),
         (js ''conversationId'', JStr c), (js ''issuerPersonId'', JStr i),
         (js ''issuerDeviceId'', JStr (lp_device issuer)), (js ''memberPersonId'', JStr member), (js ''role'', JStr role),
         (js ''createdAt'', JStr t)]) (lp_device issuer) messaging_domain = Inr grant"
    using assms(2) by (auto simp: create_conversation_grant_def bind_r_eq_Inr)
  show thesis by (rule signed_envelope [OF assms(1) t]) (auto simp: capture_envelope_payload_def intro: that)
qed

text \<open>
  C32. Nobody has to be admitted to a conversation: the record that is being added counts as an admin while its own
  grant is checked. A person who is not a participant signs an admin grant for themselves; \<open>addConversationParticipant\<close>
  accepts it, the result passes \<open>verifyConversation\<close>, and the person is an admin of the conversation.
\<close>

theorem self_granted_admin:
  assumes "ed25519 env" "verify_conversation env doc now = Inr doc" "js_clone doc = doc" "is_obj (participants_of doc)"
    and "js_prop doc (js ''conversationId'') = JStr c"
    and "person_of (lp_identity stranger) = JStr p" "js_prop (participants_of doc) p = JUndef"
    and "js_clone (lp_identity stranger) = lp_identity stranger" "js_clone (lp_certificate stranger) = lp_certificate stranger"
    and "verify_device env (lp_identity stranger) (JStr (lp_device stranger)) (JArr [lp_certificate stranger]) =
      Inr (JStr (to_base64url (cr_public env (lp_device_key stranger))))"
    and "create_conversation_grant env stranger c p (js ''admin'') now = Inr grant"
  shows "\<exists>doc'. add_conversation_participant env doc (profile_record stranger) grant = Inr doc' \<and>
    verify_conversation env doc' now = Inr doc' \<and> grant_role (js_prop (participants_of doc') p) = Inr (JStr (js ''admin''))"
proof (rule signed_grant [OF assms(1,6,11)])
  fix t s
  let ?r = "JObj [(js ''identity'', lp_identity stranger), (js ''certificates'', JArr [lp_certificate stranger]), (js ''grant'', grant)]"
  assume g: "grant = JObj [(js ''payload'', JObj [(js ''kind'', JStr (js ''conversation-grant'')), (js ''version'', JNum 1),
         (js ''conversationId'', JStr c), (js ''issuerPersonId'', JStr p),
         (js ''issuerDeviceId'', JStr (lp_device stranger)), (js ''memberPersonId'', JStr p), (js ''role'', JStr (js ''admin'')),
         (js ''createdAt'', JStr t)]), (js ''signerKeyId'', JStr (lp_device stranger)), (js ''signature'', JStr s)]"
    and signed_ok: "verify_envelope env grant (JStr (to_base64url (cr_public env (lp_device_key stranger)))) messaging_domain = Inr True"
  have d: "is_obj doc" using assms(2) conversation_is_obj by (auto simp: verify_conversation_iff frame_ok_def Let_def)
  have i: "lp_identity stranger \<noteq> JUndef" "lp_identity stranger \<noteq> JNull" using assms(6) by auto
  have "verify_grant env (set_participant p ?r doc) ?r = Inr ()"
    using signed_ok assms(5,6,10) d assms(4) i g
    by (simp add: verify_grant_def Let_def grant_matches_def get_r_def js_get_def set_participant_def js_index_def grant_role_def
        verify_signed_def assert_r_def)
  moreover have "obj_set (js ''grant'') (js_clone grant) (js_spread (js_clone (profile_record stranger))) = ?r"
    using assms(8,9) i g by simp
  ultimately have "add_conversation_participant env doc (profile_record stranger) grant = Inr (set_participant p ?r doc)"
    and "verify_conversation env (set_participant p ?r doc) now = Inr (set_participant p ?r doc)"
    using assms(3,6) extended_conversation [OF assms(2,4,7), of ?r]
    by (simp_all add: add_conversation_participant_def Let_def)
  then show ?thesis using d assms(4) g
    by (intro exI [of _ "set_participant p ?r doc"]) (simp add: set_participant_def grant_role_def get_r_def js_get_def)
qed

end
