(* ===== verification/Authority_Soundness.thy ===== *)
theory Authority_Soundness
  imports Identity_Authority Signature_Input
begin

text \<open>
  Theorems about the device authority of \<open>Identity_Authority\<close>: what a verified certificate chain certifies, that
  the walk which exports a chain returns, which devices a verified authority blocks, and that a merge of
  authority views never revives a blocked device.
\<close>

section \<open>Catalogs by hash\<close>

lemma by_hash_loop_spec:
  assumes "by_hash_loop cr cs m = Inr m'" "\<forall>(h, c) \<in> set m. c \<in> A \<and> certificate_hash cr c = Inr h" "distinct (map fst m)"
  shows "(\<forall>(h, c) \<in> set m'. c \<in> A \<union> set cs \<and> certificate_hash cr c = Inr h) \<and> distinct (map fst m') \<and>
    fst ` set m \<subseteq> fst ` set m' \<and> (\<forall>c \<in> set cs. \<exists>h. certificate_hash cr c = Inr h \<and> h \<in> fst ` set m')"
  using assms
proof (induction cs arbitrary: m A)
  case (Cons c cs)
  from Cons.prems(1) obtain h where h: "certificate_hash cr c = Inr h" "by_hash_loop cr cs (AList.update h c m) = Inr m'"
    by (auto simp: bind_r_eq_Inr)
  have mem: "v \<in> insert c A \<and> certificate_hash cr v = Inr k" if "(k, v) \<in> set (AList.update h c m)" for k v
  proof -
    from that have "map_of (AList.update h c m) k = Some v" using Cons.prems(3) by (simp add: distinct_update)
    then have "k = h \<and> v = c \<or> (k, v) \<in> set m"
      by (auto simp: update_conv' split: if_splits dest: map_of_SomeD)
    then show ?thesis using Cons.prems(2) h(1) by auto
  qed
  then have "\<forall>(k, v) \<in> set (AList.update h c m). v \<in> insert c A \<and> certificate_hash cr v = Inr k" by blast
  from Cons.IH [OF h(2) this] Cons.prems(3) h(1) show ?case
    unfolding dom_update by (simp add: distinct_update)
qed auto

lemma by_hash_spec:
  assumes "by_hash cr cs = Inr m"
  shows "map_of m h = Some c \<Longrightarrow> c \<in> set cs \<and> certificate_hash cr c = Inr h"
    and "c \<in> set cs \<Longrightarrow> \<exists>h c'. certificate_hash cr c = Inr h \<and> map_of m h = Some c'"
proof -
  note spec = by_hash_loop_spec [OF assms [unfolded by_hash_def], of "{}", simplified]
  show "map_of m h = Some c \<Longrightarrow> c \<in> set cs \<and> certificate_hash cr c = Inr h"
    using spec by (auto dest!: map_of_SomeD)
  show "c \<in> set cs \<Longrightarrow> \<exists>h c'. certificate_hash cr c = Inr h \<and> map_of m h = Some c'"
    using spec by (metis map_of_eq_None_iff option.exhaust)
qed

section \<open>Walking towards the root\<close>

abbreviation issuer_of :: "jsval \<Rightarrow> jsval" where
  "issuer_of c \<equiv> js_prop (payload_of c) (js ''issuerCertificateHash'')"

definition certificate_ok :: "'m mesh_crypto_scheme \<Rightarrow> public_identity \<Rightarrow> jsval \<Rightarrow> bool" where
  "certificate_ok cr identity c \<longleftrightarrow>
     js_prop (payload_of c) (js ''kind'') = JStr (js ''device-certificate'') \<and> js_prop (payload_of c) (js ''version'') = JNum 1 \<and>
     js_prop (payload_of c) (js ''personId'') = JStr (pi_person identity) \<and>
     (\<exists>i. public_key_id cr (js_prop (payload_of c) (js ''devicePublicKey'')) = Inr i \<and> device_of c = JStr i)"

lemma chain_loop_cases:
  assumes "chain_loop cr identity domain hashes c seen = Inr u"
  obtains (root) "certificate_ok cr identity c" "device_of c \<notin> set seen" "issuer_of c = JNull"
      "js_prop c (js ''signerKeyId'') = JStr (pi_person identity)"
      "verify_envelope cr c (JStr (pi_key identity)) domain = Inr True"
    | (issued) i where "certificate_ok cr identity c" "device_of c \<notin> set seen" "issuer_of c \<noteq> JNull"
      "hash_get hashes (issuer_of c) = Some i" "js_truthy i" "js_truthy (js_prop (payload_of i) (js ''canEnrollDevices''))"
      "js_prop c (js ''signerKeyId'') = device_of i"
      "verify_envelope cr c (js_prop (payload_of i) (js ''devicePublicKey'')) domain = Inr True"
      "chain_loop cr identity domain hashes i (device_of c # seen) = Inr ()"
  using assms
  by (subst (asm) chain_loop.simps)
    (auto simp: bind_r_eq_Inr js_get_Inr certificate_ok_def dest: js_eq_eq split: if_splits option.splits)

text \<open>The certificates from one certificate up to its root.\<close>

inductive chain_path :: "(jstring \<times> jsval) list \<Rightarrow> jsval \<Rightarrow> jsval list \<Rightarrow> bool" for hashes where
  root: "get_device c = Inr (device_of c) \<Longrightarrow> issuer_of c = JNull \<Longrightarrow> chain_path hashes c [c]"
| issued: "get_device c = Inr (device_of c) \<Longrightarrow> issuer_of c \<noteq> JNull \<Longrightarrow> hash_get hashes (issuer_of c) = Some i \<Longrightarrow>
    js_truthy i \<Longrightarrow> chain_path hashes i p \<Longrightarrow> chain_path hashes c (c # p)"

lemma certificate_ok_device: "certificate_ok cr identity c \<Longrightarrow> get_device c = Inr (device_of c)"
  by (cases c; cases "payload_of c") (auto simp: certificate_ok_def get_device_def js_get_def)

lemma chain_loop_path:
  assumes "chain_loop cr identity domain hashes c seen = Inr u"
  shows "\<exists>p. chain_path hashes c p \<and> distinct (map device_of p) \<and> device_of ` set p \<inter> set seen = {} \<and>
    (\<forall>a \<in> set p. certificate_ok cr identity a)"
  using assms
proof (induction "unseen hashes c seen" arbitrary: c seen u rule: less_induct)
  case less
  from less.prems show ?case
  proof (cases rule: chain_loop_cases)
    case root
    then have "chain_path hashes c [c]" by (intro chain_path.root certificate_ok_device)
    with root show ?thesis by (intro exI [of _ "[c]"]) simp
  next
    case (issued i)
    from less.hyps [OF unseen_less [OF issued(4,2)] issued(9)] obtain p where p: "chain_path hashes i p"
      "distinct (map device_of p)" "device_of ` set p \<inter> set (device_of c # seen) = {}"
      "\<forall>a \<in> set p. certificate_ok cr identity a" by blast
    have "chain_path hashes c (c # p)" using issued p(1) by (intro chain_path.issued certificate_ok_device)
    with issued p show ?thesis by (intro exI [of _ "c # p"]) auto
  qed
qed

lemma chain_walk_path: "chain_path hashes c p \<Longrightarrow> chain_walk hashes c ch = Some (Inr (ch @ p))"
proof (induction arbitrary: ch rule: chain_path.induct)
  case (root c)
  then show ?case by (subst chain_walk.simps) (auto simp: get_device_def bind_r_eq_Inr js_get_Inr)
next
  case (issued c i p)
  then show ?case by (subst chain_walk.simps) (auto simp: get_device_def bind_r_eq_Inr js_get_Inr)
qed

lemma revoked_loop_path:
  assumes "chain_path hashes c p" "distinct (map device_of p)" "device_of ` set p \<inter> set seen = {}"
  shows "revoked_loop hashes revoked c seen = Inr (\<exists>a \<in> set p. device_of a \<in> JStr ` set revoked)"
  using assms
proof (induction arbitrary: seen rule: chain_path.induct)
  case (issued c i p)
  have "revoked_loop hashes revoked i (device_of c # seen) = Inr (\<exists>a \<in> set p. device_of a \<in> JStr ` set revoked)"
    using issued.prems by (intro issued.IH) auto
  with issued show ?case by (subst revoked_loop.simps) simp
qed (subst revoked_loop.simps, simp)

lemma descendant_loop_path:
  assumes "chain_path hashes c p" "distinct (map device_of p)" "device_of ` set p \<inter> set seen = {}"
  shows "descendant_loop hashes d c seen = Inr (\<exists>a \<in> set p. device_of a = JStr d)"
  using assms
proof (induction arbitrary: seen rule: chain_path.induct)
  case (issued c i p)
  have "descendant_loop hashes d i (device_of c # seen) = Inr (\<exists>a \<in> set p. device_of a = JStr d)"
    using issued.prems by (intro issued.IH) auto
  with issued show ?case by (subst descendant_loop.simps) simp
qed (subst descendant_loop.simps, simp)

lemma chain_path_head: "chain_path hashes c p \<Longrightarrow> \<exists>q. p = c # q"
  by (cases rule: chain_path.cases) auto

section \<open>What a chain certifies\<close>

text \<open>A certificate is certified when its issuer's certificate is, up to a root certificate that the identity key
  signed.\<close>

inductive certified :: "'m mesh_crypto_scheme \<Rightarrow> public_identity \<Rightarrow> jstring \<Rightarrow> jsval list \<Rightarrow> jsval \<Rightarrow> bool"
  for cr identity domain certificates where
  root: "certificate_ok cr identity c \<Longrightarrow> issuer_of c = JNull \<Longrightarrow> js_prop c (js ''signerKeyId'') = JStr (pi_person identity) \<Longrightarrow>
    verify_envelope cr c (JStr (pi_key identity)) domain = Inr True \<Longrightarrow> certified cr identity domain certificates c"
| issued: "certificate_ok cr identity c \<Longrightarrow> i \<in> set certificates \<Longrightarrow> certificate_hash cr i = Inr h \<Longrightarrow> issuer_of c = JStr h \<Longrightarrow>
    js_truthy (js_prop (payload_of i) (js ''canEnrollDevices'')) \<Longrightarrow> js_prop c (js ''signerKeyId'') = device_of i \<Longrightarrow>
    verify_envelope cr c (js_prop (payload_of i) (js ''devicePublicKey'')) domain = Inr True \<Longrightarrow>
    certified cr identity domain certificates i \<Longrightarrow> certified cr identity domain certificates c"

lemma chain_loop_certified:
  assumes "by_hash cr certificates = Inr hashes" "chain_loop cr identity domain hashes c seen = Inr u"
  shows "certified cr identity domain certificates c"
  using assms(2)
proof (induction "unseen hashes c seen" arbitrary: c seen u rule: less_induct)
  case less
  from less.prems show ?case
  proof (cases rule: chain_loop_cases)
    case root
    then show ?thesis by (intro certified.root)
  next
    case (issued i)
    then obtain h where h: "issuer_of c = JStr h" "map_of hashes h = Some i"
      by (auto simp: hash_get_def split: jsval.splits)
    from less.hyps [OF unseen_less [OF issued(4,2)] issued(9)] have "certified cr identity domain certificates i" .
    with issued h by_hash_spec(1) [OF assms(1) h(2)] show ?thesis by (intro certified.issued [of cr identity c i]) auto
  qed
qed

lemma find_device_Some:
  assumes "find_device d cs = Inr (Some c)"
  shows "c \<in> set cs \<and> device_of c = JStr d"
  using assms by (induction cs) (auto simp: bind_r_eq_Inr dest!: get_device_Inr split: if_splits)

lemma verify_chain_cases:
  assumes "verify_device_certificate_chain cr identity d certificates domain = Inr key"
  obtains hashes leaf where "by_hash cr certificates = Inr hashes" "find_device d certificates = Inr (Some leaf)"
    "chain_loop cr identity domain hashes leaf [] = Inr ()" "key = js_prop (payload_of leaf) (js ''devicePublicKey'')"
    "length certificates \<le> 32" "public_key_id cr (JStr (pi_key identity)) = Inr (pi_person identity)"
  using assms unfolding verify_device_certificate_chain_def
  by (auto simp: bind_r_eq_Inr split: if_splits option.splits)

text \<open>C17. A key that \<open>verifyDeviceCertificateChain\<close> returns belongs to the device asked for (its hash is the device
  id) and its certificate is certified: every certificate up to the root is well formed, names this person, is
  signed with the key of an issuer that may enroll devices, and the root is signed with the identity key.\<close>

theorem verified_chain_certified:
  assumes "verify_device_certificate_chain cr identity d certificates domain = Inr key"
  shows "\<exists>leaf \<in> set certificates. device_of leaf = JStr d \<and> key = js_prop (payload_of leaf) (js ''devicePublicKey'') \<and>
    public_key_id cr key = Inr d \<and> certified cr identity domain certificates leaf"
proof -
  from assms obtain hashes leaf where v: "by_hash cr certificates = Inr hashes" "find_device d certificates = Inr (Some leaf)"
    "chain_loop cr identity domain hashes leaf [] = Inr ()" "key = js_prop (payload_of leaf) (js ''devicePublicKey'')"
    by (rule verify_chain_cases)
  have "certified cr identity domain certificates leaf" by (rule chain_loop_certified [OF v(1,3)])
  moreover from this have "certificate_ok cr identity leaf" by (cases rule: certified.cases)
  ultimately show ?thesis using find_device_Some [OF v(2)] v(4) by (auto simp: certificate_ok_def)
qed

section \<open>Verified catalogs\<close>

lemma chain_path_unique: "chain_path hashes c p \<Longrightarrow> chain_path hashes c q \<Longrightarrow> p = q"
  using chain_walk_path [of hashes c p "[]"] chain_walk_path [of hashes c q "[]"] by simp

definition ancestors :: "(jstring \<times> jsval) list \<Rightarrow> jsval \<Rightarrow> jsval set" where
  "ancestors hashes c = {a. \<exists>p. chain_path hashes c p \<and> a \<in> set p}"

lemma ancestors_path: "chain_path hashes c p \<Longrightarrow> ancestors hashes c = set p"
  by (auto simp: ancestors_def dest: chain_path_unique)

lemma by_device_loop_spec:
  assumes "by_device_loop cs m = Inr devices" "distinct (map fst m)"
  shows "distinct (map fst devices) \<and> map snd devices = map snd m @ cs \<and>
    (\<forall>x \<in> set devices. x \<in> set m \<or> device_of (snd x) = JStr (fst x))"
  using assms
proof (induction cs arbitrary: m)
  case (Cons c cs)
  then obtain d where d: "device_of c = JStr d" by (cases "device_of c") auto
  with Cons.prems have none: "map_of m d = None" and loop: "by_device_loop cs (m @ [(d, c)]) = Inr devices"
    by (simp_all add: map_of_eq_None_iff image_iff split: if_splits)
  from none have "d \<notin> fst ` set m" by (simp add: map_of_eq_None_iff)
  with Cons.IH [OF loop] Cons.prems(2) d show ?case by auto
qed simp

lemma verify_chains_spec:
  "verify_chains cr identity certificates domain ds = Inr u \<Longrightarrow> d \<in> set ds \<Longrightarrow>
    \<exists>key. verify_device_certificate_chain cr identity d certificates domain = Inr key"
  by (induction ds) (auto simp: bind_r_eq_Inr)

text \<open>A catalog as \<open>verifyIdentityDeviceAuthority\<close> accepts it.\<close>

definition verified_catalog ::
  "'m mesh_crypto_scheme \<Rightarrow> public_identity \<Rightarrow> jsval list \<Rightarrow> jstring \<Rightarrow> (jstring \<times> jsval) list \<Rightarrow> bool" where
  "verified_catalog cr identity certificates domain devices \<longleftrightarrow>
     by_device_loop certificates [] = Inr devices \<and> verify_chains cr identity certificates domain (map fst devices) = Inr ()"

lemma catalog_devices:
  assumes "verified_catalog cr identity certificates domain devices"
  shows "distinct (map fst devices)" "map snd devices = certificates" "(d, c) \<in> set devices \<Longrightarrow> device_of c = JStr d"
  using by_device_loop_spec [of certificates "[]" devices] assms by (auto simp: verified_catalog_def)

lemma catalog_find:
  assumes "verified_catalog cr identity certificates domain devices" "c \<in> set certificates" "device_of c = JStr d"
  shows "(d, c) \<in> set devices" "find_device d certificates = Inr (Some c)"
    "\<exists>key. verify_device_certificate_chain cr identity d certificates domain = Inr key"
proof -
  note dev = catalog_devices [OF assms(1)]
  from assms(2) dev(2) obtain d' where "(d', c) \<in> set devices" by force
  with dev(3) assms(3) show mem: "(d, c) \<in> set devices" by fastforce
  then have "d \<in> set (map fst devices)" by force
  with assms(1) show "\<exists>key. verify_device_certificate_chain cr identity d certificates domain = Inr key"
    unfolding verified_catalog_def using verify_chains_spec by blast
  then obtain key where "verify_device_certificate_chain cr identity d certificates domain = Inr key" ..
  then obtain leaf where leaf: "find_device d certificates = Inr (Some leaf)" by (rule verify_chain_cases)
  then have "leaf \<in> set certificates" "device_of leaf = JStr d" by (auto dest: find_device_Some)
  with dev(2) obtain d' where "(d', leaf) \<in> set devices" by force
  with dev(3) \<open>device_of leaf = JStr d\<close> have "(d, leaf) \<in> set devices" by fastforce
  with mem dev(1) have "leaf = c" by (metis map_of_is_SomeI option.inject)
  with leaf show "find_device d certificates = Inr (Some c)" by simp
qed

lemma catalog_string:
  assumes "verified_catalog cr identity certificates domain devices" "c \<in> set certificates"
  obtains d where "device_of c = JStr d"
  using catalog_devices [OF assms(1)] assms(2) by force

lemma catalog_path:
  assumes "verified_catalog cr identity certificates domain devices" "c \<in> set certificates" "by_hash cr certificates = Inr hashes"
  obtains p where "chain_path hashes c p" "distinct (map device_of p)" "\<forall>a \<in> set p. certificate_ok cr identity a"
proof -
  from catalog_string [OF assms(1,2)] obtain d where d: "device_of c = JStr d" .
  note find = catalog_find [OF assms(1,2) d]
  from find(3) obtain key where "verify_device_certificate_chain cr identity d certificates domain = Inr key" ..
  then obtain hashes' leaf where "by_hash cr certificates = Inr hashes'" "find_device d certificates = Inr (Some leaf)"
    "chain_loop cr identity domain hashes' leaf [] = Inr ()" by (rule verify_chain_cases)
  with find(2) assms(3) have "chain_loop cr identity domain hashes c [] = Inr ()" by simp
  from chain_loop_path [OF this] that show thesis by auto
qed

lemma catalog_revoked:
  assumes "verified_catalog cr identity certificates domain devices" "c \<in> set certificates" "device_of c = JStr d"
    "by_hash cr certificates = Inr hashes"
  shows "is_chain_revoked cr d revoked certificates = Inr (\<exists>a \<in> ancestors hashes c. device_of a \<in> JStr ` set revoked)"
proof -
  from catalog_path [OF assms(1,2,4)] obtain p where "chain_path hashes c p" "distinct (map device_of p)" .
  then show ?thesis using catalog_find(2) [OF assms(1-3)] assms(4) revoked_loop_path [of hashes c p "[]"]
    by (simp add: is_chain_revoked_def ancestors_path)
qed

lemma catalog_descendant:
  assumes "verified_catalog cr identity certificates domain devices" "c \<in> set certificates" "by_hash cr certificates = Inr hashes"
  shows "is_certificate_descendant cr c d certificates = Inr (\<exists>a \<in> ancestors hashes c. device_of a = JStr d)"
proof -
  from catalog_path [OF assms] obtain p where "chain_path hashes c p" "distinct (map device_of p)" .
  moreover from this(1) have "get_device c = Inr (device_of c)" by (cases rule: chain_path.cases)
  moreover from this have "js_truthy c \<or> device_of c = JUndef" by (cases c) (auto simp: get_device_def js_get_def)
  moreover from catalog_string [OF assms(1,2)] obtain i where "device_of c = JStr i" .
  ultimately show ?thesis using assms(3) descendant_loop_path [of hashes c p "[]" d]
    by (simp add: is_certificate_descendant_def ancestors_path)
qed

section \<open>Blocked devices\<close>

lemma descendants_loop_spec:
  assumes "verified_catalog cr identity certificates domain devices" "by_hash cr certificates = Inr hashes"
    "set cs \<subseteq> set certificates"
  shows "\<exists>ds. descendants_loop cr d certificates cs subtree = Inr ds \<and>
    set ds = set subtree \<union> device_of ` {c \<in> set cs. \<exists>a \<in> ancestors hashes c. device_of a = JStr d}"
  using assms(3)
proof (induction cs arbitrary: subtree)
  case (Cons c cs)
  then have c: "c \<in> set certificates" by simp
  from catalog_path [OF assms(1) c assms(2)] obtain p where "chain_path hashes c p" .
  then have g: "get_device c = Inr (device_of c)" by (cases rule: chain_path.cases)
  show ?case
  proof (cases "\<exists>a \<in> ancestors hashes c. device_of a = JStr d")
    case True
    then have "{x \<in> set (c # cs). \<exists>a \<in> ancestors hashes x. device_of a = JStr d} =
        insert c {x \<in> set cs. \<exists>a \<in> ancestors hashes x. device_of a = JStr d}" by auto
    moreover from Cons.IH [of "List.insert (device_of c) subtree"] Cons.prems obtain ds where
      "descendants_loop cr d certificates cs (List.insert (device_of c) subtree) = Inr ds"
      "set ds = set (List.insert (device_of c) subtree) \<union>
         device_of ` {x \<in> set cs. \<exists>a \<in> ancestors hashes x. device_of a = JStr d}" by auto
    ultimately show ?thesis using True by (simp add: catalog_descendant [OF assms(1) c assms(2)] g)
  next
    case False
    then have "{x \<in> set (c # cs). \<exists>a \<in> ancestors hashes x. device_of a = JStr d} =
        {x \<in> set cs. \<exists>a \<in> ancestors hashes x. device_of a = JStr d}" by auto
    with False Cons.IH [of subtree] Cons.prems show ?thesis
      by (simp add: catalog_descendant [OF assms(1) c assms(2)])
  qed
qed simp

lemma descendants_spec:
  assumes "verified_catalog cr identity certificates domain devices" "by_hash cr certificates = Inr hashes"
  obtains ds where "identity_device_descendants cr d certificates = Inr ds"
    "set ds = device_of ` {c \<in> set certificates. \<exists>a \<in> ancestors hashes c. device_of a = JStr d}"
  using descendants_loop_spec [OF assms, of certificates d "[]"] by (auto simp: identity_device_descendants_def)

lemma blocked_loop_spec:
  "blocked_loop cr certificates revoked ds = Inr bs \<Longrightarrow>
    set bs = {d \<in> set ds. is_chain_revoked cr d revoked certificates = Inr True}"
  by (induction ds arbitrary: bs) (auto simp: bind_r_eq_Inr split: if_splits)

lemma management_loop_spec:
  assumes "management_loop cr identity certificates revoked domain cs = Inr True"
  shows "\<exists>c d key. c \<in> set cs \<and> device_of c = JStr d \<and> js_truthy (js_prop (payload_of c) (js ''canEnrollDevices'')) \<and>
    is_chain_revoked cr d revoked certificates = Inr False \<and>
    verify_device_certificate_chain cr identity d certificates domain = Inr key"
  using assms
proof (induction cs)
  case (Cons c cs)
  let ?rest = "management_loop cr identity certificates revoked domain cs = Inr True"
  from Cons.prems have "(case (js_truthy (js_prop (payload_of c) (js ''canEnrollDevices'')), device_of c) of
       (True, JStr d) \<Rightarrow>
         bind_r (is_chain_revoked cr d revoked certificates) (\<lambda>r.
         if r then management_loop cr identity certificates revoked domain cs
         else
           (case verify_device_certificate_chain cr identity d certificates domain of
              Inr key \<Rightarrow> Inr True
            | Inl e \<Rightarrow> management_loop cr identity certificates revoked domain cs))
     | _ \<Rightarrow> management_loop cr identity certificates revoked domain cs) = Inr True"
    by (simp add: bind_r_eq_Inr js_get_Inr)
  then consider ?rest | d where "js_truthy (js_prop (payload_of c) (js ''canEnrollDevices''))" "device_of c = JStr d"
      "is_chain_revoked cr d revoked certificates = Inr False"
      "\<exists>key. verify_device_certificate_chain cr identity d certificates domain = Inr key"
    by (cases "js_truthy (js_prop (payload_of c) (js ''canEnrollDevices''))"; cases "device_of c")
      (auto simp: bind_r_eq_Inr split: if_splits sum.splits)
  then show ?case using Cons.IH by cases (meson list.set_intros)+
qed simp

lemma revocation_step_spec:
  assumes "revocation_step cr identity certificates devices domain index r w = Inr w'"
  obtains d signer key where "device_of r = JStr d" "js_prop r (js ''signerKeyId'') = JStr signer"
    "js_prop (payload_of r) (js ''revision'') = JNum (int index + 1)" "aw_revoked w' = aw_revoked w @ [d]"
    "is_chain_revoked cr signer (aw_revoked w) certificates = Inr False" "d \<notin> set (aw_revoked w)"
    "verify_device_certificate_chain cr identity signer certificates domain = Inr key" "verify_envelope cr r key domain = Inr True"
    "active_management_devices cr identity certificates (aw_revoked w') domain = Inr True"
proof -
  from assms obtain d signer where ds: "device_of r = JStr d" "js_prop r (js ''signerKeyId'') = JStr signer"
    by (cases "device_of r"; cases "js_prop r (js ''signerKeyId'')") (simp_all add: revocation_step_def)
  from assms ds have "\<exists>key. js_prop (payload_of r) (js ''revision'') = JNum (int index + 1) \<and>
      aw_revoked w' = aw_revoked w @ [d] \<and> is_chain_revoked cr signer (aw_revoked w) certificates = Inr False \<and>
      d \<notin> set (aw_revoked w) \<and> verify_device_certificate_chain cr identity signer certificates domain = Inr key \<and>
      verify_envelope cr r key domain = Inr True \<and>
      active_management_devices cr identity certificates (aw_revoked w') domain = Inr True"
    by (auto simp: revocation_step_def bind_r_eq_Inr revocation_shape_def split: if_splits option.splits)
  then show thesis using ds that by blast
qed

lemma revocations_loop_spec:
  assumes "revocations_loop cr identity certificates devices domain index rs w = Inr w'"
  shows "\<exists>new. aw_revoked w' = aw_revoked w @ new \<and> map device_of rs = map JStr new \<and>
    map (\<lambda>r. js_prop (payload_of r) (js ''revision'')) rs = map (\<lambda>i. JNum (int i + 1)) [index..<index + length rs] \<and>
    (rs \<noteq> [] \<longrightarrow> active_management_devices cr identity certificates (aw_revoked w') domain = Inr True)"
  using assms
proof (induction rs arbitrary: index w)
  case (Cons r rs)
  then obtain w1 where w1: "revocation_step cr identity certificates devices domain index r w = Inr w1"
    "revocations_loop cr identity certificates devices domain (index + 1) rs w1 = Inr w'"
    by (auto simp: bind_r_eq_Inr)
  from w1(1) obtain d where d: "device_of r = JStr d" "js_prop (payload_of r) (js ''revision'') = JNum (int index + 1)"
    "aw_revoked w1 = aw_revoked w @ [d]"
    "active_management_devices cr identity certificates (aw_revoked w1) domain = Inr True"
    by (rule revocation_step_spec)
  from Cons.IH [OF w1(2)] obtain new where new: "aw_revoked w' = aw_revoked w1 @ new" "map device_of rs = map JStr new"
    "map (\<lambda>r. js_prop (payload_of r) (js ''revision'')) rs = map (\<lambda>i. JNum (int i + 1)) [index + 1..<index + 1 + length rs]"
    "rs \<noteq> [] \<longrightarrow> active_management_devices cr identity certificates (aw_revoked w') domain = Inr True" by blast
  have act: "active_management_devices cr identity certificates (aw_revoked w') domain = Inr True"
    using new d(4) w1(2) by (cases rs) auto
  have "[index..<index + length (r # rs)] = index # [index + 1..<index + 1 + length rs]" by (simp add: upt_rec)
  with d new act show ?case by (intro exI [of _ "d # new"]) simp
qed simp

lemma authority_cases:
  assumes "verify_identity_device_authority cr identity evidence domain = Inr authority"
  obtains devices hashes w where "verified_catalog cr identity (da_certificates authority) domain devices"
    "by_hash cr (da_certificates authority) = Inr hashes"
    "revocations_loop cr identity (da_certificates authority) devices domain 0 (da_ordered authority)
       \<lparr> aw_revoked = [], aw_covered = [], aw_total = 0 \<rparr> = Inr w" "da_revoked authority = aw_revoked w"
    "blocked_loop cr (da_certificates authority) (da_revoked authority) (map fst devices) = Inr (da_blocked authority)"
    "js_prop evidence (js ''certificates'') = JArr (da_certificates authority)"
    "js_prop evidence (js ''revocations'') = JArr (da_revocations authority)"
    "da_ordered authority = js_sort revision_le (da_revocations authority)" "da_identity authority = identity"
    "length (da_certificates authority) \<le> 32"
proof -
  from assms obtain cs rs where ev: "js_prop evidence (js ''certificates'') = JArr cs" "js_prop evidence (js ''revocations'') = JArr rs"
    by (cases "js_prop evidence (js ''certificates'')"; cases "js_prop evidence (js ''revocations'')")
      (simp_all add: verify_identity_device_authority_def)
  from assms ev obtain devices w where d: "by_device_loop cs [] = Inr devices" "cs \<noteq> []"
    "verify_chains cr identity cs domain (map fst devices) = Inr ()"
    "revocations_loop cr identity cs devices domain 0 (js_sort revision_le rs)
       \<lparr> aw_revoked = [], aw_covered = [], aw_total = 0 \<rparr> = Inr w"
    "blocked_loop cr cs (aw_revoked w) (map fst devices) = Inr (da_blocked authority)"
    "da_certificates authority = cs" "da_revocations authority = rs" "da_ordered authority = js_sort revision_le rs"
    "da_revoked authority = aw_revoked w" "da_identity authority = identity"
    by (auto simp: verify_identity_device_authority_def bind_r_eq_Inr Let_def split: if_splits)
  then have cat: "verified_catalog cr identity cs domain devices" by (simp add: verified_catalog_def)
  from d(2) obtain c where c: "c \<in> set cs" by (cases cs) auto
  from catalog_string [OF cat c] obtain i where "device_of c = JStr i" .
  from catalog_find(3) [OF cat c this] obtain key where "verify_device_certificate_chain cr identity i cs domain = Inr key" ..
  then obtain hashes where "by_hash cr cs = Inr hashes" "length cs \<le> 32" by (rule verify_chain_cases)
  with d cat ev that show thesis by simp
qed

lemma blocked_iff:
  assumes cat: "verified_catalog cr identity certificates domain devices" "by_hash cr certificates = Inr hashes"
    and "blocked_loop cr certificates revoked (map fst devices) = Inr blocked" "c \<in> set certificates" "device_of c = JStr d"
  shows "d \<in> set blocked \<longleftrightarrow> (\<exists>a \<in> ancestors hashes c. device_of a \<in> JStr ` set revoked)"
proof -
  have "d \<in> set (map fst devices)" using catalog_find(1) [OF cat(1) assms(4,5)] by force
  then show ?thesis
    using blocked_loop_spec [OF assms(3)] catalog_revoked [OF cat(1) assms(4,5) cat(2)] by auto
qed

lemma authority_facts:
  assumes "verify_identity_device_authority cr identity evidence domain = Inr authority"
  shows "map (\<lambda>r. js_prop (payload_of r) (js ''revision'')) (da_ordered authority) =
      map (\<lambda>i. JNum (int i + 1)) [0..<length (da_ordered authority)]"
    and "map device_of (da_ordered authority) = map JStr (da_revoked authority)"
    and "JStr ` set (da_blocked authority) =
      (\<Union>r \<in> set (da_revoked authority). case identity_device_descendants cr r (da_certificates authority) of
         Inr ds \<Rightarrow> set ds | Inl e \<Rightarrow> {})"
    and "da_revoked authority = [] \<or> (\<exists>d key. authorize_identity_device cr authority d domain = Inr key)"
proof -
  from assms obtain devices hashes w where a: "verified_catalog cr identity (da_certificates authority) domain devices"
    "by_hash cr (da_certificates authority) = Inr hashes"
    "revocations_loop cr identity (da_certificates authority) devices domain 0 (da_ordered authority)
       \<lparr> aw_revoked = [], aw_covered = [], aw_total = 0 \<rparr> = Inr w" "da_revoked authority = aw_revoked w"
    "blocked_loop cr (da_certificates authority) (da_revoked authority) (map fst devices) = Inr (da_blocked authority)"
    "da_identity authority = identity" by (rule authority_cases)
  let ?cs = "da_certificates authority" and ?rev = "da_revoked authority"
  from revocations_loop_spec [OF a(3)] a(4) have l: "map device_of (da_ordered authority) = map JStr ?rev"
    "map (\<lambda>r. js_prop (payload_of r) (js ''revision'')) (da_ordered authority) = map (\<lambda>i. JNum (int i + 1)) [0..<length (da_ordered authority)]"
    "da_ordered authority \<noteq> [] \<longrightarrow> active_management_devices cr identity ?cs ?rev domain = Inr True" by auto
  show "map (\<lambda>r. js_prop (payload_of r) (js ''revision'')) (da_ordered authority) =
      map (\<lambda>i. JNum (int i + 1)) [0..<length (da_ordered authority)]" by (rule l(2))
  show "map device_of (da_ordered authority) = map JStr ?rev" by (rule l(1))
  have desc: "(case identity_device_descendants cr r ?cs of Inr ds \<Rightarrow> set ds | Inl e \<Rightarrow> {}) =
      device_of ` {c \<in> set ?cs. \<exists>a \<in> ancestors hashes c. device_of a = JStr r}" for r
    by (rule descendants_spec [OF a(1,2), of r]) simp
  show "JStr ` set (da_blocked authority) = (\<Union>r \<in> set ?rev. case identity_device_descendants cr r ?cs of
       Inr ds \<Rightarrow> set ds | Inl e \<Rightarrow> {})" (is "?l = ?r")
  proof
    show "?l \<subseteq> ?r"
    proof
      fix x assume "x \<in> ?l"
      then obtain d where d: "x = JStr d" "d \<in> set (da_blocked authority)" by blast
      with blocked_loop_spec [OF a(5)] obtain c where "(d, c) \<in> set devices" by auto
      then have "c \<in> set (map snd devices)" by force
      with \<open>(d, c) \<in> set devices\<close> have c: "c \<in> set ?cs" "device_of c = JStr d"
        using catalog_devices(2) [OF a(1)] catalog_devices(3) [OF a(1)] by auto
      with blocked_iff [OF a(1,2,5) c] d obtain r where r: "r \<in> set ?rev" "\<exists>a \<in> ancestors hashes c. device_of a = JStr r"
        by auto
      with c d show "x \<in> ?r" unfolding desc by (intro UN_I [of r] image_eqI [of _ _ c]) simp_all
    qed
    show "?r \<subseteq> ?l"
    proof
      fix x assume "x \<in> ?r"
      then obtain r c where c: "r \<in> set ?rev" "c \<in> set ?cs" "x = device_of c" "\<exists>a \<in> ancestors hashes c. device_of a = JStr r"
        unfolding desc by blast
      from catalog_string [OF a(1) c(2)] obtain d where d: "device_of c = JStr d" .
      with blocked_iff [OF a(1,2,5) c(2) d] c show "x \<in> ?l" by auto
    qed
  qed
  show "?rev = [] \<or> (\<exists>d key. authorize_identity_device cr authority d domain = Inr key)"
  proof (cases "?rev = []")
    case False
    with l(1,3) have "management_loop cr identity ?cs ?rev domain ?cs = Inr True" by (auto simp: active_management_devices_def)
    from management_loop_spec [OF this] obtain c d key where c: "c \<in> set ?cs" "device_of c = JStr d"
      "js_truthy (js_prop (payload_of c) (js ''canEnrollDevices''))" "is_chain_revoked cr d ?rev ?cs = Inr False"
      "verify_device_certificate_chain cr identity d ?cs domain = Inr key" by blast
    with blocked_loop_spec [OF a(5)] have "d \<notin> set (da_blocked authority)" by simp
    with c catalog_find(2) [OF a(1) c(1,2)] a(6) have "authorize_identity_device cr authority d domain = Inr key"
      by (simp add: authorize_identity_device_def)
    then show ?thesis by blast
  qed simp
qed

text \<open>C18. In a verified authority the revocations are numbered from one without a gap, the revoked devices are exactly
  the ones they name, a device is blocked exactly when it descends from a revoked one, and as soon as
  something is revoked some device that may manage the identity is left and is authorized.\<close>

theorem authority_blocks_descendants:
  assumes "verify_identity_device_authority cr identity evidence domain = Inr authority"
  shows "map (\<lambda>r. js_prop (payload_of r) (js ''revision'')) (da_ordered authority) =
      map (\<lambda>i. JNum (int i + 1)) [0..<length (da_ordered authority)] \<and>
    map device_of (da_ordered authority) = map JStr (da_revoked authority) \<and>
    JStr ` set (da_blocked authority) =
      (\<Union>r \<in> set (da_revoked authority). case identity_device_descendants cr r (da_certificates authority) of
         Inr ds \<Rightarrow> set ds | Inl e \<Rightarrow> {}) \<and>
    (da_revoked authority = [] \<or> (\<exists>d key. authorize_identity_device cr authority d domain = Inr key))"
  using authority_facts [OF assms] by simp

text \<open>C19. Exporting a device's certificate chain always returns, although its walk has no bound of its own: the
  catalog was verified first. What it returns starts at the device and ends at a root certificate.\<close>

theorem certificate_chain_returns:
  "case identity_device_certificate_chain cr identity evidence d domain of
     None \<Rightarrow> False
   | Some (Inl e) \<Rightarrow> True
   | Some (Inr chain) \<Rightarrow> chain \<noteq> [] \<and> device_of (hd chain) = JStr d \<and> issuer_of (last chain) = JNull"
proof (cases "verify_identity_device_authority cr identity evidence domain")
  case (Inr authority)
  then obtain devices hashes where a: "verified_catalog cr identity (da_certificates authority) domain devices"
    "by_hash cr (da_certificates authority) = Inr hashes" by (rule authority_cases)
  have last: "issuer_of (last p) = JNull \<and> p \<noteq> []" if "chain_path hashes c p" for c p
    using that by (induction rule: chain_path.induct) auto
  show ?thesis
  proof (cases "find_device d (da_certificates authority)")
    case found: (Inr leaf)
    show ?thesis
    proof (cases leaf)
      case (Some c)
      with found have c: "c \<in> set (da_certificates authority)" "device_of c = JStr d" by (auto dest: find_device_Some)
      from catalog_path [OF a(1) c(1) a(2)] obtain p where p: "chain_path hashes c p" .
      with chain_path_head [OF p] chain_walk_path [OF p, of "[]"] last [OF p] Inr found Some a c show ?thesis
        by (auto simp: identity_device_certificate_chain_def)
    qed (use Inr found a in \<open>simp add: identity_device_certificate_chain_def\<close>)
  qed (use Inr a in \<open>simp add: identity_device_certificate_chain_def\<close>)
qed (simp add: identity_device_certificate_chain_def)

text \<open>C20. The catalog limit of 256 certificates is never reached: a verified authority has at most 32, because every
  chain is verified against the whole catalog and a chain may have at most 32 certificates.\<close>

theorem authority_catalog_bound:
  assumes "32 < length certificates" "js_prop evidence (js ''certificates'') = JArr certificates"
  shows "\<exists>e. verify_identity_device_authority cr identity evidence domain = Inl e"
proof (cases "verify_identity_device_authority cr identity evidence domain")
  case (Inr authority)
  then have "js_prop evidence (js ''certificates'') = JArr (da_certificates authority) \<and> length (da_certificates authority) \<le> 32"
    by (rule authority_cases) simp
  with assms show ?thesis by simp
qed simp

theorem authority_catalog_bound_witness:
  "\<exists>e. verify_identity_device_authority sample_crypto \<lparr> pi_person = js ''p'', pi_key = js ''k'' \<rparr>
     (JObj [(js ''certificates'', JArr (replicate 33 JNull)), (js ''revocations'', JArr [])]) (js ''MATCH/1'') = Inl e"
  by (rule authority_catalog_bound [of "replicate 33 JNull"]) (simp_all add: js_def)

end
