(* ===== verification/Authority_Merge.thy ===== *)
theory Authority_Merge
  imports Authority_Soundness
begin

text \<open>
  Merging authority views: a device that an authority view blocks stays blocked in every view that is merged
  from it, under the assumption that SHA-256 has no collision among the certificates at hand.
\<close>

definition hash_injective :: "'m mesh_crypto_scheme \<Rightarrow> jsval set \<Rightarrow> bool" where
  "hash_injective cr vs \<longleftrightarrow>
     (\<forall>a \<in> vs. \<forall>b \<in> vs. certificate_hash cr a = certificate_hash cr b \<longrightarrow> canonical_text cr a = canonical_text cr b)"

lemma canonical_text_ok: "json_ok v \<Longrightarrow> canonical_text cr v = Inr (Some (json_text (\<le>) (cr_number cr) v))"
  by (simp add: canonical_text_def canonicalize_json_def canon_text)

lemma same_text_prop:
  assumes "number_format (cr_number cr)" "json_ok a" "json_ok b" "canonical_text cr a = canonical_text cr b"
  shows "json_norm (\<le>) (js_prop (js_prop a k) l) = json_norm (\<le>) (js_prop (js_prop b k) l)"
proof -
  have "json_norm (\<le>) a = json_norm (\<le>) b"
    using assms canonical_text_ok [OF assms(2), of cr] canonical_text_ok [OF assms(3), of cr]
    by (intro same_text_norm [OF assms(1-3)]) (auto simp: canonical_text_def)
  then have k: "json_norm (\<le>) (js_prop a k) = json_norm (\<le>) (js_prop b k)" for k
    by (metis json_norm_prop assms(2,3))
  show ?thesis
  proof (cases "js_prop a k = JUndef \<or> js_prop b k = JUndef")
    case True
    with k [of k] have "js_prop a k = JUndef \<and> js_prop b k = JUndef" by (cases "js_prop a k"; cases "js_prop b k") auto
    then show ?thesis by simp
  next
    case False
    with assms(2,3) have "json_ok (js_prop a k)" "json_ok (js_prop b k)" by (auto intro: json_ok_prop)
    with k [of k] show ?thesis by (metis json_norm_prop)
  qed
qed

lemma same_text_fields:
  assumes "number_format (cr_number cr)" "json_ok a" "json_ok b" "canonical_text cr a = canonical_text cr b"
  shows "device_of a = JStr d \<longleftrightarrow> device_of b = JStr d" "issuer_of a = JStr d \<longleftrightarrow> issuer_of b = JStr d"
    "issuer_of a = JNull \<longleftrightarrow> issuer_of b = JNull"
proof -
  have s: "v = JStr d \<longleftrightarrow> w = JStr d" "v = JNull \<longleftrightarrow> w = JNull" if "json_norm (\<le>) v = json_norm (\<le>) w" for v w
    using that by (cases v; cases w; simp)+
  show "device_of a = JStr d \<longleftrightarrow> device_of b = JStr d" "issuer_of a = JStr d \<longleftrightarrow> issuer_of b = JStr d"
    "issuer_of a = JNull \<longleftrightarrow> issuer_of b = JNull"
    by (rule s, rule same_text_prop [OF assms])+
qed

lemma ancestors_transfer:
  assumes cat: "verified_catalog cr identity cs domain devices" "by_hash cr cs = Inr hashes"
    and cat': "verified_catalog cr identity' cs' domain' devices'" "by_hash cr cs' = Inr hashes'"
    and fmt: "number_format (cr_number cr)" and ok: "\<forall>c \<in> set cs \<union> set cs'. json_ok c"
    and inj: "hash_injective cr (set cs \<union> set cs')"
    and path: "chain_path hashes c p" "a \<in> set p" "c \<in> set cs" "c' \<in> set cs'" "canonical_text cr c = canonical_text cr c'"
  shows "\<exists>a' \<in> ancestors hashes' c'. canonical_text cr a = canonical_text cr a' \<and> a \<in> set cs \<and> a' \<in> set cs'"
  using path
proof (induction arbitrary: c' rule: chain_path.induct)
  case (root c)
  from catalog_path [OF cat'(1) root.prems(3) cat'(2)] obtain p' where p': "chain_path hashes' c' p'" .
  with chain_path_head [OF p'] ancestors_path [OF p'] root show ?case by auto
next
  case (issued c i p)
  from catalog_path [OF cat'(1) issued.prems(3) cat'(2)] obtain p' where p': "chain_path hashes' c' p'" .
  show ?case
  proof (cases "a = c")
    case True
    with chain_path_head [OF p'] ancestors_path [OF p'] issued.prems show ?thesis by auto
  next
    case False
    from issued.hyps obtain h where h: "issuer_of c = JStr h" "map_of hashes h = Some i"
      by (auto simp: hash_get_def split: jsval.splits)
    have okc: "json_ok c" "json_ok c'" using ok issued.prems by auto
    have h': "issuer_of c' = JStr h" using same_text_fields(2) [OF fmt okc issued.prems(4), of h] h(1) by simp
    from p' h' obtain i' q where i': "map_of hashes' h = Some i'" "chain_path hashes' i' q" "p' = c' # q"
      by (cases rule: chain_path.cases) (auto simp: hash_get_def)
    have i: "i \<in> set cs" "certificate_hash cr i = Inr h" using by_hash_spec(1) [OF cat(2) h(2)] by auto
    have j: "i' \<in> set cs'" "certificate_hash cr i' = Inr h" using by_hash_spec(1) [OF cat'(2) i'(1)] by auto
    have "canonical_text cr i = canonical_text cr i'" using inj i j unfolding hash_injective_def by auto
    from issued.IH [OF _ i(1) j(1) this] False issued.prems(1) obtain a' where
      "a' \<in> ancestors hashes' i'" "canonical_text cr a = canonical_text cr a'" "a \<in> set cs" "a' \<in> set cs'" by auto
    moreover have "ancestors hashes' i' \<subseteq> ancestors hashes' c'"
      using ancestors_path [OF p'] ancestors_path [OF i'(2)] i'(3) by auto
    ultimately show ?thesis by blast
  qed
qed

section \<open>Merged views\<close>

lemma catalog_loop_spec:
  assumes "catalog_loop cr cs m = Inr m'" "distinct (map fst m)"
  shows "snd ` set m' \<subseteq> snd ` set m \<union> set cs \<and>
    (\<forall>c \<in> snd ` set m \<union> set cs. \<exists>c' \<in> snd ` set m'. canonical_text cr c = canonical_text cr c')"
  using assms
proof (induction cs arbitrary: m)
  case (Cons c cs)
  let ?m = "AList.update (device_of c) c m"
  have loop: "catalog_loop cr cs ?m = Inr m'"
    and same: "\<And>v. map_of m (device_of c) = Some v \<Longrightarrow> canonical_text cr v = canonical_text cr c"
    using Cons.prems(1) by (auto simp: bind_r_eq_Inr split: option.splits if_splits)
  have d: "distinct (map fst ?m)" using Cons.prems(2) by (rule distinct_update)
  have mem: "(k, v) \<in> set ?m \<longleftrightarrow> (if k = device_of c then v = c else (k, v) \<in> set m)" for k v
    using map_of_eq_Some_iff [OF d, of k v] map_of_eq_Some_iff [OF Cons.prems(2), of k v] by (auto simp: update_conv')
  note IH = Cons.IH [OF loop d]
  have sub: "snd ` set ?m \<subseteq> insert c (snd ` set m)" using mem by (force split: if_splits)
  have rep: "\<exists>v' \<in> snd ` set ?m. canonical_text cr v = canonical_text cr v'" if "v \<in> insert c (snd ` set m)" for v
  proof -
    have c: "c \<in> snd ` set ?m" using mem [of "device_of c" c] by force
    show ?thesis
    proof (cases "v \<in> snd ` set ?m")
      case False
      with that c obtain k where "(k, v) \<in> set m" "k = device_of c" using mem by force
      with Cons.prems(2) same have "canonical_text cr v = canonical_text cr c" by simp
      with c show ?thesis by blast
    qed blast
  qed
  have "\<exists>c' \<in> snd ` set m'. canonical_text cr v = canonical_text cr c'" if "v \<in> snd ` set m \<union> set (c # cs)" for v
  proof (cases "v \<in> set cs")
    case False
    with that have "v \<in> insert c (snd ` set m)" by auto
    from rep [OF this] obtain v' where v': "v' \<in> snd ` set ?m" "canonical_text cr v = canonical_text cr v'" by blast
    with IH obtain c' where "c' \<in> snd ` set m'" "canonical_text cr v' = canonical_text cr c'" by blast
    with v'(2) show ?thesis by (intro bexI [of _ c']) simp_all
  qed (use IH in blast)
  moreover have "snd ` set m' \<subseteq> snd ` set m \<union> set (c # cs)"
    using order_trans [OF conjunct1 [OF IH] Un_mono [OF sub order_refl]] by (simp add: Un_commute)
  ultimately show ?case by blast
qed auto

lemma prefix_loop_spec:
  assumes "prefix_loop cr rs rs' = Inr u" "length rs \<le> length rs'" "r \<in> set rs"
  shows "\<exists>r' \<in> set rs'. canonical_text cr r = canonical_text cr r'"
  using assms
proof (induction rs arbitrary: rs')
  case (Cons x rs)
  then obtain y ys where y: "rs' = y # ys" by (cases rs') auto
  with Cons.prems have "canonical_text cr x = canonical_text cr y" "prefix_loop cr rs ys = Inr u" "length rs \<le> length ys"
    by (auto simp: bind_r_eq_Inr split: if_splits)
  with Cons.IH [of ys] Cons.prems(3) y show ?case by auto
qed simp

lemma made_view:
  assumes "make_identity_authority_view cr identity cs rs = Inr view"
  shows "iv_certificates view = js_sort device_le cs" "iv_revocations view = js_sort revision_le rs"
    "iv_revision view = length rs" "view_identity view = identity"
  using assms by (auto simp: make_identity_authority_view_def identity_authority_head_def bind_r_eq_Inr Let_def view_identity_def)

lemma view_json_fields:
  "js_array (js_prop (view_json v) (js ''certificates'')) = Some (iv_certificates v)"
  "js_array (js_prop (view_json v) (js ''revocations'')) = Some (iv_revocations v)"
  by (simp_all add: view_json_def js_def)

lemma verified_view:
  assumes "verify_identity_authority_view cr v domain = Inr view"
  obtains cs rs where "js_array (js_prop v (js ''certificates'')) = Some cs" "js_array (js_prop v (js ''revocations'')) = Some rs"
    "set (iv_certificates view) = set cs" "set (iv_revocations view) = set rs" "iv_revision view = length (iv_revocations view)"
proof -
  from assms obtain identity cs rs where v: "js_array (js_prop v (js ''certificates'')) = Some cs"
    "js_array (js_prop v (js ''revocations'')) = Some rs" "make_identity_authority_view cr identity cs rs = Inr view"
    unfolding verify_identity_authority_view_def
    by (auto simp: bind_r_eq_Inr Let_def split: option.splits if_splits)
  from made_view [OF v(3)] show thesis by (intro that [OF v(1,2)]) simp_all
qed

lemma merged_view:
  assumes "merge_identity_authority_views cr v w domain = Inr view"
  obtains current incoming where "verify_identity_authority_view cr v domain = Inr current"
    "verify_identity_authority_view cr w domain = Inr incoming"
    "set (iv_certificates view) \<subseteq> set (iv_certificates current) \<union> set (iv_certificates incoming)"
    "\<forall>c \<in> set (iv_certificates current). \<exists>c' \<in> set (iv_certificates view). canonical_text cr c = canonical_text cr c'"
    "\<forall>r \<in> set (iv_revocations current). \<exists>r' \<in> set (iv_revocations view). canonical_text cr r = canonical_text cr r'"
    "set (iv_revocations view) = set (iv_revocations incoming)"
proof -
  let ?rest = "\<lambda>current incoming.
       bind_r (prefix_loop cr (iv_revocations current) (iv_revocations incoming)) (\<lambda>_.
       bind_r (catalog_loop cr (iv_certificates current @ iv_certificates incoming) []) (\<lambda>catalog.
       bind_r (make_identity_authority_view cr (view_identity current) (map snd catalog) (iv_revocations incoming)) (\<lambda>merged.
       verify_identity_authority_view cr (view_json merged) domain)))"
  from assms obtain current incoming where m12: "verify_identity_authority_view cr v domain = Inr current"
    "verify_identity_authority_view cr w domain = Inr incoming"
    and r: "(if iv_person current \<noteq> iv_person incoming \<or> iv_key current \<noteq> iv_key incoming then Inl DifferentPeople
      else if iv_revision incoming < iv_revision current then Inl StaleRevocationHead else ?rest current incoming) = Inr view"
    unfolding merge_identity_authority_views_def by (elim bind_r_InrE)
  from r have m3: "iv_revision current \<le> iv_revision incoming" and rest: "?rest current incoming = Inr view"
    by (simp_all split: if_splits)
  from rest obtain u catalog merged where m: "prefix_loop cr (iv_revocations current) (iv_revocations incoming) = Inr u"
    "catalog_loop cr (iv_certificates current @ iv_certificates incoming) [] = Inr catalog"
    "make_identity_authority_view cr (view_identity current) (map snd catalog) (iv_revocations incoming) = Inr merged"
    "verify_identity_authority_view cr (view_json merged) domain = Inr view"
    by (elim bind_r_InrE)
  from m(4) obtain cs rs where v: "js_array (js_prop (view_json merged) (js ''certificates'')) = Some cs"
    "js_array (js_prop (view_json merged) (js ''revocations'')) = Some rs"
    "set (iv_certificates view) = set cs" "set (iv_revocations view) = set rs" by (rule verified_view)
  have certs: "set (iv_certificates view) = snd ` set catalog" and revs: "set (iv_revocations view) = set (iv_revocations incoming)"
    using v(3,4) trans [OF v(1) [symmetric] view_json_fields(1)] trans [OF v(2) [symmetric] view_json_fields(2)]
    by (simp_all only: option.inject made_view(1,2) [OF m(3)] set_js_sort set_map)
  have current: "iv_revision current = length (iv_revocations current)" using m12(1) by (rule verified_view)
  have incoming: "iv_revision incoming = length (iv_revocations incoming)" using m12(2) by (rule verified_view)
  have len: "length (iv_revocations current) \<le> length (iv_revocations incoming)" using m3 current incoming by simp
  note cat = catalog_loop_spec [OF m(2), simplified]
  show thesis
  proof (rule that [OF m12 _ _ _ revs])
    show "set (iv_certificates view) \<subseteq> set (iv_certificates current) \<union> set (iv_certificates incoming)"
      using cat certs by auto
    show "\<forall>c \<in> set (iv_certificates current). \<exists>c' \<in> set (iv_certificates view). canonical_text cr c = canonical_text cr c'"
      using cat unfolding certs by auto
    show "\<forall>r \<in> set (iv_revocations current). \<exists>r' \<in> set (iv_revocations view). canonical_text cr r = canonical_text cr r'"
      using prefix_loop_spec [OF m(1) len] unfolding revs by blast
  qed
qed

lemma evidence_fields [simp]:
  "js_prop (evidence_json cs rs) (js ''certificates'') = JArr cs" "js_prop (evidence_json cs rs) (js ''revocations'') = JArr rs"
  by (simp_all add: evidence_json_def js_def)

lemma revoked_of_revocations:
  assumes "verify_identity_device_authority cr identity (evidence_json cs rs) domain = Inr authority"
  shows "d \<in> set (da_revoked authority) \<longleftrightarrow> (\<exists>r \<in> set rs. device_of r = JStr d)"
proof -
  have "set (da_ordered authority) = set rs" using assms by (rule authority_cases) simp
  moreover have "JStr ` set (da_revoked authority) = device_of ` set (da_ordered authority)"
    using authority_facts(2) [OF assms] by (metis list.set_map)
  ultimately have "JStr ` set (da_revoked authority) = device_of ` set rs" by simp
  then show ?thesis by (metis (no_types, lifting) image_iff jsval.inject(4))
qed

text \<open>C21. Revocation is permanent: a device that the current view blocks is refused in every view merged from it,
  whatever certificates and later revocations the incoming view brings, as long as SHA-256 does not collide on the
  certificates of the two views.\<close>

theorem merge_keeps_revocation:
  assumes merge: "merge_identity_authority_views cr current_value incoming_value domain = Inr view"
    and views: "verify_identity_authority_view cr current_value domain = Inr current"
      "verify_identity_authority_view cr incoming_value domain = Inr incoming"
    and current: "verify_identity_device_authority cr (view_identity current)
      (evidence_json (iv_certificates current) (iv_revocations current)) domain = Inr authority"
    and blocked: "d \<in> set (da_blocked authority)"
    and fmt: "number_format (cr_number cr)"
    and ok: "\<forall>c \<in> set (iv_certificates current) \<union> set (iv_certificates incoming). json_ok c"
      "\<forall>r \<in> set (iv_revocations current) \<union> set (iv_revocations incoming). json_ok r"
    and inj: "hash_injective cr (set (iv_certificates current) \<union> set (iv_certificates incoming))"
  shows "authorize_identity_data_device cr view d domain \<noteq> Inr key"
proof
  assume "authorize_identity_data_device cr view d domain = Inr key"
  then obtain authority' where a': "verify_identity_device_authority cr (view_identity view)
      (evidence_json (iv_certificates view) (iv_revocations view)) domain = Inr authority'"
    "d \<notin> set (da_blocked authority')"
    by (auto simp: authorize_identity_data_device_def bind_r_eq_Inr split: if_splits)
  from merge views have m: "set (iv_certificates view) \<subseteq> set (iv_certificates current) \<union> set (iv_certificates incoming)"
    "\<forall>c \<in> set (iv_certificates current). \<exists>c' \<in> set (iv_certificates view). canonical_text cr c = canonical_text cr c'"
    "\<forall>r \<in> set (iv_revocations current). \<exists>r' \<in> set (iv_revocations view). canonical_text cr r = canonical_text cr r'"
    "set (iv_revocations view) = set (iv_revocations incoming)"
    by (auto elim!: merged_view)
  let ?cs = "iv_certificates current" and ?cs' = "iv_certificates view"
  have okc: "\<forall>c \<in> set ?cs \<union> set ?cs'. json_ok c" using ok(1) m(1) by blast
  have injc: "hash_injective cr (set ?cs \<union> set ?cs')" using inj m(1) unfolding hash_injective_def by blast
  from current obtain devices hashes where b: "verified_catalog cr (view_identity current) ?cs domain devices"
    "by_hash cr ?cs = Inr hashes" "blocked_loop cr ?cs (da_revoked authority) (map fst devices) = Inr (da_blocked authority)"
    by (rule authority_cases) simp
  from a'(1) obtain devices' hashes' where b': "verified_catalog cr (view_identity view) ?cs' domain devices'"
    "by_hash cr ?cs' = Inr hashes'" "blocked_loop cr ?cs' (da_revoked authority') (map fst devices') = Inr (da_blocked authority')"
    by (rule authority_cases) simp
  from blocked blocked_loop_spec [OF b(3)] obtain c where "(d, c) \<in> set devices" by auto
  moreover from this have "c \<in> set (map snd devices)" by force
  ultimately have c: "c \<in> set ?cs" "device_of c = JStr d" using catalog_devices(2,3) [OF b(1)] by auto
  from blocked blocked_iff [OF b c] obtain a x where a: "a \<in> ancestors hashes c" "device_of a = JStr x" "x \<in> set (da_revoked authority)"
    by auto
  from m(2) c obtain c' where c': "c' \<in> set ?cs'" "canonical_text cr c = canonical_text cr c'" by blast
  have dc': "device_of c' = JStr d" using same_text_fields(1) [OF fmt _ _ c'(2), of d] okc c c' by blast
  from a(1) obtain p where "chain_path hashes c p" "a \<in> set p" by (auto simp: ancestors_def)
  from ancestors_transfer [OF b(1,2) b'(1,2) fmt okc injc this c(1) c'] obtain a' where
    t: "a' \<in> ancestors hashes' c'" "canonical_text cr a = canonical_text cr a'" "a \<in> set ?cs" "a' \<in> set ?cs'" by blast
  then have da': "device_of a' = JStr x" using same_text_fields(1) [OF fmt _ _ t(2), of x] okc a(2) by blast
  from a(3) revoked_of_revocations [OF current] obtain r where r: "r \<in> set (iv_revocations current)" "device_of r = JStr x" by blast
  with m(3) obtain r' where r': "r' \<in> set (iv_revocations view)" "canonical_text cr r = canonical_text cr r'" by blast
  then have "device_of r' = JStr x" using same_text_fields(1) [OF fmt _ _ r'(2), of x] ok(2) m(4) r by blast
  with r' revoked_of_revocations [OF a'(1)] have "x \<in> set (da_revoked authority')" by blast
  with blocked_iff [OF b' c'(1) dc'] t(1) da' a'(2) show False by auto
qed

end
