(* ===== verification/Authority_Examples.thy ===== *)
theory Authority_Examples
  imports Authority_Merge
begin

text \<open>
  A small identity on which the theorems about the device authority apply: one management device, one other
  device, and the revocation of the second by the first. The hash keeps the first 32 bytes, which is enough to tell the
  two certificates apart, and every signature is accepted.
\<close>

definition ex_crypto :: mesh_crypto where
  "ex_crypto = \<lparr> cr_sha256 = (\<lambda>bs. take 32 (bs @ replicate 32 0)), cr_public = (\<lambda>k. take 32 (k @ replicate 32 0)),
     cr_sign = (\<lambda>k input. []), cr_verify = (\<lambda>key sig input. True), cr_number = sample_number \<rparr>"

definition ex_id :: "8 word \<Rightarrow> jstring" where
  "ex_id n = to_base64url (n # replicate 31 0)"

definition ex_certificate :: "8 word \<Rightarrow> bool \<Rightarrow> jsval" where
  "ex_certificate n enroll =
     JObj [(js ''payload'', JObj [(js ''kind'', JStr (js ''device-certificate'')), (js ''version'', JNum 1),
       (js ''personId'', JStr (ex_id 1)), (js ''deviceId'', JStr (ex_id n)), (js ''devicePublicKey'', JStr (ex_id n)),
       (js ''issuerCertificateHash'', JNull), (js ''canEnrollDevices'', JBool enroll)]),
       (js ''signerKeyId'', JStr (ex_id 1)), (js ''signature'', JStr (to_base64url []))]"

definition ex_revocation :: jsval where
  "ex_revocation =
     JObj [(js ''payload'', JObj [(js ''kind'', JStr (js ''mesh-identity-device-revocation'')), (js ''version'', JNum 1),
       (js ''personId'', JStr (ex_id 1)), (js ''deviceId'', JStr (ex_id 3)), (js ''revision'', JNum 1),
       (js ''profileOperationHashes'', JObj [])]),
       (js ''signerKeyId'', JStr (ex_id 2)), (js ''signature'', JStr (to_base64url []))]"

definition ex_identity :: public_identity where
  "ex_identity = \<lparr> pi_person = ex_id 1, pi_key = ex_id 1 \<rparr>"

abbreviation ex_certificates :: "jsval list" where
  "ex_certificates \<equiv> [ex_certificate 2 True, ex_certificate 3 False]"

abbreviation ex_domain :: jstring where
  "ex_domain \<equiv> js ''MATCH/1''"

lemma ex_id_inj [simp]: "ex_id m = ex_id n \<longleftrightarrow> m = n"
  using inj_to_base64url by (auto simp: ex_id_def dest: injD)

lemma ex_decode [simp]: "decode_base64url (JStr (ex_id n)) = Inr (n # replicate 31 0)"
  unfolding ex_id_def by (rule decode_encoded)

lemma ex_public_key_id [simp]: "public_key_id ex_crypto (JStr (ex_id n)) = Inr (ex_id n)"
  by (simp add: public_key_id_def ex_crypto_def sha256_base64url_def) (simp add: ex_id_def)

lemma ex_certificate_fields [simp]:
  "js_prop (ex_certificate n e) (js ''payload'') \<noteq> JUndef" "js_prop (ex_certificate n e) (js ''payload'') \<noteq> JNull"
  "ex_certificate n e \<noteq> JUndef" "ex_certificate n e \<noteq> JNull" "js_truthy (ex_certificate n e)"
  "js_prop (payload_of (ex_certificate n e)) (js ''kind'') = JStr (js ''device-certificate'')"
  "js_prop (payload_of (ex_certificate n e)) (js ''version'') = JNum 1"
  "js_prop (payload_of (ex_certificate n e)) (js ''personId'') = JStr (ex_id 1)"
  "js_prop (payload_of (ex_certificate n e)) (js ''deviceId'') = JStr (ex_id n)"
  "js_prop (payload_of (ex_certificate n e)) (js ''devicePublicKey'') = JStr (ex_id n)"
  "js_prop (payload_of (ex_certificate n e)) (js ''issuerCertificateHash'') = JNull"
  "js_prop (payload_of (ex_certificate n e)) (js ''canEnrollDevices'') = JBool e"
  "js_prop (ex_certificate n e) (js ''signerKeyId'') = JStr (ex_id 1)"
  "js_prop (ex_certificate n e) (js ''signature'') = JStr (to_base64url [])"
  by (simp_all add: ex_certificate_def js_def)

lemma ex_revocation_fields [simp]:
  "js_prop ex_revocation (js ''payload'') \<noteq> JUndef" "js_prop ex_revocation (js ''payload'') \<noteq> JNull"
  "ex_revocation \<noteq> JUndef" "ex_revocation \<noteq> JNull" "js_truthy ex_revocation"
  "js_prop (payload_of ex_revocation) (js ''kind'') = JStr (js ''mesh-identity-device-revocation'')"
  "js_prop (payload_of ex_revocation) (js ''version'') = JNum 1"
  "js_prop (payload_of ex_revocation) (js ''personId'') = JStr (ex_id 1)"
  "js_prop (payload_of ex_revocation) (js ''deviceId'') = JStr (ex_id 3)"
  "js_prop (payload_of ex_revocation) (js ''revision'') = JNum 1"
  "js_prop (payload_of ex_revocation) (js ''profileOperationHashes'') = JObj []"
  "js_prop ex_revocation (js ''signerKeyId'') = JStr (ex_id 2)"
  "js_prop ex_revocation (js ''signature'') = JStr (to_base64url [])"
  by (simp_all add: ex_revocation_def js_def)

lemma ex_json_ok [simp]: "json_ok (ex_certificate n e)" "json_ok ex_revocation"
  "json_ok (payload_of (ex_certificate n e))" "json_ok (payload_of ex_revocation)"
  by (simp_all add: ex_certificate_def ex_revocation_def js_def)

lemma ex_verify [simp]:
  "verify_envelope ex_crypto (ex_certificate n e) (JStr (ex_id m)) d = Inr True"
  "verify_envelope ex_crypto ex_revocation (JStr (ex_id m)) d = Inr True"
  by (simp_all add: verify_envelope_def import_key_def js_get_def canonicalize_signature_json_def canon_text payload_kind_def
      ex_crypto_def)

lemma ex_chain_loop [simp]: "chain_loop ex_crypto ex_identity d hashes (ex_certificate n e) [] = Inr ()"
  by (subst chain_loop.simps) (simp add: js_get_def ex_identity_def)

section \<open>Hashes\<close>

lemmas key_order_simps = js_sort_def js_def list_le_def list_less_def word_less_nat_alt

lemma envelope_order:
  "js_sort (\<lambda>x y. (fst x :: jstring) \<le> fst y) [(js ''payload'', a :: jstring), (js ''signerKeyId'', b), (js ''signature'', c)] =
   [(js ''payload'', a), (js ''signature'', c), (js ''signerKeyId'', b)]"
  by (simp add: key_order_simps)

lemma certificate_order:
  "js_sort (\<lambda>x y. (fst x :: jstring) \<le> fst y) [(js ''kind'', a :: jstring), (js ''version'', b), (js ''personId'', c),
     (js ''deviceId'', d), (js ''devicePublicKey'', e), (js ''issuerCertificateHash'', f), (js ''canEnrollDevices'', g)] =
   [(js ''canEnrollDevices'', g), (js ''deviceId'', d), (js ''devicePublicKey'', e), (js ''issuerCertificateHash'', f),
     (js ''kind'', a), (js ''personId'', c), (js ''version'', b)]"
  by (simp add: key_order_simps)

lemma quote_keys:
  "quote (js ''payload'') = js ''\"payload\"''" "quote (js ''canEnrollDevices'') = js ''\"canEnrollDevices\"''"
  by (simp_all add: quote_def js_def quote_unit_def is_high_def is_low_def)

definition ex_prefix :: jstring where
  "ex_prefix = js ''{\"payload\":{\"canEnrollDevices\":''"

lemma ex_text: "\<exists>rest. json_text (\<le>) fmt (ex_certificate n e) = ex_prefix @ (if e then 0x74 else 0x66) # rest"
  by (simp add: ex_certificate_def object_text_def envelope_order certificate_order member_text_def quote_keys join_comma_Cons)
    (simp add: ex_prefix_def js_def)

definition ex_hash :: "bool \<Rightarrow> jstring" where
  "ex_hash e = to_base64url (utf8 ex_prefix @ [if e then 0x74 else 0x66])"

lemma ex_hash_neq [simp]: "ex_hash True \<noteq> ex_hash False" "ex_hash False \<noteq> ex_hash True"
  using inj_to_base64url by (auto simp: ex_hash_def dest: injD)

lemma utf8_ascii: "\<forall>c \<in> set s. unat c < 128 \<Longrightarrow> utf8 s = map (\<lambda>c. of_nat (unat c)) s"
  by (induction s rule: code_point_list.induct) (auto simp: utf8_def utf8_point_def is_high_def word_le_nat_alt)

lemma ex_prefix_facts: "wf16 ex_prefix" "length (utf8 ex_prefix) = 31"
  by (simp_all add: utf8_ascii ex_prefix_def js_def is_high_def is_low_def)

lemma utf8_ascii_Cons: "c = 0x74 \<or> c = 0x66 \<Longrightarrow> utf8 (c # s) = of_nat (unat c) # utf8 s"
  using utf8_append [of "[c]" s] by (auto simp: utf8_ascii is_high_def is_low_def)

lemma ex_certificate_hash [simp]: "certificate_hash ex_crypto (ex_certificate n e) = Inr (ex_hash e)"
proof -
  from ex_text obtain rest where t: "json_text (\<le>) sample_number (ex_certificate n e) = ex_prefix @ (if e then 0x74 else 0x66) # rest"
    by blast
  have "take 32 (utf8 (ex_prefix @ (if e then 0x74 else 0x66) # rest) @ replicate 32 0) = utf8 ex_prefix @ [if e then 0x74 else 0x66]"
    using ex_prefix_facts by (simp add: utf8_append utf8_ascii_Cons)
  then show ?thesis
    by (simp add: certificate_hash_def hash_json_def canonical_text_def canonicalize_json_def canon_text ex_crypto_def t
        encode_text_def sha256_base64url_def ex_hash_def)
qed

lemma ex_by_hash [simp]:
  "by_hash ex_crypto ex_certificates = Inr [(ex_hash True, ex_certificate 2 True), (ex_hash False, ex_certificate 3 False)]"
  by (simp add: by_hash_def)

lemma ex_get_device [simp]: "get_device (ex_certificate n e) = Inr (JStr (ex_id n))"
  by (simp add: get_device_def js_get_def)

lemma ex_identity_fields [simp]: "pi_person ex_identity = ex_id 1" "pi_key ex_identity = ex_id 1"
  by (simp_all add: ex_identity_def)

lemma ex_chain [simp]:
  "verify_device_certificate_chain ex_crypto ex_identity (ex_id 2) ex_certificates ex_domain = Inr (JStr (ex_id 2))"
  "verify_device_certificate_chain ex_crypto ex_identity (ex_id 3) ex_certificates ex_domain = Inr (JStr (ex_id 3))"
  by (simp_all add: verify_device_certificate_chain_def)

section \<open>The authority\<close>

lemma ex_revoked [simp]:
  "is_chain_revoked ex_crypto (ex_id 2) rs ex_certificates = Inr (ex_id 2 \<in> set rs)"
  "is_chain_revoked ex_crypto (ex_id 3) rs ex_certificates = Inr (ex_id 3 \<in> set rs)"
  by (auto simp: is_chain_revoked_def revoked_loop.simps)

lemma ex_descendants [simp]: "identity_device_descendants ex_crypto (ex_id 3) ex_certificates = Inr [JStr (ex_id 3)]"
  by (simp add: identity_device_descendants_def is_certificate_descendant_def descendant_loop.simps)

lemma ex_revocation_keys:
  "join_comma (js_sort (\<le>) (map fst (js_entries (payload_of ex_revocation)))) =
   js ''deviceId,kind,personId,profileOperationHashes,revision,version''"
  by (simp add: ex_revocation_def key_order_simps)

lemma js_sort_single [simp]: "js_sort le [x] = [x]"
  by (simp add: js_sort_def)

lemma ex_authority:
  "verify_identity_device_authority ex_crypto ex_identity (evidence_json ex_certificates [ex_revocation]) ex_domain =
   Inr \<lparr> da_identity = ex_identity, da_certificates = ex_certificates, da_revocations = [ex_revocation],
     da_ordered = [ex_revocation], da_revoked = [ex_id 3], da_blocked = [ex_id 3] \<rparr>"
  by (simp add: verify_identity_device_authority_def Let_def revocation_step_def revocation_shape_def ex_revocation_keys
      is_safe_integer_def max_safe_integer_def active_management_devices_def js_get_def)

theorem verified_chain_certified_witness:
  "\<exists>leaf \<in> set ex_certificates. device_of leaf = JStr (ex_id 3) \<and>
     JStr (ex_id 3) = js_prop (payload_of leaf) (js ''devicePublicKey'') \<and> public_key_id ex_crypto (JStr (ex_id 3)) = Inr (ex_id 3) \<and>
     certified ex_crypto ex_identity ex_domain ex_certificates leaf"
  by (rule verified_chain_certified) simp

theorem authority_blocks_descendants_witness:
  "JStr ` set [ex_id 3] =
   (\<Union>r \<in> set [ex_id 3]. case identity_device_descendants ex_crypto r ex_certificates of Inr ds \<Rightarrow> set ds | Inl e \<Rightarrow> {})"
  using authority_blocks_descendants [OF ex_authority] by simp

section \<open>Views\<close>

text \<open>A view made of a verified authority whose lists are in order verifies again, as itself.\<close>

lemma made_view_verifies:
  assumes view: "make_identity_authority_view cr identity cs rs = Inr view"
    and order: "js_sort device_le cs = cs" "js_sort revision_le rs = rs"
    and authority: "verify_identity_device_authority cr identity (evidence_json cs rs) domain = Inr authority"
    and key: "public_key_id cr (JStr (pi_key identity)) = Inr (pi_person identity)"
    and digest: "is_hash (iv_digest view)" and len: "length rs \<le> 256"
  shows "verify_identity_authority_view cr (view_json view) domain = Inr view"
proof -
  from view order obtain h where head: "identity_authority_head cr identity rs = Inr (length rs, h)"
    and fields: "iv_person view = pi_person identity" "iv_key view = pi_key identity" "iv_certificates view = cs"
      "iv_revocations view = rs" "iv_revision view = length rs" "iv_record_hash view = h"
    by (auto simp: make_identity_authority_view_def identity_authority_head_def bind_r_eq_Inr Let_def)
  have head_text: "canonical_text cr (head_json n h) = Inr (Some (json_text (\<le>) (cr_number cr) (head_json n h)))" if "n \<le> 256" for n h
    using that by (intro canonical_text_ok) (simp add: head_json_def js_def)
  have shape: "view_shape (view_json view) (iv_digest view)"
    using digest len by (simp add: view_shape_def view_json_def has_exact_keys_def head_json_def js_def fields
        is_safe_integer_def max_safe_integer_def)
  have props: "js_prop (view_json view) (js ''personId'') = JStr (pi_person identity)"
    "js_prop (view_json view) (js ''identityPublicKey'') = JStr (pi_key identity)"
    "js_prop (view_json view) (js ''certificates'') = JArr cs" "js_prop (view_json view) (js ''revocations'') = JArr rs"
    "js_prop (view_json view) (js ''viewDigest'') = JStr (iv_digest view)"
    "js_prop (view_json view) (js ''revocationHead'') = head_json (length rs) h"
    by (simp_all add: view_json_def js_def fields)
  obtain p k where "identity = \<lparr> pi_person = p, pi_key = k \<rparr>" by (cases identity)
  then show ?thesis unfolding verify_identity_authority_view_def props
    using shape key authority head head_text [OF len] view by (simp add: Let_def)
qed

lemma ex_id_less: "ex_id 2 < ex_id 3"
proof -
  have r: "replicate 31 (0 :: 8 word) = 0 # 0 # replicate 29 0" by (simp add: numeral_eq_Suc)
  have "b64_run (n # replicate 31 0) = b64_char (unat n div 4) # b64_char (unat n mod 4 * 16) # b64_char 0 # b64_char 0 #
      b64_run (replicate 29 0)" for n
    unfolding r b64_run_def by simp
  then show ?thesis by (simp add: ex_id_def to_base64url_eq b64_char_def to_url_char_def)
qed

lemma length_to_base64url: "length bs = 32 \<Longrightarrow> length (to_base64url bs) = 43"
proof -
  have "length (b64_run bs) = (if length bs mod 3 = 0 then 4 * (length bs div 3) else 4 * (length bs div 3) + length bs mod 3 + 1)"
    for bs unfolding b64_run_def by (induction bs rule: btoa_values.induct) (auto simp: div_add_self1 numeral_3_eq_3 [symmetric])
  then show "length bs = 32 \<Longrightarrow> ?thesis" by (simp add: to_base64url_eq)
qed

lemma ex_sha_is_hash: "is_hash (sha256_base64url ex_crypto bs)"
proof -
  have "length (take 32 (bs @ replicate 32 (0 :: 8 word))) = 32" by simp
  then show ?thesis
    using length_to_base64url b64_run_sym url_safe_sym
    by (auto simp: is_hash_def sha256_base64url_def ex_crypto_def to_base64url_eq list_all_iff simp del: length_take)
qed

lemma ex_sorted: "js_sort device_le ex_certificates = ex_certificates"
  using less_imp_le [OF ex_id_less] by (simp add: js_sort_def device_le_def)

lemma ex_view:
  obtains view where "make_identity_authority_view ex_crypto ex_identity ex_certificates [ex_revocation] = Inr view"
    "verify_identity_authority_view ex_crypto (view_json view) ex_domain = Inr view"
    "iv_certificates view = ex_certificates" "iv_revocations view = [ex_revocation]" "view_identity view = ex_identity"
proof -
  have ok: "json_ok (digest_json ex_identity ex_certificates [ex_revocation])"
    by (simp add: digest_json_def js_def)
  have hash: "hash_json ex_crypto v = Inr (sha256_base64url ex_crypto (encode_text (Some (json_text (\<le>) sample_number v))))"
    if "json_ok v" for v
    using canonical_text_ok [OF that, of ex_crypto] by (simp add: hash_json_def ex_crypto_def)
  obtain view where v: "make_identity_authority_view ex_crypto ex_identity ex_certificates [ex_revocation] = Inr view"
    using hash [OF ok] hash [OF ex_json_ok(2)]
    by (simp add: make_identity_authority_view_def identity_authority_head_def ex_sorted Let_def)
  moreover have "is_hash (iv_digest view)"
    using v hash [OF ok] ex_sha_is_hash
    by (auto simp: make_identity_authority_view_def identity_authority_head_def ex_sorted Let_def bind_r_eq_Inr)
  ultimately have "verify_identity_authority_view ex_crypto (view_json view) ex_domain = Inr view"
    by (intro made_view_verifies [OF v ex_sorted _ ex_authority]) simp_all
  with v made_view [OF v] that show thesis by (simp add: ex_sorted)
qed

theorem merge_keeps_revocation_witness:
  "\<exists>view merged. merge_identity_authority_views ex_crypto (view_json view) (view_json view) ex_domain = Inr merged \<and>
     authorize_identity_data_device ex_crypto merged (ex_id 3) ex_domain \<noteq> Inr (JStr (ex_id 3))"
proof -
  obtain view where v: "make_identity_authority_view ex_crypto ex_identity ex_certificates [ex_revocation] = Inr view"
    "verify_identity_authority_view ex_crypto (view_json view) ex_domain = Inr view"
    "iv_certificates view = ex_certificates" "iv_revocations view = [ex_revocation]" "view_identity view = ex_identity"
    by (rule ex_view)
  have texts: "canonical_text ex_crypto ex_revocation = Inr (Some (json_text (\<le>) sample_number ex_revocation))"
    "canonical_text ex_crypto (ex_certificate n e) = Inr (Some (json_text (\<le>) sample_number (ex_certificate n e)))" for n e
    by (simp_all add: canonical_text_ok ex_crypto_def)
  have merge: "merge_identity_authority_views ex_crypto (view_json view) (view_json view) ex_domain = Inr view"
    by (simp add: merge_identity_authority_views_def v texts)
  have "hash_injective ex_crypto (set ex_certificates)"
    by (auto simp: hash_injective_def)
  then have inj: "hash_injective ex_crypto (set (iv_certificates view) \<union> set (iv_certificates view))" by (simp add: v)
  have fmt: "number_format (cr_number ex_crypto)" using sample_number_format by (simp add: ex_crypto_def)
  note authority = ex_authority [folded v(3) v(4) v(5)]
  have "authorize_identity_data_device ex_crypto view (ex_id 3) ex_domain \<noteq> Inr (JStr (ex_id 3))"
    by (rule merge_keeps_revocation [OF merge v(2) v(2) authority _ fmt _ _ inj]) (simp_all add: v)
  with merge show ?thesis by blast
qed

end
