(* ===== verification/Chat_Examples.thy ===== *)
theory Chat_Examples
  imports Messaging_Properties Authority_Examples
begin

text \<open>
  Two people and a conversation on which the theorems about messages, contacts and calls apply. Dates are written as
  signed decimal numbers, keys and hashes are padded to 32 bytes, and every signature is accepted.
\<close>

fun sample_parse :: "jsval \<Rightarrow> int option" where
  "sample_parse (JStr (c # s)) = Some (if c = 0x2D then - int (undec s) else int (undec s))"
| "sample_parse v = None"

definition sample_iso :: "int \<Rightarrow> jstring" where
  "sample_iso t = (if t < 0 then 0x2D else 0x2B) # dec_nat (nat \<bar>t\<bar>)"

definition chat_sample :: chat_env where
  "chat_sample = \<lparr> cr_sha256 = (\<lambda>bs. take 32 (bs @ replicate 32 0)), cr_public = (\<lambda>k. take 32 (k @ replicate 32 0)),
     cr_sign = (\<lambda>k input. []), cr_verify = (\<lambda>key sig input. True), cr_number = sample_number,
     ch_parse = sample_parse, ch_iso = sample_iso, ch_locale = (\<lambda>a b. int (length a) - int (length b)),
     ch_load = (\<lambda>bs. None), ch_save = (\<lambda>v. []), ch_merge = (\<lambda>a b. a) \<rparr>"

lemma chat_sample_fields [simp]:
  "cr_number chat_sample = sample_number" "ch_parse chat_sample = sample_parse" "ch_iso chat_sample = sample_iso"
  by (simp_all add: chat_sample_def)

lemma chat_sample_ed25519: "ed25519 chat_sample"
  by (simp add: ed25519_def chat_sample_def min_def)

lemma sample_parse_iso [simp]: "sample_parse (JStr (sample_iso t)) = Some t"
  by (simp add: sample_iso_def undec_dec)

lemma chat_sample_dates: "iso_dates chat_sample"
  by (simp add: iso_dates_def)

definition sample_identity :: "8 word \<Rightarrow> jsval" where
  "sample_identity n = JObj [(js ''personId'', JStr (ex_id n)), (js ''publicKey'', JStr (ex_id n))]"

definition sample_certificate :: "8 word \<Rightarrow> 8 word \<Rightarrow> jsval \<Rightarrow> jstring \<Rightarrow> jsval" where
  "sample_certificate n d issuer signer =
     JObj [(js ''payload'', JObj [(js ''kind'', JStr (js ''device-certificate'')), (js ''version'', JNum 1),
       (js ''personId'', JStr (ex_id n)), (js ''deviceId'', JStr (ex_id d)), (js ''devicePublicKey'', JStr (ex_id d)),
       (js ''issuerCertificateHash'', issuer), (js ''canEnrollDevices'', JBool True)]),
       (js ''signerKeyId'', JStr signer), (js ''signature'', JStr (to_base64url []))]"

definition sample_profile :: "8 word \<Rightarrow> 8 word \<Rightarrow> local_profile" where
  "sample_profile n d = \<lparr> lp_identity = sample_identity n, lp_device = ex_id d,
     lp_certificate = sample_certificate n d JNull (ex_id n), lp_device_key = [d] \<rparr>"

lemma sample_key_id [simp]: "public_key_id chat_sample (JStr (ex_id n)) = Inr (ex_id n)"
  by (simp add: public_key_id_def chat_sample_def sha256_base64url_def) (simp add: ex_id_def)

lemma sample_public [simp]: "to_base64url (cr_public chat_sample [d]) = ex_id d"
  by (simp add: chat_sample_def ex_id_def)

lemma sample_verify:
  assumes "json_ok (js_prop e (js ''payload''))" "js_prop (js_prop e (js ''payload'')) (js ''kind'') = JStr k"
    and "js_prop e (js ''signature'') = JStr (to_base64url [])"
  shows "verify_envelope chat_sample e (JStr (ex_id n)) d = Inr True"
  using assms js_prop_obj [of e "js ''payload''"]
  by (cases e; cases "js_prop e (js ''payload'')")
    (simp_all add: verify_envelope_def import_key_def js_get_def canonicalize_signature_json_def canon_text payload_kind_def chat_sample_def)

lemma sample_sign:
  assumes "json_ok payload" "js_prop payload (js ''kind'') = JStr k" "capture payload = Inr payload"
  shows "sign_envelope chat_sample key payload signer domain =
    Inr (JObj [(js ''payload'', payload), (js ''signerKeyId'', JStr signer), (js ''signature'', JStr (to_base64url []))])"
  using assms by (cases payload)
    (simp_all add: sign_envelope_def capture_envelope_payload_def payload_kind_def js_get_def canonicalize_signature_json_def canon_text
      chat_sample_def Let_def)

lemma sample_certificate_fields [simp]:
  "js_clone (sample_certificate n d JNull s) = sample_certificate n d JNull s" "js_clone (sample_identity n) = sample_identity n"
  "person_of (sample_identity n) = JStr (ex_id n)"
  "sample_identity n \<noteq> JUndef" "sample_identity n \<noteq> JNull" "js_prop (sample_identity n) (js ''publicKey'') = JStr (ex_id n)"
  "lp_identity (sample_profile n d) = sample_identity n" "lp_device (sample_profile n d) = ex_id d"
  "lp_certificate (sample_profile n d) = sample_certificate n d JNull (ex_id n)" "lp_device_key (sample_profile n d) = [d]"
  "get_device (sample_certificate n d i s) = Inr (JStr (ex_id d))"
  "sample_certificate n d i s \<noteq> JUndef" "sample_certificate n d i s \<noteq> JNull"
  by (simp_all add: sample_certificate_def sample_identity_def sample_profile_def get_device_def js_get_def)

lemma sample_hash: "json_ok c \<Longrightarrow> \<exists>h. certificate_hash chat_sample c = Inr h"
  by (simp add: certificate_hash_def hash_json_def canonical_text_ok)

lemma sample_device [simp]:
  "verify_device chat_sample (sample_identity n) (JStr (ex_id d)) (JArr [sample_certificate n d JNull (ex_id n)]) = Inr (JStr (ex_id d))"
proof -
  let ?c = "sample_certificate n d JNull (ex_id n)"
  have ok: "json_ok ?c" by (simp add: sample_certificate_def)
  then obtain h where h: "certificate_hash chat_sample ?c = Inr h" using sample_hash by blast
  have v: "verify_envelope chat_sample ?c (JStr (ex_id n)) domain = Inr True" for domain
    by (rule sample_verify) (simp_all add: sample_certificate_def)
  have "chain_loop chat_sample \<lparr> pi_person = ex_id n, pi_key = ex_id n \<rparr> domain hashes ?c [] = Inr ()" for domain hashes
    using v by (subst chain_loop.simps) (simp add: js_get_def sample_certificate_def)
  then show ?thesis
    by (simp add: verify_device_def verify_device_certificate_chain_def by_hash_def h js_get_def) (simp add: sample_certificate_def)
qed

section \<open>A conversation\<close>

definition sample_conversation :: jsval where
  "sample_conversation =
     JObj [(js ''kind'', JStr (js ''conversation'')), (js ''version'', JNum 1), (js ''roomKind'', JStr (js ''group'')),
       (js ''conversationId'', JStr (js ''c1'')), (js ''title'', JStr (js ''Room'')),
       (js ''creatorPersonId'', JStr (ex_id 1)),
       (js ''participants'', JObj [(ex_id 1, profile_participant (sample_profile 1 11) JNull)]),
       (js ''messages'', JObj [])]"

lemma plain_texts:
  "normalize_title (JStr (js ''Room'')) = Inr (js ''Room'')" "normalize_body (JStr (js ''Hi'')) False = Inr (js ''Hi'')"
  by (simp_all add: normalize_title_def normalize_body_def trim_r_def js_trim_def js_space_def max_message_length_def
      is_high_def js_def)

lemma sample_created: "create_conversation (sample_profile 1 11) (JStr (js ''Room'')) (js ''c1'') (js ''group'') = Inr sample_conversation"
  by (simp add: create_conversation_def sample_conversation_def plain_texts)

lemma sample_conversation_fields [simp]:
  "js_prop sample_conversation (js ''conversationId'') = JStr (js ''c1'')"
  "participants_of sample_conversation = JObj [(ex_id 1, profile_participant (sample_profile 1 11) JNull)]"
  "js_prop sample_conversation (js ''messages'') = JObj []"
  "js_clone sample_conversation = sample_conversation"
  by (simp_all add: sample_conversation_def profile_participant_def)

lemma sample_conversation_ok: "verify_conversation chat_sample sample_conversation now = Inr sample_conversation"
  by (simp add: verify_conversation_def sample_conversation_def profile_participant_def conversation_head_def assert_r_def
      js_index_def get_r_def js_get_def plain_texts)

definition sample_message :: "jsval \<Rightarrow> jsval" where
  "sample_message i =
     JObj [(js ''payload'', JObj [(js ''kind'', JStr (js ''message'')), (js ''version'', JNum 1), (js ''conversationId'', JStr (js ''c1'')),
       (js ''messageId'', i), (js ''authorPersonId'', JStr (ex_id 1)), (js ''authorDeviceId'', JStr (ex_id 11)),
       (js ''body'', JStr (js ''Hi'')), (js ''createdAt'', JStr (sample_iso 0))]),
       (js ''signerKeyId'', JStr (ex_id 11)), (js ''signature'', JStr (to_base64url []))]"

lemma sample_message_id [simp]: "js_prop (js_prop (sample_message i) (js ''payload'')) (js ''messageId'') = i"
  by (simp add: sample_message_def)

lemma sample_message_ok:
  assumes "js_truthy i" "json_ok i"
  shows "verify_message chat_sample sample_conversation (sample_message i) 0 = Inr ()"
proof -
  have "verify_envelope chat_sample (sample_message i) (JStr (ex_id n)) d = Inr True" for n d
    using assms by (intro sample_verify) (simp_all add: sample_message_def)
  then show ?thesis using assms
    by (simp add: plain_texts verify_message_def sample_message_def message_head_def js_or_def max_attachments_def assert_r_def Let_def js_index_def
        profile_participant_def verify_signed_def)
qed

lemma sample_append:
  assumes "js_truthy i" "json_ok i"
  shows "\<exists>doc'. append_message chat_sample sample_conversation (sample_message i) 0 = Inr doc'"
  using sample_message_ok [OF assms] by (simp add: append_message_def sample_conversation_ok js_index_def split: option.splits)

theorem append_keeps_verified_witness:
  "\<exists>doc'. append_message chat_sample sample_conversation (sample_message (JStr (js ''m1''))) 0 = Inr doc' \<and>
     verify_conversation chat_sample doc' 0 = Inr doc'"
proof -
  obtain doc' where a: "append_message chat_sample sample_conversation (sample_message (JStr (js ''m1''))) 0 = Inr doc'"
    using sample_append [of "JStr (js ''m1'')"] by auto
  moreover have "js_clone (sample_message (JStr (js ''m1''))) = sample_message (JStr (js ''m1''))" by (simp add: sample_message_def)
  ultimately show ?thesis using append_keeps_verified [OF a] by simp
qed

theorem numeric_message_id_breaks_conversation_witness:
  "\<exists>doc'. append_message chat_sample sample_conversation (sample_message (JNum 7)) 0 = Inr doc' \<and>
     (\<forall>later. verify_conversation chat_sample doc' later \<noteq> Inr doc')"
proof -
  obtain doc' where a: "append_message chat_sample sample_conversation (sample_message (JNum 7)) 0 = Inr doc'"
    using sample_append [of "JNum 7"] by auto
  then show ?thesis using numeric_message_id_breaks_conversation [OF a] by simp
qed

section \<open>Participants\<close>

lemma sample_grant:
  "\<exists>grant. create_conversation_grant chat_sample (sample_profile n d) (js ''c1'') (ex_id m) role 0 = Inr grant"
  by (simp add: create_conversation_grant_def iso_text_def) (subst sample_sign, simp_all)

theorem self_granted_admin_witness:
  "\<exists>grant doc'. create_conversation_grant chat_sample (sample_profile 2 12) (js ''c1'') (ex_id 2) (js ''admin'') 0 = Inr grant \<and>
     add_conversation_participant chat_sample sample_conversation (profile_record (sample_profile 2 12)) grant = Inr doc' \<and>
     verify_conversation chat_sample doc' 0 = Inr doc' \<and>
     grant_role (js_prop (participants_of doc') (ex_id 2)) = Inr (JStr (js ''admin''))"
proof -
  obtain grant where g: "create_conversation_grant chat_sample (sample_profile 2 12) (js ''c1'') (ex_id 2) (js ''admin'') 0 = Inr grant"
    using sample_grant by blast
  show ?thesis
    using g self_granted_admin [OF chat_sample_ed25519 sample_conversation_ok _ _ _ _ _ _ _ _ g] by simp
qed

lemma sample_member:
  assumes "create_conversation_grant chat_sample (sample_profile 1 11) (js ''c1'') (ex_id 2) (js ''member'') 0 = Inr grant"
  shows "\<exists>doc'. add_conversation_participant chat_sample sample_conversation (profile_record (sample_profile 2 12)) grant = Inr doc'"
proof (rule signed_grant [OF chat_sample_ed25519 _ assms])
  show "person_of (lp_identity (sample_profile 1 11)) = JStr (ex_id 1)" by simp
  fix t s
  assume g: "grant = JObj [(js ''payload'', JObj [(js ''kind'', JStr (js ''conversation-grant'')), (js ''version'', JNum 1),
         (js ''conversationId'', JStr (js ''c1'')), (js ''issuerPersonId'', JStr (ex_id 1)),
         (js ''issuerDeviceId'', JStr (lp_device (sample_profile 1 11))), (js ''memberPersonId'', JStr (ex_id 2)),
         (js ''role'', JStr (js ''member'')), (js ''createdAt'', JStr t)]),
         (js ''signerKeyId'', JStr (lp_device (sample_profile 1 11))), (js ''signature'', JStr s)]"
    and v: "verify_envelope chat_sample grant (JStr (to_base64url (cr_public chat_sample (lp_device_key (sample_profile 1 11)))))
      messaging_domain = Inr True"
  have "js_prop sample_conversation (js ''creatorPersonId'') = JStr (ex_id 1)" "is_obj sample_conversation"
    by (simp_all add: sample_conversation_def)
  with g v show ?thesis
    by (simp add: add_conversation_participant_def Let_def verify_grant_def set_participant_def get_r_def js_get_def grant_matches_def
        js_index_def profile_participant_def verify_signed_def assert_r_def)
qed

theorem new_participant_keeps_verified_witness:
  "\<exists>grant doc'. create_conversation_grant chat_sample (sample_profile 1 11) (js ''c1'') (ex_id 2) (js ''member'') 0 = Inr grant \<and>
     add_conversation_participant chat_sample sample_conversation (profile_record (sample_profile 2 12)) grant = Inr doc' \<and>
     verify_conversation chat_sample doc' 0 = Inr doc'"
proof -
  obtain grant where g: "create_conversation_grant chat_sample (sample_profile 1 11) (js ''c1'') (ex_id 2) (js ''member'') 0 = Inr grant"
    using sample_grant by blast
  then obtain doc' where d: "add_conversation_participant chat_sample sample_conversation (profile_record (sample_profile 2 12)) grant = Inr doc'"
    using sample_member by blast
  show ?thesis using g d new_participant_keeps_verified [OF sample_conversation_ok _ _ _ _ d] by simp
qed

end
