(* ===== verification/Contact_Properties.thy ===== *)
theory Contact_Properties
  imports Contacts Chat_Examples Json_Size
begin

text \<open>
  Contact channels: appending a message keeps a channel verified up to its limit of messages, and a channel with a
  certificate that another device issued never verifies.
\<close>

section \<open>What the verification of a channel depends on\<close>

lemma bind_r_assoc: "bind_r (bind_r m f) g = bind_r m (\<lambda>x. bind_r (f x) g)"
  by (cases m) simp_all

definition channel_frame :: "'m chat_env_scheme \<Rightarrow> jsval \<Rightarrow> chat_error + unit" where
  "channel_frame env doc =
     bind_r (assert_r (channel_head doc) (Contact InvalidChannel)) (\<lambda>_.
     bind_r (signed_time env (js_prop doc (js ''request''))) (\<lambda>request_time.
     bind_r (signed_time env (js_prop doc (js ''decision''))) (\<lambda>decision_time.
     bind_r (verify_contact_request env (js_prop doc (js ''request'')) request_time) (\<lambda>request.
     bind_r (verify_contact_decision env (js_prop doc (js ''decision'')) request decision_time) (\<lambda>decision.
     let p = signed_payload decision in
     bind_r (assert_r (js_truthy (js_prop p (js ''accepted'')) \<and> js_eq (js_prop p (js ''channelId'')) (js_prop doc (js ''channelId'')) \<and>
       js_eq (js_prop p (js ''ownerPersonId'')) (js_prop doc (js ''ownerPersonId'')) \<and>
       js_eq (person_of (signed_payload request)) (js_prop doc (js ''visitorPersonId''))) (Contact InvalidBinding)) (\<lambda>_.
     bind_r (spread_r (js_or (js_prop doc (js ''ownerCertificates'')) (JArr []))) (\<lambda>owners.
     bind_r (verify_each_certificate env (signed_identity decision) owners) (\<lambda>_.
     bind_r (spread_r (js_or (js_prop doc (js ''visitorCertificates'')) (JArr []))) (\<lambda>visitors.
     verify_each_certificate env (signed_identity request) visitors)))))))))"

lemma verify_channel_split:
  "verify_contact_channel env doc now =
     bind_r (channel_frame env doc) (\<lambda>_.
     let entries = js_entries (js_prop doc (js ''messages'')) in
     bind_r (assert_r (length entries \<le> 10000) (Contact TooManyMessages)) (\<lambda>_.
     bind_r (verify_contact_messages env doc now entries) (\<lambda>_. Inr doc)))"
  unfolding verify_contact_channel_def channel_frame_def Let_def bind_r_assoc ..

lemma verify_contact_message_cong:
  assumes "\<And>k. k \<noteq> js ''messages'' \<Longrightarrow> js_prop doc' k = js_prop doc k"
  shows "verify_contact_message env m doc' now = verify_contact_message env m doc now"
  unfolding verify_contact_message_def contact_message_head_def party_certificates_def using assms by (simp add: Let_def)

definition contact_entry_ok :: "'m chat_env_scheme \<Rightarrow> jsval \<Rightarrow> int \<Rightarrow> jstring \<times> jsval \<Rightarrow> bool" where
  "contact_entry_ok env doc now e \<longleftrightarrow>
     js_prop (js_prop (snd e) (js ''payload'')) (js ''messageId'') = JStr (fst e) \<and> verify_contact_message env (snd e) doc now = Inr ()"

lemma verify_contact_messages_iff:
  "verify_contact_messages env doc now es = Inr () \<longleftrightarrow> list_all (contact_entry_ok env doc now) es"
proof (induction es)
  case (Cons e es)
  obtain i m where e: "e = (i, m)" by fastforce
  have "js_prop (js_prop m (js ''payload'')) (js ''messageId'') = JStr i \<Longrightarrow>
      m \<noteq> JUndef \<and> m \<noteq> JNull \<and> js_prop m (js ''payload'') \<noteq> JUndef \<and> js_prop m (js ''payload'') \<noteq> JNull"
    using js_prop_str_defined by (metis js_prop.simps(2,3))
  then show ?case using Cons.IH
    by (auto simp: e bind_r_eq_Inr get_r_Inr assert_r_eq_Inr contact_entry_ok_def)
qed simp

section \<open>Appending\<close>

lemma is_obj_not_array: "is_obj v \<Longrightarrow> \<not> is_array v"
  by (cases v) simp_all

lemma channel_frame_cong:
  assumes "\<And>k. k \<noteq> js ''messages'' \<Longrightarrow> js_prop doc' k = js_prop doc k" "js_truthy doc' = js_truthy doc"
    and "js_truthy (js_prop doc' (js ''messages'')) = js_truthy (js_prop doc (js ''messages''))"
    and "is_array (js_prop doc' (js ''messages'')) = is_array (js_prop doc (js ''messages''))"
  shows "channel_frame env doc' = channel_frame env doc"
  unfolding channel_frame_def channel_head_def using assms by (simp add: Let_def)

text \<open>
  C36. Appending keeps a contact channel verified up to its limit: what \<open>appendContactMessage\<close> returns for a message
  that came as JSON passes \<open>verifyContactChannel\<close> at the same time, unless it holds more than 10000 messages. The limit
  is not checked before the message is stored, so one message too many makes the channel fail from then on.
\<close>

theorem contact_append_verifies_up_to_limit:
  assumes "append_contact_message env doc m now = Inr doc'" "js_clone m = m" "is_obj (js_prop doc (js ''messages''))"
  shows "verify_contact_channel env doc' now =
    (if length (js_entries (js_prop doc' (js ''messages''))) \<le> 10000 then Inr doc' else Inl (Contact TooManyMessages))"
proof -
  let ?ms = "js_prop doc (js ''messages'')"
  let ?i = "js_text (js_prop (js_prop m (js ''payload'')) (js ''messageId''))"
  let ?doc = "obj_set (js ''messages'') (obj_set ?i m ?ms) doc"
  from assms(1) obtain d where v: "verify_contact_channel env doc now = Inr d" "verify_contact_message env m doc now = Inr ()"
    and cases: "doc' = doc \<or> doc' = ?doc"
    using assms(2) unfolding append_contact_message_def Let_def by (auto elim!: bind_r_InrE split: if_splits)
  have frame: "channel_frame env doc = Inr ()" "length (js_entries ?ms) \<le> 10000"
    "list_all (contact_entry_ok env doc now) (js_entries ?ms)"
    using v(1) unfolding verify_channel_split Let_def verify_contact_messages_iff [symmetric]
    by (auto simp: bind_r_eq_Inr assert_r_eq_Inr)
  have o: "is_obj doc" using assms(3) js_prop_obj is_obj_defined by blast
  have props: "k \<noteq> js ''messages'' \<Longrightarrow> js_prop ?doc k = js_prop doc k" for k using o by simp
  have i: "js_prop (js_prop m (js ''payload'')) (js ''messageId'') = JStr ?i"
    using v(2) unfolding verify_contact_message_def Let_def contact_message_head_def
    by (cases "js_prop (js_prop m (js ''payload'')) (js ''messageId'')") (auto simp: bind_r_eq_Inr assert_r_eq_Inr)
  have "channel_frame env ?doc = channel_frame env doc"
    using o assms(3) is_obj_truthy [of doc] is_obj_truthy [of ?doc]
    by (intro channel_frame_cong) (auto simp: obj_set_truthy is_obj_not_array)
  moreover have "contact_entry_ok env ?doc now = contact_entry_ok env doc now"
    using verify_contact_message_cong [of ?doc doc, OF props, where env = env] by (auto simp: contact_entry_ok_def fun_eq_iff)
  moreover have "contact_entry_ok env doc now e" if "e \<in> set (js_entries (obj_set ?i m ?ms))" for e
    using subsetD [OF entries_obj_set that] frame(3) v(2) i by (auto simp: list_all_iff contact_entry_ok_def)
  ultimately have "verify_contact_channel env ?doc now =
      (if length (js_entries (obj_set ?i m ?ms)) \<le> 10000 then Inr ?doc else Inl (Contact TooManyMessages))"
    using frame(1) o verify_contact_messages_iff [of env ?doc now "js_entries (obj_set ?i m ?ms)"]
    by (auto simp: verify_channel_split assert_r_def list_all_iff)
  moreover have "verify_contact_channel env doc now = Inr doc" using v(1) by (auto simp: verify_channel_split Let_def bind_r_eq_Inr)
  ultimately show ?thesis using cases frame(2) o by auto
qed

section \<open>Certificates that another device issued\<close>

lemma lone_certificate:
  assumes "verify_device cr identity d (JArr [c]) = Inr k"
  shows "js_prop (payload_of c) (js ''issuerCertificateHash'') = JNull"
proof (rule ccontr)
  assume issued: "js_prop (payload_of c) (js ''issuerCertificateHash'') \<noteq> JNull"
  have "chain_loop cr pi domain [(h, c)] c [] \<noteq> Inr ()" for pi domain h
  proof
    assume "chain_loop cr pi domain [(h, c)] c [] = Inr ()"
    then obtain i where i: "device_of c = JStr i" and loop: "chain_loop cr pi domain [(h, c)] c [JStr i] = Inr ()"
      using issued by (subst (asm) chain_loop.simps)
        (auto simp: bind_r_eq_Inr js_get_def hash_get_def split: if_splits option.splits jsval.splits)
    from loop i show False
      by (subst (asm) chain_loop.simps) (auto simp: bind_r_eq_Inr js_get_def split: if_splits)
  qed
  with assms show False
    by (auto simp: verify_device_def verify_device_certificate_chain_def by_hash_def bind_r_eq_Inr get_device_def js_get_def
        split: if_splits jsval.splits option.splits)
qed

lemma each_certificate_root:
  "verify_each_certificate cr identity cs = Inr () \<Longrightarrow> c \<in> set cs \<Longrightarrow> js_prop (payload_of c) (js ''issuerCertificateHash'') = JNull"
  by (induction cs) (auto simp: bind_r_eq_Inr dest: lone_certificate)

text \<open>
  C37. A party whose certificates include one that another device issued gets a channel that never verifies:
  \<open>createContactChannel\<close> accepts the chain and copies it into the channel, where \<open>verifyContactChannel\<close> checks every
  certificate on its own.
\<close>

theorem enrolled_device_channel_unverifiable:
  assumes "create_contact_channel env request decision now = Inr doc" "js_clone request = request" "js_clone decision = decision"
    and "c \<in> set (js_list (js_prop request (js ''certificates''))) \<union> set (js_list (js_prop decision (js ''certificates'')))"
    and "js_prop (payload_of c) (js ''issuerCertificateHash'') \<noteq> JNull"
  shows "verify_contact_channel env doc later \<noteq> Inr d"
proof
  assume v: "verify_contact_channel env doc later = Inr d"
  have same: "js_clone (js_prop v k) = js_prop v k" if "js_clone v = v" "js_prop v k \<noteq> JUndef" for v k
    using js_prop_clone [OF js_prop_obj [OF that(2)] that(2)] that(1) by simp
  from assms(1) have
    doc: "js_prop doc (js ''ownerCertificates'') = js_clone (js_prop decision (js ''certificates''))"
      "js_prop doc (js ''visitorCertificates'') = js_clone (js_prop request (js ''certificates''))"
    by (auto simp: create_contact_channel_def verify_contact_request_def verify_contact_decision_def bind_r_eq_Inr Let_def)
  from v obtain i j os vs where
    "spread_r (js_or (js_prop doc (js ''ownerCertificates'')) (JArr [])) = Inr os" and v1: "verify_each_certificate env i os = Inr ()"
    and "spread_r (js_or (js_prop doc (js ''visitorCertificates'')) (JArr [])) = Inr vs" and v2: "verify_each_certificate env j vs = Inr ()"
    by (auto simp: verify_contact_channel_def bind_r_eq_Inr Let_def)
  moreover have "c \<in> set xs" if "spread_r (js_or (js_clone (js_prop v (js ''certificates''))) (JArr [])) = Inr xs" "js_clone v = v"
      "c \<in> set (js_list (js_prop v (js ''certificates'')))" for v xs
    using that same [OF that(2), of "js ''certificates''"]
    by (cases "js_prop v (js ''certificates'')") (auto simp: spread_r_def js_or_def)
  ultimately have "c \<in> set os \<union> set vs" using assms(2-4) doc by auto
  then show False using each_certificate_root v1 v2 assms(5) by blast
qed

section \<open>A channel\<close>

lemma length_ex_id [simp]: "length (ex_id n) = 43"
  by (simp add: ex_id_def length_to_base64url)

definition sample_request :: "jsval list \<Rightarrow> jsval" where
  "sample_request extra = contact_bundle
     (JObj [(js ''payload'', JObj [(js ''kind'', JStr (js ''contact-request'')), (js ''requestId'', JStr (js ''r1'')),
         (js ''personId'', JStr (ex_id 2)), (js ''deviceId'', JStr (ex_id 12)), (js ''displayName'', JStr (js ''Bo'')),
         (js ''firstMessage'', JStr (js ''Hi'')), (js ''createdAt'', JStr (sample_iso 0)), (js ''version'', JNum 1)]),
       (js ''signerKeyId'', JStr (ex_id 12)), (js ''signature'', JStr (to_base64url []))])
     (sample_identity 2) (sample_certificate 2 12 JNull (ex_id 2) # extra)"

lemma sample_iso_0 [simp]: "sample_iso 0 = [0x2B, 0x30]"
  by (simp add: sample_iso_def dec_nat.simps)

lemma sample_device_more [simp]:
  assumes "json_ok c"
  shows "verify_device chat_sample (sample_identity n) (JStr (ex_id d)) (JArr [sample_certificate n d JNull (ex_id n), c]) = Inr (JStr (ex_id d))"
proof -
  let ?c = "sample_certificate n d JNull (ex_id n)"
  have ok: "json_ok ?c" by (simp add: sample_certificate_def)
  obtain h h' where h: "certificate_hash chat_sample ?c = Inr h" "certificate_hash chat_sample c = Inr h'"
    using sample_hash [OF ok] sample_hash [OF assms] by blast
  have v: "verify_envelope chat_sample ?c (JStr (ex_id n)) domain = Inr True" for domain
    by (rule sample_verify) (simp_all add: sample_certificate_def)
  have "chain_loop chat_sample \<lparr> pi_person = ex_id n, pi_key = ex_id n \<rparr> domain hashes ?c [] = Inr ()" for domain hashes
    using v by (subst chain_loop.simps) (simp add: js_get_def sample_certificate_def)
  then show ?thesis
    by (simp add: verify_device_def verify_device_certificate_chain_def by_hash_def h js_get_def) (simp add: sample_certificate_def)
qed

definition enrolled_certificate :: jsval where
  "enrolled_certificate = sample_certificate 2 13 (JStr (ex_id 9)) (ex_id 12)"

lemma contact_texts: "contact_name (js ''Bo'') = Inr (js ''Bo'')" "contact_body (js ''Hi'') = Inr (js ''Hi'')"
  by (simp_all add: contact_name_def contact_body_def js_trim_def js_space_def max_contact_message_length_def js_def)

lemma base64url_Nil [simp]: "to_base64url [] = []"
  by (simp add: to_base64url_eq b64_run_def)

lemma sample_request_size:
  "json_bytes sample_number (sample_request []) \<le> 24576" "json_bytes sample_number (sample_request [enrolled_certificate]) \<le> 24576"
  by (rule plain_json_size; simp add: sample_request_def contact_bundle_def sample_identity_def sample_certificate_def enrolled_certificate_def
      dec_int_def dec_nat.simps)+

lemma sample_now: "validate_timestamp chat_sample (JStr [0x2B, 0x30]) (Some 0) = Inr ()"
  by (simp add: validate_timestamp_def undec_def max_future_tolerance_ms_def max_contact_age_ms_def)

lemma sample_request_ok:
  assumes "extra = [] \<or> extra = [enrolled_certificate]"
  shows "verify_contact_request chat_sample (sample_request extra) (Some 0) = Inr (sample_request extra)"
proof -
  have "json_ok enrolled_certificate" by (simp add: enrolled_certificate_def sample_certificate_def)
  then have d: "verify_device chat_sample (sample_identity 2) (JStr (ex_id 12)) (JArr (sample_certificate 2 12 JNull (ex_id 2) # extra)) =
      Inr (JStr (ex_id 12))"
    using assms by auto
  have v: "verify_envelope chat_sample (js_prop (sample_request extra) (js ''signed'')) (JStr (ex_id 12)) contact_domain = Inr True"
    by (rule sample_verify) (simp_all add: sample_request_def contact_bundle_def)
  have f: "signed_payload (sample_request extra) = JObj [(js ''kind'', JStr (js ''contact-request'')), (js ''requestId'', JStr (js ''r1'')),
         (js ''personId'', JStr (ex_id 2)), (js ''deviceId'', JStr (ex_id 12)), (js ''displayName'', JStr (js ''Bo'')),
         (js ''firstMessage'', JStr (js ''Hi'')), (js ''createdAt'', JStr (sample_iso 0)), (js ''version'', JNum 1)]"
    "js_prop (js_prop (sample_request extra) (js ''signed'')) (js ''signerKeyId'') = JStr (ex_id 12)"
    "signed_identity (sample_request extra) = sample_identity 2"
    "js_prop (sample_request extra) (js ''certificates'') = JArr (sample_certificate 2 12 JNull (ex_id 2) # extra)"
    by (simp_all add: sample_request_def contact_bundle_def)
  show ?thesis unfolding verify_contact_request_def Let_def f
    using assms sample_request_size sample_now d v
    by (auto simp: request_head_def assert_r_def max_contact_record_bytes_def contact_texts verify_signed_def)
qed

definition sample_decision :: jsval where
  "sample_decision = contact_bundle
     (JObj [(js ''payload'', JObj [(js ''kind'', JStr (js ''contact-decision'')), (js ''version'', JNum 1), (js ''requestId'', JStr (js ''r1'')),
         (js ''visitorPersonId'', JStr (ex_id 2)), (js ''ownerPersonId'', JStr (ex_id 1)), (js ''ownerDeviceId'', JStr (ex_id 11)),
         (js ''accepted'', JBool True), (js ''channelId'', JStr (js ''ch'')), (js ''channelSecret'', JStr (js ''s'')),
         (js ''createdAt'', JStr (sample_iso 0))]),
       (js ''signerKeyId'', JStr (ex_id 11)), (js ''signature'', JStr (to_base64url []))])
     (sample_identity 1) [sample_certificate 1 11 JNull (ex_id 1)]"

lemma sample_decision_size: "json_bytes sample_number sample_decision \<le> 24576"
  by (rule plain_json_size; simp add: sample_decision_def contact_bundle_def sample_identity_def sample_certificate_def dec_int_def dec_nat.simps)

lemma sample_decision_ok:
  "verify_contact_decision chat_sample sample_decision (sample_request extra) (Some 0) = Inr sample_decision"
proof -
  have v: "verify_envelope chat_sample (js_prop sample_decision (js ''signed'')) (JStr (ex_id 11)) contact_domain = Inr True"
    by (rule sample_verify) (simp_all add: sample_decision_def contact_bundle_def)
  have f: "signed_payload sample_decision =
      JObj [(js ''kind'', JStr (js ''contact-decision'')), (js ''version'', JNum 1), (js ''requestId'', JStr (js ''r1'')),
         (js ''visitorPersonId'', JStr (ex_id 2)), (js ''ownerPersonId'', JStr (ex_id 1)), (js ''ownerDeviceId'', JStr (ex_id 11)),
         (js ''accepted'', JBool True), (js ''channelId'', JStr (js ''ch'')), (js ''channelSecret'', JStr (js ''s'')),
         (js ''createdAt'', JStr (sample_iso 0))]"
    "js_prop (js_prop sample_decision (js ''signed'')) (js ''signerKeyId'') = JStr (ex_id 11)"
    "signed_identity sample_decision = sample_identity 1"
    "js_prop sample_decision (js ''certificates'') = JArr [sample_certificate 1 11 JNull (ex_id 1)]"
    "js_prop (signed_payload (sample_request extra)) (js ''requestId'') = JStr (js ''r1'')"
    "person_of (signed_payload (sample_request extra)) = JStr (ex_id 2)"
    by (simp_all add: sample_decision_def sample_request_def contact_bundle_def)
  show ?thesis unfolding verify_contact_decision_def Let_def decision_matches_def f
    using sample_decision_size sample_now v
    by (simp add: assert_r_def max_contact_record_bytes_def verify_signed_def)
qed

definition sample_channel :: "jsval list \<Rightarrow> jsval" where
  "sample_channel extra =
     JObj [(js ''kind'', JStr (js ''contact-channel'')), (js ''version'', JNum 1), (js ''channelId'', JStr (js ''ch'')),
       (js ''ownerPersonId'', JStr (ex_id 1)), (js ''visitorPersonId'', JStr (ex_id 2)),
       (js ''request'', sample_request extra), (js ''decision'', sample_decision),
       (js ''ownerCertificates'', JArr [sample_certificate 1 11 JNull (ex_id 1)]),
       (js ''visitorCertificates'', JArr (sample_certificate 2 12 JNull (ex_id 2) # extra)), (js ''messages'', JObj [])]"

lemma sample_clones:
  assumes "extra = [] \<or> extra = [enrolled_certificate]"
  shows "js_clone (sample_request extra) = sample_request extra" "js_clone sample_decision = sample_decision"
    "js_clone (JArr (sample_certificate 2 12 JNull (ex_id 2) # extra)) = JArr (sample_certificate 2 12 JNull (ex_id 2) # extra)"
proof -
  have "js_clone enrolled_certificate = enrolled_certificate" by (simp add: enrolled_certificate_def sample_certificate_def)
  then show "js_clone (sample_request extra) = sample_request extra" "js_clone sample_decision = sample_decision"
    "js_clone (JArr (sample_certificate 2 12 JNull (ex_id 2) # extra)) = JArr (sample_certificate 2 12 JNull (ex_id 2) # extra)"
    using assms by (auto simp: sample_request_def sample_decision_def contact_bundle_def)
qed

lemma sample_channel_created:
  assumes "extra = [] \<or> extra = [enrolled_certificate]"
  shows "create_contact_channel chat_sample (sample_request extra) sample_decision 0 = Inr (sample_channel extra)"
proof -
  have "js_prop (sample_request extra) (js ''certificates'') = JArr (sample_certificate 2 12 JNull (ex_id 2) # extra)"
    "person_of (signed_payload (sample_request extra)) = JStr (ex_id 2)"
    "js_prop sample_decision (js ''certificates'') = JArr [sample_certificate 1 11 JNull (ex_id 1)]"
    "js_prop (signed_payload sample_decision) (js ''accepted'') = JBool True"
    "js_prop (signed_payload sample_decision) (js ''channelId'') = JStr (js ''ch'')"
    "js_prop (signed_payload sample_decision) (js ''ownerPersonId'') = JStr (ex_id 1)"
    by (simp_all add: sample_decision_def sample_request_def contact_bundle_def)
  then show ?thesis
    unfolding create_contact_channel_def Let_def sample_request_ok [OF assms] bind_r_Inr sample_decision_ok sample_clones [OF assms]
    by (simp add: assert_r_def sample_channel_def sample_clones [OF assms] del: js_clone.simps clone_list.simps)
      (simp add: sample_clones [OF assms])
qed

theorem enrolled_device_channel_unverifiable_witness:
  "\<exists>doc. create_contact_channel chat_sample (sample_request [enrolled_certificate]) sample_decision 0 = Inr doc \<and>
     (\<forall>later. verify_contact_channel chat_sample doc later \<noteq> Inr doc)"
proof -
  have "enrolled_certificate \<in> set (js_list (js_prop (sample_request [enrolled_certificate]) (js ''certificates'')))"
    by (simp add: sample_request_def contact_bundle_def)
  moreover have "js_prop (payload_of enrolled_certificate) (js ''issuerCertificateHash'') \<noteq> JNull"
    by (simp add: enrolled_certificate_def sample_certificate_def)
  moreover have "create_contact_channel chat_sample (sample_request [enrolled_certificate]) sample_decision 0 =
      Inr (sample_channel [enrolled_certificate])"
    by (rule sample_channel_created) simp
  ultimately show ?thesis
    using enrolled_device_channel_unverifiable [of chat_sample "sample_request [enrolled_certificate]" sample_decision 0
        "sample_channel [enrolled_certificate]" enrolled_certificate] sample_clones [of "[enrolled_certificate]"] by blast
qed

definition sample_contact_message :: jsval where
  "sample_contact_message =
     JObj [(js ''payload'', JObj [(js ''kind'', JStr (js ''contact-message'')), (js ''version'', JNum 1), (js ''channelId'', JStr (js ''ch'')),
         (js ''messageId'', JStr (js ''m1'')), (js ''authorPersonId'', JStr (ex_id 1)), (js ''authorDeviceId'', JStr (ex_id 11)),
         (js ''body'', JStr (js ''Hi'')), (js ''createdAt'', JStr (sample_iso 0))]),
       (js ''signerKeyId'', JStr (ex_id 11)), (js ''signature'', JStr (to_base64url []))]"

lemma sample_channel_ok: "verify_contact_channel chat_sample (sample_channel []) 0 = Inr (sample_channel [])"
proof -
  have f: "js_prop (sample_channel []) (js ''request'') = sample_request []" "js_prop (sample_channel []) (js ''decision'') = sample_decision"
    "js_prop (sample_channel []) (js ''messages'') = JObj []"
    "js_prop (sample_channel []) (js ''ownerCertificates'') = JArr [sample_certificate 1 11 JNull (ex_id 1)]"
    "js_prop (sample_channel []) (js ''visitorCertificates'') = JArr [sample_certificate 2 12 JNull (ex_id 2)]"
    "js_prop (sample_channel []) (js ''channelId'') = JStr (js ''ch'')" "js_prop (sample_channel []) (js ''ownerPersonId'') = JStr (ex_id 1)"
    "js_prop (sample_channel []) (js ''visitorPersonId'') = JStr (ex_id 2)"
    by (simp_all add: sample_channel_def)
  have h: "channel_head (sample_channel [])"
    by (simp add: channel_head_def sample_channel_def sample_request_def sample_decision_def contact_bundle_def)
  have t: "signed_time chat_sample (sample_request []) = Inr (Some 0)" "signed_time chat_sample sample_decision = Inr (Some 0)"
    by (simp_all add: signed_time_def get_r_def js_get_def sample_request_def sample_decision_def contact_bundle_def undec_def)
  have p: "js_prop (signed_payload sample_decision) (js ''accepted'') = JBool True"
    "js_prop (signed_payload sample_decision) (js ''channelId'') = JStr (js ''ch'')"
    "js_prop (signed_payload sample_decision) (js ''ownerPersonId'') = JStr (ex_id 1)"
    "person_of (signed_payload (sample_request [])) = JStr (ex_id 2)"
    "signed_identity sample_decision = sample_identity 1" "signed_identity (sample_request []) = sample_identity 2"
    by (simp_all add: sample_request_def sample_decision_def contact_bundle_def)
  have "verify_contact_request chat_sample (sample_request []) (Some 0) = Inr (sample_request [])" by (rule sample_request_ok) simp
  then show ?thesis unfolding verify_contact_channel_def Let_def f t p
    using h by (simp add: assert_r_def sample_decision_ok p spread_r_def js_or_def t)
qed

theorem contact_append_verifies_up_to_limit_witness:
  "\<exists>doc'. append_contact_message chat_sample (sample_channel []) sample_contact_message 0 = Inr doc' \<and>
     verify_contact_channel chat_sample doc' 0 = Inr doc'"
proof -
  let ?doc = "obj_set (js ''messages'') (JObj [(js ''m1'', sample_contact_message)]) (sample_channel [])"
  have c: "js_clone sample_contact_message = sample_contact_message" by (simp add: sample_contact_message_def)
  have v: "verify_envelope chat_sample sample_contact_message (JStr (ex_id 11)) contact_domain = Inr True"
    by (rule sample_verify) (simp_all add: sample_contact_message_def)
  have root: "json_ok (sample_certificate 1 11 JNull (ex_id 1))" by (simp add: sample_certificate_def)
  have m: "verify_contact_message chat_sample sample_contact_message (sample_channel []) 0 = Inr ()"
    unfolding verify_contact_message_def Let_def contact_message_head_def
    using v sample_device_more [OF root, of 1 11]
    by (simp add: sample_contact_message_def sample_channel_def contact_texts assert_r_def undec_def
        party_certificates_def spread_r_def js_or_def sample_decision_def contact_bundle_def verify_signed_def max_future_tolerance_ms_def)
  have a: "append_contact_message chat_sample (sample_channel []) sample_contact_message 0 = Inr ?doc"
    unfolding append_contact_message_def Let_def sample_channel_ok bind_r_Inr m c
    by (simp add: sample_channel_def sample_contact_message_def)
  have "is_obj (js_prop (sample_channel []) (js ''messages''))" by (simp add: sample_channel_def)
  from contact_append_verifies_up_to_limit [OF a c this] a show ?thesis
    by (intro exI [of _ ?doc]) (simp add: sample_channel_def)
qed

end
