(* ===== verification/Calls.thy ===== *)
theory Calls
  imports Messaging
begin

text \<open>
  Calls (\<open>packages/mesh-calling/src/index.ts\<close>): the state machine of a call on one device and the signed signals
  that negotiate it between the members of a room.
\<close>

section \<open>Call sessions\<close>

datatype call_media = Audio | Video | OtherMedia jstring

datatype call_state = Idle | Calling | Ringing | Connecting | Active | Failed

record call_session =
  cs_state :: call_state
  cs_call :: jstring
  cs_peer :: jstring
  cs_media :: call_media
  cs_error :: jstring
  cs_muted :: bool
  cs_camera_off :: bool

definition idle_session :: call_session where
  "idle_session = \<lparr> cs_state = Idle, cs_call = [], cs_peer = [], cs_media = Audio, cs_error = [], cs_muted = False, cs_camera_off = False \<rparr>"

text \<open>An operation returns the new session, whose snapshot the caller gets, or the error it throws.\<close>

definition assert_start :: "call_session \<Rightarrow> jstring \<Rightarrow> jstring \<Rightarrow> call_media \<Rightarrow> chat_error + unit" where
  "assert_start s call peer media =
     bind_r (assert_r (cs_state s = Idle) (Call SessionBusy)) (\<lambda>_.
     assert_r (call \<noteq> [] \<and> peer \<noteq> [] \<and> media \<in> {Audio, Video}) (Call InvalidSession))"

definition begun :: "call_state \<Rightarrow> jstring \<Rightarrow> jstring \<Rightarrow> call_media \<Rightarrow> call_session" where
  "begun st call peer media =
     \<lparr> cs_state = st, cs_call = call, cs_peer = peer, cs_media = media, cs_error = [], cs_muted = False, cs_camera_off = False \<rparr>"

definition start_call :: "jstring \<Rightarrow> jstring \<Rightarrow> call_media \<Rightarrow> call_session \<Rightarrow> chat_error + call_session" where
  "start_call call peer media s = bind_r (assert_start s call peer media) (\<lambda>_. Inr (begun Calling call peer media))"

definition ring_call :: "jstring \<Rightarrow> jstring \<Rightarrow> call_media \<Rightarrow> call_session \<Rightarrow> chat_error + call_session" where
  "ring_call call peer media s = bind_r (assert_start s call peer media) (\<lambda>_. Inr (begun Ringing call peer media))"

definition connecting_call :: "call_session \<Rightarrow> chat_error + call_session" where
  "connecting_call s =
     (if cs_state s \<in> {Calling, Ringing, Connecting} then Inr (s\<lparr> cs_state := Connecting \<rparr>) else Inl (Call CannotConnect))"

definition connected_call :: "call_session \<Rightarrow> chat_error + call_session" where
  "connected_call s =
     (if cs_state s \<in> {Calling, Connecting, Active} then Inr (s\<lparr> cs_state := Active \<rparr>) else Inl (Call CannotActivate))"

definition fail_call :: "jstring \<Rightarrow> call_session \<Rightarrow> chat_error + call_session" where
  "fail_call e s =
     (if cs_state s = Idle then Inl (Call NoSession)
      else Inr (s\<lparr> cs_state := Failed, cs_error := (if e = [] then js ''Call failed'' else e) \<rparr>))"

definition set_microphone_muted :: "bool \<Rightarrow> call_session \<Rightarrow> chat_error + call_session" where
  "set_microphone_muted b s = (if cs_state s = Idle then Inl (Call NoSession) else Inr (s\<lparr> cs_muted := b \<rparr>))"

definition set_camera_disabled :: "bool \<Rightarrow> call_session \<Rightarrow> chat_error + call_session" where
  "set_camera_disabled b s =
     (if cs_state s = Idle \<or> cs_media s \<noteq> Video then Inl (Call NoVideoSession) else Inr (s\<lparr> cs_camera_off := b \<rparr>))"

definition end_call :: "call_session \<Rightarrow> chat_error + call_session" where
  "end_call s = Inr idle_session"

section \<open>Signals\<close>

definition call_domain :: jstring where "call_domain = js ''MESH-CALLING/1''"

definition create_call_signal ::
  "'m chat_env_scheme \<Rightarrow> local_profile \<Rightarrow> jstring \<Rightarrow> jstring \<Rightarrow> jstring \<Rightarrow> jstring \<Rightarrow> jstring \<Rightarrow> jstring \<Rightarrow> int \<Rightarrow> chat_error + jsval" where
  "create_call_signal env profile signal_kind call room media target signal_data now =
     bind_r (iso_text env now) (\<lambda>created.
     bind_r (assert_r (call \<noteq> [] \<and> room \<noteq> [] \<and> target \<noteq> [] \<and> length signal_data \<le> 128000) (Call InvalidSignal)) (\<lambda>_.
     identity_r (sign_envelope env (lp_device_key profile)
       (JObj [(js ''kind'', JStr (js ''call-signal'')), (js ''version'', JNum 1), (js ''signalKind'', JStr signal_kind),
         (js ''callId'', JStr call), (js ''roomId'', JStr room), (js ''media'', JStr media),
         (js ''senderPersonId'', person_of (lp_identity profile)), (js ''senderDeviceId'', JStr (lp_device profile)),
         (js ''targetPersonId'', JStr target), (js ''data'', JStr signal_data), (js ''createdAt'', JStr created)])
       (lp_device profile) call_domain)))"

text \<open>\<open>payload.data.length > 128_000\<close>.\<close>

fun data_too_long :: "jsval \<Rightarrow> chat_error + bool" where
  "data_too_long (JStr s) = Inr (128000 < length s)"
| "data_too_long (JArr vs) = Inr (128000 < length vs)"
| "data_too_long (JBytes bs) = Inr (128000 < length bs)"
| "data_too_long (JObj ps) = Inr (case map_of ps (js ''length'') of Some (JNum n) \<Rightarrow> 128000 < n | _ \<Rightarrow> False)"
| "data_too_long JUndef = Inl ValueFault"
| "data_too_long JNull = Inl ValueFault"
| "data_too_long v = Inr False"

definition signal_head :: "jsval \<Rightarrow> jsval \<Rightarrow> jstring \<Rightarrow> jsval \<Rightarrow> bool" where
  "signal_head signal room recipient p \<longleftrightarrow>
     js_truthy p \<and> js_prop p (js ''kind'') = JStr (js ''call-signal'') \<and> js_prop p (js ''version'') = JNum 1 \<and>
     js_prop p (js ''signalKind'') \<in> JStr ` {js ''offer'', js ''answer'', js ''ice'', js ''reject'', js ''end''} \<and>
     js_prop p (js ''media'') \<in> JStr ` {js ''audio'', js ''video''} \<and>
     js_eq (js_prop p (js ''roomId'')) (js_prop room (js ''conversationId'')) \<and>
     js_prop p (js ''targetPersonId'') = JStr recipient \<and>
     js_eq (js_prop p (js ''senderDeviceId'')) (js_prop signal (js ''signerKeyId'')) \<and> js_truthy (js_prop p (js ''callId''))"

definition verify_call_signal :: "'m chat_env_scheme \<Rightarrow> jsval \<Rightarrow> jsval \<Rightarrow> jstring \<Rightarrow> int \<Rightarrow> chat_error + jsval" where
  "verify_call_signal env signal room recipient now =
     (let p = js_prop signal (js ''payload'') in
      bind_r (assert_r (signal_head signal room recipient p) (Call InvalidSignal)) (\<lambda>_.
      bind_r (data_too_long (js_prop p (js ''data''))) (\<lambda>long.
      bind_r (assert_r (\<not> long) (Call InvalidSignal)) (\<lambda>_.
      bind_r (case ch_parse env (js_prop p (js ''createdAt'')) of None \<Rightarrow> Inl (Call ExpiredSignal)
        | Some t \<Rightarrow> assert_r (\<bar>now - t\<bar> \<le> 5 * 60 * 1000) (Call ExpiredSignal)) (\<lambda>_.
      let participant = js_index env (participants_of room) (js_prop p (js ''senderPersonId'')) in
      bind_r (assert_r (js_truthy participant \<and> js_truthy (js_prop (participants_of room) recipient)) (Call CallerNotMember)) (\<lambda>_.
      bind_r (verify_device env (js_prop participant (js ''identity'')) (js_prop p (js ''senderDeviceId'')) (certificates_of participant)) (\<lambda>key.
      bind_r (verify_signed env signal key call_domain (Call InvalidSignalSignature)) (\<lambda>_.
      Inr signal))))))))"

section \<open>Well-formed sessions\<close>

text \<open>The methods of a session; one that throws leaves the session as it is.\<close>

datatype call_op =
    StartCall jstring jstring call_media | RingCall jstring jstring call_media | ConnectingCall | ConnectedCall
  | FailCall jstring | MuteMicrophone bool | DisableCamera bool | EndCall

fun call_op_run :: "call_op \<Rightarrow> call_session \<Rightarrow> chat_error + call_session" where
  "call_op_run (StartCall call peer media) = start_call call peer media"
| "call_op_run (RingCall call peer media) = ring_call call peer media"
| "call_op_run ConnectingCall = connecting_call"
| "call_op_run ConnectedCall = connected_call"
| "call_op_run (FailCall e) = fail_call e"
| "call_op_run (MuteMicrophone b) = set_microphone_muted b"
| "call_op_run (DisableCamera b) = set_camera_disabled b"
| "call_op_run EndCall = end_call"

definition call_step :: "call_op \<Rightarrow> call_session \<Rightarrow> call_session" where
  "call_step op s = (case call_op_run op s of Inl e \<Rightarrow> s | Inr s' \<Rightarrow> s')"

definition session_ok :: "call_session \<Rightarrow> bool" where
  "session_ok s \<longleftrightarrow>
     (if cs_state s = Idle then s = idle_session
      else cs_call s \<noteq> [] \<and> cs_peer s \<noteq> [] \<and> cs_media s \<in> {Audio, Video} \<and> (cs_error s \<noteq> [] \<longleftrightarrow> cs_state s = Failed) \<and>
        (cs_camera_off s \<longrightarrow> cs_media s = Video))"

lemmas call_ops_defs = start_call_def ring_call_def assert_start_def begun_def connecting_call_def connected_call_def fail_call_def
  set_microphone_muted_def set_camera_disabled_def end_call_def

lemma call_step_ok: "session_ok s \<Longrightarrow> session_ok (call_step op s)"
proof (cases op)
  case (StartCall c p m)
  then show "session_ok s \<Longrightarrow> ?thesis"
    by (cases m) (auto simp: session_ok_def call_step_def call_ops_defs bind_r_def assert_r_def split: sum.splits if_splits)
next
  case (RingCall c p m)
  then show "session_ok s \<Longrightarrow> ?thesis"
    by (cases m) (auto simp: session_ok_def call_step_def call_ops_defs bind_r_def assert_r_def split: sum.splits if_splits)
qed (auto simp: session_ok_def call_step_def call_ops_defs idle_session_def split: if_splits)

text \<open>
  C38. A call session is always well formed: after any sequence of its methods, in any order and with any arguments, it is
  idle with every field cleared, or it has a call, a peer and a known medium, an error text exactly when it failed, and the
  camera off only in a video call.
\<close>

theorem call_session_well_formed: "session_ok (fold call_step ops idle_session)"
proof -
  have "session_ok s \<Longrightarrow> session_ok (fold call_step ops s)" for s
    by (induction ops arbitrary: s) (simp_all add: call_step_ok)
  moreover have "session_ok idle_session" by (simp add: session_ok_def idle_session_def)
  ultimately show ?thesis by blast
qed

end
