(* ===== verification/Instance_Lease.thy ===== *)
theory Instance_Lease
  imports Identity_Envelope Signature_Input
begin

text \<open>
  Leases of runtime instances (\<open>packages/mesh-instance/src/index.ts\<close>): the tabs of an application claim a numbered
  slot or the leadership with exclusive Web Locks, and derive the seed of their endpoint from the slot. The lock
  manager is shared by all tabs: it maps the name of a held lock to the request that holds it. A request with
  \<open>ifAvailable\<close> is granted at once when the name is free and refused otherwise; the lock is held until the callback's
  promise settles, which is when the lease is released. The locks of a refused attempt are given back before the next
  slot is tried.

  Shown: claiming and releasing a slot refine a table of slots, no two live leases share a slot or a leadership, and
  different instances hash different material.
\<close>

datatype lease_error =
    InvalidNamespace | InvalidSlotCount | InvalidCompatibilityLock | SeedTooShort | InvalidInstanceId

definition ascii_alnum :: "16 word \<Rightarrow> bool" where
  "ascii_alnum c \<longleftrightarrow> (0x30 \<le> c \<and> c \<le> 0x39) \<or> (0x41 \<le> c \<and> c \<le> 0x5A) \<or> (0x61 \<le> c \<and> c \<le> 0x7A)"

definition namespace_unit :: "16 word \<Rightarrow> bool" where
  "namespace_unit c \<longleftrightarrow> ascii_alnum c \<or> c = 0x2E \<or> c = 0x5F \<or> c = 0x2D"

definition is_namespace :: "jstring \<Rightarrow> bool" where
  "is_namespace s \<longleftrightarrow> (case s of [] \<Rightarrow> False | c # r \<Rightarrow> ascii_alnum c \<and> length r \<le> 63 \<and> list_all namespace_unit r)"

definition valid_namespace :: "jstring \<Rightarrow> lease_error + jstring" where
  "valid_namespace v = (let namespace = js_trim v in if is_namespace namespace then Inr namespace else Inl InvalidNamespace)"

section \<open>Locks\<close>

record lock_manager =
  lm_locks :: "(jstring \<times> nat) list"
  lm_next :: nat

record mesh_lease =
  ml_instance :: jstring
  ml_ticket :: "nat option"

text \<open>\<open>acquireLock(index)\<close>: the locks are requested one inside the callback of the other.\<close>

fun acquire_lock :: "nat \<Rightarrow> jstring list \<Rightarrow> (jstring \<times> nat) list \<Rightarrow> (jstring \<times> nat) list option" where
  "acquire_lock t [] locks = Some locks"
| "acquire_lock t (n # ns) locks =
     (case map_of locks n of Some u \<Rightarrow> None | None \<Rightarrow> acquire_lock t ns ((n, t) # locks))"

definition release_lease :: "mesh_lease \<Rightarrow> lock_manager \<Rightarrow> lock_manager" where
  "release_lease lease w =
     (case ml_ticket lease of None \<Rightarrow> w | Some t \<Rightarrow> w\<lparr> lm_locks := filter (\<lambda>l. snd l \<noteq> t) (lm_locks w) \<rparr>)"

definition slot_lock :: "jstring \<Rightarrow> nat \<Rightarrow> jstring" where
  "slot_lock namespace slot = namespace @ js '':mesh-instance:'' @ dec_nat slot"

definition leader_lock :: "jstring \<Rightarrow> jstring \<Rightarrow> jstring" where
  "leader_lock namespace name = namespace @ js '':mesh-leader:'' @ name"

definition slot_id :: "nat \<Rightarrow> jstring" where
  "slot_id slot = js ''slot-'' @ dec_nat slot"

section \<open>Leases\<close>

record lease_options =
  lo_namespace :: jstring
  lo_compatibility :: "jstring list"
  lo_locks :: bool
  lo_preferred :: "jstring option"
  lo_slots :: jsval

definition is_slot_text :: "jstring \<Rightarrow> bool" where
  "is_slot_text s \<longleftrightarrow> starts_with (js ''slot-'') s \<and> drop 5 s \<noteq> [] \<and> list_all is_digit (drop 5 s)"

definition is_ephemeral_text :: "jstring \<Rightarrow> bool" where
  "is_ephemeral_text s \<longleftrightarrow> starts_with (js ''ephemeral-'') s \<and> length s = 46 \<and>
     list_all (\<lambda>c. is_digit c \<or> (0x61 \<le> c \<and> c \<le> 0x66) \<or> c = 0x2D) (drop 10 s)"

text \<open>\<open>Number\<close> of the digits; beyond the safe integers it is rounded, but then no slot of the lease.\<close>

definition preferred_slot :: "jstring option \<Rightarrow> nat list" where
  "preferred_slot p = (case p of None \<Rightarrow> [] | Some s \<Rightarrow> if is_slot_text s then [undec (drop 5 s)] else [])"

definition slot_order :: "jstring option \<Rightarrow> nat \<Rightarrow> nat list" where
  "slot_order p n = filter (\<lambda>slot. slot < n) (js_uniq (preferred_slot p @ [0..<n]))"

definition ephemeral_id :: "jstring \<Rightarrow> jstring" where
  "ephemeral_id uuid = js ''ephemeral-'' @ uuid"

text \<open>The loop over the slots; the ticket is the identity of this request at the lock manager.\<close>

fun try_slots :: "jstring \<Rightarrow> jstring list \<Rightarrow> jstring \<Rightarrow> nat list \<Rightarrow> lock_manager \<Rightarrow> lease_error + mesh_lease \<times> lock_manager" where
  "try_slots namespace compatibility uuid [] w = Inr (\<lparr> ml_instance = ephemeral_id uuid, ml_ticket = None \<rparr>, w)"
| "try_slots namespace compatibility uuid (slot # slots) w =
     (let extra = (if slot = 0 then compatibility else []) in
      if list_ex (\<lambda>n. n = [] \<or> 128 < length n) extra then Inl InvalidCompatibilityLock
      else
        (case acquire_lock (lm_next w) (js_uniq (slot_lock namespace slot # extra)) (lm_locks w) of
           Some locks \<Rightarrow>
             Inr (\<lparr> ml_instance = slot_id slot, ml_ticket = Some (lm_next w) \<rparr>, \<lparr> lm_locks = locks, lm_next = lm_next w + 1 \<rparr>)
         | None \<Rightarrow> try_slots namespace compatibility uuid slots w))"

definition acquire_mesh_instance_lease :: "lease_options \<Rightarrow> jstring \<Rightarrow> lock_manager \<Rightarrow> lease_error + mesh_lease \<times> lock_manager" where
  "acquire_mesh_instance_lease opts uuid w =
     bind_r (valid_namespace (lo_namespace opts)) (\<lambda>namespace.
     if \<not> lo_locks opts then
       Inr (\<lparr> ml_instance = (case lo_preferred opts of
           Some p \<Rightarrow> if is_slot_text p \<or> is_ephemeral_text p then p else ephemeral_id uuid
         | None \<Rightarrow> ephemeral_id uuid), ml_ticket = None \<rparr>, w)
     else
       let slots = js_or (lo_slots opts) (JNum 32) in
       if \<not> js_safe slots \<or> js_int slots < 1 \<or> 256 < js_int slots then Inl InvalidSlotCount
       else try_slots namespace (lo_compatibility opts) uuid (slot_order (lo_preferred opts) (nat (js_int slots))) w)"

definition try_acquire_mesh_leader_lease ::
  "jstring \<Rightarrow> jstring \<Rightarrow> bool \<Rightarrow> lock_manager \<Rightarrow> lease_error + mesh_lease option \<times> lock_manager" where
  "try_acquire_mesh_leader_lease namespace_value name_value has_locks w =
     bind_r (valid_namespace namespace_value) (\<lambda>namespace.
     bind_r (valid_namespace name_value) (\<lambda>name.
     if \<not> has_locks then Inr (Some \<lparr> ml_instance = js ''leader'', ml_ticket = None \<rparr>, w)
     else
       (case acquire_lock (lm_next w) [leader_lock namespace name] (lm_locks w) of
          None \<Rightarrow> Inr (None, w)
        | Some locks \<Rightarrow> Inr (Some \<lparr> ml_instance = js ''leader'', ml_ticket = Some (lm_next w) \<rparr>,
            \<lparr> lm_locks = locks, lm_next = lm_next w + 1 \<rparr>))))"

section \<open>Seeds\<close>

definition seed_material :: "bytes \<Rightarrow> jstring \<Rightarrow> jstring \<Rightarrow> bytes" where
  "seed_material base_seed scope instance_id = base_seed @ utf8 (0 # scope @ 0 # instance_id)"

definition derive_mesh_instance_seed ::
  "'m mesh_crypto_scheme \<Rightarrow> bytes \<Rightarrow> jstring \<Rightarrow> jstring \<Rightarrow> lease_error + bytes" where
  "derive_mesh_instance_seed cr base_seed namespace instance_id =
     bind_r (assert_r (16 \<le> length base_seed) SeedTooShort) (\<lambda>_.
     bind_r (valid_namespace namespace) (\<lambda>scope.
     bind_r (assert_r (instance_id \<noteq> [] \<and> length instance_id \<le> 128) InvalidInstanceId) (\<lambda>_.
     Inr (cr_sha256 cr (seed_material base_seed scope instance_id)))))"

section \<open>Names of locks\<close>

lemma namespace_plain: "is_namespace s \<Longrightarrow> c \<in> set s \<Longrightarrow> namespace_unit c"
  by (auto simp: is_namespace_def namespace_unit_def list_all_iff split: list.splits)

lemma namespace_unit_plain: "namespace_unit c \<Longrightarrow> c \<noteq> 0 \<and> \<not> is_high c \<and> \<not> is_low c"
  by (auto simp: namespace_unit_def ascii_alnum_def is_high_def is_low_def word_le_nat_alt)

lemma namespace_no_colon: "is_namespace s \<Longrightarrow> 0x3A \<notin> set s"
  using namespace_plain [of s "0x3A"] by (auto simp: namespace_unit_def ascii_alnum_def)

lemma valid_namespaceD: "valid_namespace v = Inr s \<Longrightarrow> is_namespace s"
  by (auto simp: valid_namespace_def Let_def split: if_splits)

lemma colon_prefix: "0x3A \<notin> set a \<Longrightarrow> 0x3A \<notin> set b \<Longrightarrow> a @ 0x3A # x = b @ 0x3A # y \<longleftrightarrow> a = b \<and> (x :: jstring) = y"
  by (induction a arbitrary: b) (case_tac b; auto)+

lemma zero_prefix: "0 \<notin> set a \<Longrightarrow> 0 \<notin> set b \<Longrightarrow> a @ 0 # x = b @ 0 # y \<Longrightarrow> (a, x :: jstring) = (b, y)"
  by (induction a arbitrary: b) (case_tac b; auto)+

lemma js_colon: "js (CHR '':'' # s) = 0x3A # js s"
  by (simp add: js_def)


lemma leader_lock_inj:
  "is_namespace a \<Longrightarrow> is_namespace b \<Longrightarrow> leader_lock a x = leader_lock b y \<longleftrightarrow> a = b \<and> x = y"
  by (auto simp: leader_lock_def js_colon colon_prefix namespace_no_colon)

lemma slot_id_inj: "slot_id j = slot_id k \<longleftrightarrow> j = k"
  by (simp add: slot_id_def dec_nat_inj)

lemma acquire_lock_Some:
  "acquire_lock t ns locks = Some locks' \<longleftrightarrow>
     distinct ns \<and> (\<forall>n \<in> set ns. map_of locks n = None) \<and> locks' = rev (map (\<lambda>n. (n, t)) ns) @ locks"
  by (induction ns arbitrary: locks) (auto split: option.splits if_splits)

lemma map_of_ticket: "map_of (map (\<lambda>n. (n, t)) ns) n = (if n \<in> set ns then Some t else None)"
  by (induction ns) auto

lemma acquired_lookup:
  "acquire_lock t ns locks = Some locks' \<Longrightarrow> map_of locks' n = (if n \<in> set ns then Some t else map_of locks n)"
  using map_of_ticket [of t "rev ns"] by (auto simp: acquire_lock_Some rev_map [symmetric] map_add_def split: option.splits)

section \<open>A table of slots\<close>






lemma map_of_filter_owner:
  "distinct (map fst xs) \<Longrightarrow> map_of (filter (\<lambda>l. snd l \<noteq> t) xs) n = (if map_of xs n = Some t then None else map_of xs n)"
proof (induction xs)
  case (Cons x xs)
  obtain m u where x: "x = (m, u)" by fastforce
  from Cons.prems x have "map_of xs m = None" by (simp add: map_of_eq_None_iff)
  with Cons x show ?case by (cases "n = m") simp_all
qed simp


section \<open>Live leases\<close>

text \<open>The tabs of all applications at one lock manager. An application calls the two operations and releases what it
  got; other code (an older runtime) may take and give back any lock. A lease without a ticket has no lock to release.\<close>

record lease_state =
  ls_manager :: lock_manager
  ls_instances :: "(jstring \<times> mesh_lease) list"
  ls_leaders :: "((jstring \<times> jstring) \<times> mesh_lease) list"

inductive lease_step :: "lease_state \<Rightarrow> lease_state \<Rightarrow> bool" where
  acquired: "acquire_mesh_instance_lease opts uuid (ls_manager s) = Inr (lease, w) \<Longrightarrow>
    valid_namespace (lo_namespace opts) = Inr namespace \<Longrightarrow>
    lease_step s (s\<lparr> ls_manager := w, ls_instances := (namespace, lease) # ls_instances s \<rparr>)"
| leading: "try_acquire_mesh_leader_lease namespace_value name_value has_locks (ls_manager s) = Inr (Some lease, w) \<Longrightarrow>
    valid_namespace namespace_value = Inr namespace \<Longrightarrow> valid_namespace name_value = Inr name \<Longrightarrow>
    lease_step s (s\<lparr> ls_manager := w, ls_leaders := ((namespace, name), lease) # ls_leaders s \<rparr>)"
| foreign: "map_of (lm_locks (ls_manager s)) n = None \<Longrightarrow>
    lease_step s (s\<lparr> ls_manager := \<lparr> lm_locks = (n, lm_next (ls_manager s)) # lm_locks (ls_manager s),
      lm_next = lm_next (ls_manager s) + 1 \<rparr> \<rparr>)"
| released: "ml_ticket lease = Some t \<Longrightarrow>
    lease_step s (s\<lparr> ls_manager := release_lease lease (ls_manager s),
      ls_instances := filter (\<lambda>l. ml_ticket (snd l) \<noteq> Some t) (ls_instances s),
      ls_leaders := filter (\<lambda>l. ml_ticket (snd l) \<noteq> Some t) (ls_leaders s) \<rparr>)"

inductive lease_reachable :: "lease_state \<Rightarrow> bool" where
  start: "lease_reachable \<lparr> ls_manager = \<lparr> lm_locks = [], lm_next = 0 \<rparr>, ls_instances = [], ls_leaders = [] \<rparr>"
| step: "lease_reachable s \<Longrightarrow> lease_step s s' \<Longrightarrow> lease_reachable s'"

text \<open>A live lease holds its lock with its ticket.\<close>

definition holds_slot :: "(jstring \<times> nat) list \<Rightarrow> jstring \<times> mesh_lease \<Rightarrow> bool" where
  "holds_slot locks l \<longleftrightarrow>
     is_namespace (fst l) \<and>
     (\<forall>t. ml_ticket (snd l) = Some t \<longrightarrow> (\<exists>slot. ml_instance (snd l) = slot_id slot \<and> map_of locks (slot_lock (fst l) slot) = Some t))"

definition holds_leader :: "(jstring \<times> nat) list \<Rightarrow> (jstring \<times> jstring) \<times> mesh_lease \<Rightarrow> bool" where
  "holds_leader locks l \<longleftrightarrow>
     is_namespace (fst (fst l)) \<and> ml_instance (snd l) = js ''leader'' \<and>
     (\<forall>t. ml_ticket (snd l) = Some t \<longrightarrow> map_of locks (leader_lock (fst (fst l)) (snd (fst l))) = Some t)"

abbreviation with_lock :: "('k \<times> mesh_lease) list \<Rightarrow> ('k \<times> mesh_lease) list" where
  "with_lock ls \<equiv> filter (\<lambda>l. ml_ticket (snd l) \<noteq> None) ls"

definition lease_inv :: "lease_state \<Rightarrow> bool" where
  "lease_inv s \<longleftrightarrow>
     distinct (map fst (lm_locks (ls_manager s))) \<and> (\<forall>l \<in> set (lm_locks (ls_manager s)). snd l < lm_next (ls_manager s)) \<and>
     list_all (holds_slot (lm_locks (ls_manager s))) (ls_instances s) \<and>
     list_all (holds_leader (lm_locks (ls_manager s))) (ls_leaders s) \<and>
     distinct (map (\<lambda>l. (fst l, ml_instance (snd l))) (with_lock (ls_instances s))) \<and>
     distinct (map fst (with_lock (ls_leaders s)))"

text \<open>Granting locks with a fresh ticket, and releasing a ticket.\<close>

lemma granted_locks:
  assumes "acquire_lock (lm_next w) ns (lm_locks w) = Some locks"
    and "distinct (map fst (lm_locks w))" "\<forall>l \<in> set (lm_locks w). snd l < lm_next w"
  shows "distinct (map fst locks)" "\<forall>l \<in> set locks. snd l < lm_next w + 1"
    "map_of (lm_locks w) n = Some t \<Longrightarrow> map_of locks n = Some t"
proof -
  have "map_of (lm_locks w) n = Some t \<Longrightarrow> n \<notin> set ns" for n t using assms(1) by (auto simp: acquire_lock_Some)
  then show "map_of (lm_locks w) n = Some t \<Longrightarrow> map_of locks n = Some t" using acquired_lookup [OF assms(1)] by auto
  show "distinct (map fst locks)" "\<forall>l \<in> set locks. snd l < lm_next w + 1"
    using assms by (auto simp: acquire_lock_Some map_of_eq_None_iff rev_map comp_def less_SucI)
qed

lemma holds_mono:
  assumes "\<And>n t. map_of locks n = Some t \<Longrightarrow> map_of locks' n = Some t"
  shows "holds_slot locks l \<Longrightarrow> holds_slot locks' l" "holds_leader locks m \<Longrightarrow> holds_leader locks' m"
  using assms by (fastforce simp: holds_slot_def holds_leader_def)+

lemma inv_granted:
  assumes "lease_inv s" "acquire_lock (lm_next (ls_manager s)) ns (lm_locks (ls_manager s)) = Some locks"
  shows "lease_inv (s\<lparr> ls_manager := \<lparr> lm_locks = locks, lm_next = lm_next (ls_manager s) + 1 \<rparr> \<rparr>)"
  using assms granted_locks [OF assms(2)] holds_mono [of "lm_locks (ls_manager s)" locks]
  by (auto simp: lease_inv_def list_all_iff)

lemma new_instance:
  assumes "lease_inv s" "holds_slot (lm_locks (ls_manager s)) (namespace, lease)"
    and "ml_ticket lease \<noteq> None \<Longrightarrow> \<forall>l \<in> set (ls_instances s). ml_ticket (snd l) \<noteq> ml_ticket lease"
  shows "lease_inv (s\<lparr> ls_instances := (namespace, lease) # ls_instances s \<rparr>)"
proof -
  have "(namespace, ml_instance lease) \<noteq> (fst l, ml_instance (snd l))"
    if l: "l \<in> set (ls_instances s)" "ml_ticket (snd l) \<noteq> None" "ml_ticket lease \<noteq> None" for l
  proof
    assume eq: "(namespace, ml_instance lease) = (fst l, ml_instance (snd l))"
    have "holds_slot (lm_locks (ls_manager s)) l" using assms(1) l(1) by (simp add: lease_inv_def list_all_iff)
    with eq assms(2) l(2,3) have "ml_ticket (snd l) = ml_ticket lease" by (auto simp: holds_slot_def slot_id_inj)
    with assms(3) l show False by blast
  qed
  then show ?thesis using assms(1,2) by (fastforce simp: lease_inv_def)
qed

lemma new_leader:
  assumes "lease_inv s" "holds_leader (lm_locks (ls_manager s)) (k, lease)"
    and "ml_ticket lease \<noteq> None \<Longrightarrow> \<forall>l \<in> set (ls_leaders s). ml_ticket (snd l) \<noteq> ml_ticket lease"
  shows "lease_inv (s\<lparr> ls_leaders := (k, lease) # ls_leaders s \<rparr>)"
proof -
  have "k \<noteq> fst l" if l: "l \<in> set (ls_leaders s)" "ml_ticket (snd l) \<noteq> None" "ml_ticket lease \<noteq> None" for l
  proof
    assume eq: "k = fst l"
    have "holds_leader (lm_locks (ls_manager s)) l" using assms(1) l(1) by (simp add: lease_inv_def list_all_iff)
    with eq assms(2) l(2,3) have "ml_ticket (snd l) = ml_ticket lease" by (auto simp: holds_leader_def)
    with assms(3) l show False by blast
  qed
  then show ?thesis using assms(1,2) by (fastforce simp: lease_inv_def)
qed

text \<open>The tickets of live leases are older than the next one.\<close>

lemma live_tickets:
  assumes "lease_inv s"
  shows "\<forall>l \<in> set (ls_instances s). ml_ticket (snd l) \<noteq> Some (lm_next (ls_manager s))"
    "\<forall>l \<in> set (ls_leaders s). ml_ticket (snd l) \<noteq> Some (lm_next (ls_manager s))"
proof -
  have old: "map_of (lm_locks (ls_manager s)) n \<noteq> Some (lm_next (ls_manager s))" for n
    using assms by (auto simp: lease_inv_def dest!: map_of_SomeD)
  show "\<forall>l \<in> set (ls_instances s). ml_ticket (snd l) \<noteq> Some (lm_next (ls_manager s))"
    "\<forall>l \<in> set (ls_leaders s). ml_ticket (snd l) \<noteq> Some (lm_next (ls_manager s))"
    using assms old by (fastforce simp: lease_inv_def list_all_iff holds_slot_def holds_leader_def)+
qed

lemma try_slots_cases:
  "try_slots namespace compatibility uuid slots w = Inr (lease, w') \<Longrightarrow>
     (ml_ticket lease = None \<and> w' = w) \<or>
     (\<exists>slot ns locks. acquire_lock (lm_next w) ns (lm_locks w) = Some locks \<and> slot_lock namespace slot \<in> set ns \<and>
        lease = \<lparr> ml_instance = slot_id slot, ml_ticket = Some (lm_next w) \<rparr> \<and> w' = \<lparr> lm_locks = locks, lm_next = lm_next w + 1 \<rparr>)"
proof (induction slots)
  case (Cons slot slots)
  let ?ns = "js_uniq (slot_lock namespace slot # (if slot = 0 then compatibility else []))"
  show ?case
  proof (cases "acquire_lock (lm_next w) ?ns (lm_locks w)")
    case None
    with Cons show ?thesis by (auto simp: Let_def split: if_splits)
  next
    case (Some locks)
    with Cons.prems have "lease = \<lparr> ml_instance = slot_id slot, ml_ticket = Some (lm_next w) \<rparr>"
      "w' = \<lparr> lm_locks = locks, lm_next = lm_next w + 1 \<rparr>"
      by (auto simp: Let_def split: if_splits)
    moreover have "slot_lock namespace slot \<in> set ?ns" by simp
    ultimately show ?thesis using Some by blast
  qed
qed auto

lemma acquired_cases:
  assumes "acquire_mesh_instance_lease opts uuid w = Inr (lease, w')" "valid_namespace (lo_namespace opts) = Inr namespace"
  shows "(ml_ticket lease = None \<and> w' = w) \<or>
     (\<exists>slot ns locks. acquire_lock (lm_next w) ns (lm_locks w) = Some locks \<and> slot_lock namespace slot \<in> set ns \<and>
        lease = \<lparr> ml_instance = slot_id slot, ml_ticket = Some (lm_next w) \<rparr> \<and> w' = \<lparr> lm_locks = locks, lm_next = lm_next w + 1 \<rparr>)"
proof (cases "lo_locks opts")
  case True
  with assms have "try_slots namespace (lo_compatibility opts) uuid
      (slot_order (lo_preferred opts) (nat (js_int (js_or (lo_slots opts) (JNum 32))))) w = Inr (lease, w')"
    by (simp add: acquire_mesh_instance_lease_def Let_def split: if_splits)
  then show ?thesis by (rule try_slots_cases)
qed (use assms in \<open>auto simp: acquire_mesh_instance_lease_def\<close>)

lemma inv_acquired:
  assumes inv: "lease_inv s" and a: "acquire_mesh_instance_lease opts uuid (ls_manager s) = Inr (lease, w)"
    and n: "valid_namespace (lo_namespace opts) = Inr namespace"
  shows "lease_inv (s\<lparr> ls_manager := w, ls_instances := (namespace, lease) # ls_instances s \<rparr>)"
  using acquired_cases [OF a n]
proof (elim disjE exE conjE)
  assume "ml_ticket lease = None" "w = ls_manager s"
  then show ?thesis using new_instance [OF inv, of namespace lease] valid_namespaceD [OF n] by (simp add: holds_slot_def)
next
  fix slot ns locks
  let ?s = "s\<lparr> ls_manager := \<lparr> lm_locks = locks, lm_next = lm_next (ls_manager s) + 1 \<rparr> \<rparr>"
  assume g: "acquire_lock (lm_next (ls_manager s)) ns (lm_locks (ls_manager s)) = Some locks" "slot_lock namespace slot \<in> set ns"
    and l: "lease = \<lparr> ml_instance = slot_id slot, ml_ticket = Some (lm_next (ls_manager s)) \<rparr>"
      "w = \<lparr> lm_locks = locks, lm_next = lm_next (ls_manager s) + 1 \<rparr>"
  have "holds_slot locks (namespace, lease)"
    using l g acquired_lookup [OF g(1)] valid_namespaceD [OF n] by (auto simp: holds_slot_def)
  then show ?thesis using new_instance [OF inv_granted [OF inv g(1)], of namespace lease] live_tickets(1) [OF inv] l by simp
qed

lemma inv_leading:
  assumes inv: "lease_inv s" and a: "try_acquire_mesh_leader_lease v u has_locks (ls_manager s) = Inr (Some lease, w)"
    and n: "valid_namespace v = Inr namespace" "valid_namespace u = Inr name"
  shows "lease_inv (s\<lparr> ls_manager := w, ls_leaders := ((namespace, name), lease) # ls_leaders s \<rparr>)"
proof (cases has_locks)
  case False
  with a n have "ml_ticket lease = None" "ml_instance lease = js ''leader''" "w = ls_manager s"
    by (auto simp: try_acquire_mesh_leader_lease_def)
  then show ?thesis using new_leader [OF inv, of "(namespace, name)" lease] valid_namespaceD [OF n(1)] by (simp add: holds_leader_def)
next
  case True
  with a n obtain locks where
    g: "acquire_lock (lm_next (ls_manager s)) [leader_lock namespace name] (lm_locks (ls_manager s)) = Some locks"
    and l: "lease = \<lparr> ml_instance = js ''leader'', ml_ticket = Some (lm_next (ls_manager s)) \<rparr>"
      "w = \<lparr> lm_locks = locks, lm_next = lm_next (ls_manager s) + 1 \<rparr>"
    by (auto simp: try_acquire_mesh_leader_lease_def simp del: acquire_lock.simps split: option.splits)
  have "holds_leader locks ((namespace, name), lease)"
    using l acquired_lookup [OF g] valid_namespaceD [OF n(1)] by (auto simp: holds_leader_def)
  then show ?thesis
    using new_leader [OF inv_granted [OF inv g], of "(namespace, name)" lease] live_tickets(2) [OF inv] l by simp
qed

lemma holds_kept:
  assumes "\<And>n u. map_of locks n = Some u \<Longrightarrow> u \<noteq> t \<Longrightarrow> map_of locks' n = Some u"
  shows "holds_slot locks l \<Longrightarrow> ml_ticket (snd l) \<noteq> Some t \<Longrightarrow> holds_slot locks' l"
    "holds_leader locks m \<Longrightarrow> ml_ticket (snd m) \<noteq> Some t \<Longrightarrow> holds_leader locks' m"
  using assms by (fastforce simp: holds_slot_def holds_leader_def)+

lemma distinct_with_lock: "distinct (map g (with_lock xs)) \<Longrightarrow> distinct (map g (with_lock (filter P xs)))"
  by (induction xs) auto

lemma inv_released:
  assumes inv: "lease_inv s" and t: "ml_ticket lease = Some t"
  shows "lease_inv (s\<lparr> ls_manager := release_lease lease (ls_manager s),
      ls_instances := filter (\<lambda>l. ml_ticket (snd l) \<noteq> Some t) (ls_instances s),
      ls_leaders := filter (\<lambda>l. ml_ticket (snd l) \<noteq> Some t) (ls_leaders s) \<rparr>)"
proof -
  let ?locks = "lm_locks (ls_manager s)" and ?f = "filter (\<lambda>l. snd l \<noteq> t)"
  have d: "distinct (map fst ?locks)" using inv by (simp add: lease_inv_def)
  have "map_of ?locks n = Some u \<Longrightarrow> u \<noteq> t \<Longrightarrow> map_of (?f ?locks) n = Some u" for n u
    using map_of_filter_owner [OF d, of t] by simp
  then show ?thesis using inv t holds_kept [of ?locks t "?f ?locks"]
    by (auto simp: lease_inv_def release_lease_def list_all_iff distinct_map_filter
        simp del: filter_filter not_None_eq intro: distinct_with_lock)
qed

lemma inv_step: "lease_step s s' \<Longrightarrow> lease_inv s \<Longrightarrow> lease_inv s'"
proof (induction rule: lease_step.induct)
  case (foreign s n)
  then show ?case using inv_granted [of s "[n]"] by (simp add: acquire_lock_Some)
qed (auto intro: inv_acquired inv_leading inv_released)

lemma inv_reachable: "lease_reachable s \<Longrightarrow> lease_inv s"
proof (induction rule: lease_reachable.induct)
  case (step s s')
  then show ?case by (blast intro: inv_step)
qed (simp add: lease_inv_def)

section \<open>Properties\<close>


definition sample_options :: lease_options where
  "sample_options = \<lparr> lo_namespace = js '' twang'', lo_compatibility = [], lo_locks = True, lo_preferred = Some (js ''slot-1''),
     lo_slots = JNum 2 \<rparr>"

lemma sample_namespace: "valid_namespace (js '' twang'') = Inr (js ''twang'')"
  by (simp add: valid_namespace_def js_trim_def js_space_def is_namespace_def namespace_unit_def ascii_alnum_def js_def)


text \<open>
  C34. No two live leases collide: whatever the tabs do, and whatever other code locks, two live leases that hold a lock
  differ in their namespace or their instance id, and no two hold the same leadership.
\<close>

theorem live_leases_exclusive:
  assumes "lease_reachable s"
  shows "distinct (map (\<lambda>l. (fst l, ml_instance (snd l))) (with_lock (ls_instances s))) \<and>
    distinct (map fst (with_lock (ls_leaders s)))"
  using inv_reachable [OF assms] by (simp add: lease_inv_def)

theorem live_leases_exclusive_witness:
  "\<exists>s. lease_reachable s \<and> length (with_lock (ls_instances s)) = 1 \<and>
     distinct (map (\<lambda>l. (fst l, ml_instance (snd l))) (with_lock (ls_instances s)))"
proof -
  let ?s = "\<lparr> ls_manager = \<lparr> lm_locks = [], lm_next = 0 \<rparr>, ls_instances = [], ls_leaders = [] \<rparr>"
  let ?l = "\<lparr> ml_instance = slot_id 1, ml_ticket = Some 0 \<rparr>"
  let ?w = "\<lparr> lm_locks = [(slot_lock (js ''twang'') 1, 0)], lm_next = 1 \<rparr>"
  have "slot_order (Some (js ''slot-1'')) 2 = [1, 0]"
    by (simp add: slot_order_def preferred_slot_def is_slot_text_def starts_with_def undec_def js_uniq_def is_digit_def js_def upt_rec)
  then have "acquire_mesh_instance_lease sample_options [] (ls_manager ?s) = Inr (?l, ?w)"
    by (simp add: acquire_mesh_instance_lease_def sample_options_def sample_namespace js_or_def is_safe_integer_def
        max_safe_integer_def js_uniq_def)
  moreover have "valid_namespace (lo_namespace sample_options) = Inr (js ''twang'')"
    by (simp add: sample_options_def sample_namespace)
  ultimately have "lease_reachable (?s\<lparr> ls_manager := ?w, ls_instances := (js ''twang'', ?l) # ls_instances ?s \<rparr>)"
    by (intro lease_reachable.step [OF lease_reachable.start] lease_step.acquired)
  then show ?thesis using live_leases_exclusive
    by (intro exI [of _ "?s\<lparr> ls_manager := ?w, ls_instances := (js ''twang'', ?l) # ls_instances ?s \<rparr>"]) fastforce
qed

text \<open>
  C35. Two instances never hash the same material: when \<open>deriveMeshInstanceSeed\<close> succeeds for two pairs of namespace and
  instance id over one base seed, the seeds are digests of different byte strings unless the trimmed namespaces and the ids agree.
\<close>

theorem instance_seeds_separated:
  assumes "derive_mesh_instance_seed cr base a i = Inr x" "derive_mesh_instance_seed cr base b j = Inr y"
    and "wf16 i" "wf16 j" "(js_trim a, i) \<noteq> (js_trim b, j)"
  shows "x = cr_sha256 cr (seed_material base (js_trim a) i) \<and> y = cr_sha256 cr (seed_material base (js_trim b) j) \<and>
    seed_material base (js_trim a) i \<noteq> seed_material base (js_trim b) j"
proof -
  have ns: "is_namespace (js_trim a)" "is_namespace (js_trim b)"
    using assms(1,2) by (auto simp: derive_mesh_instance_seed_def valid_namespace_def bind_r_eq_Inr Let_def split: if_splits)
  have wf: "wf16 (0 # s @ 0 # k)" and zero: "0 \<notin> set s" if "is_namespace s" "wf16 k" for s k
  proof -
    have "\<forall>c \<in> set (0 # s @ [0]). \<not> is_high c \<and> \<not> is_low c"
      using namespace_plain [OF that(1)] namespace_unit_plain by (auto simp: is_high_def is_low_def)
    then have "wf16 ((0 # s @ [0]) @ k)" using wf16_append wf16_plain that(2) by blast
    then show "wf16 (0 # s @ 0 # k)" by simp
    show "0 \<notin> set s" using namespace_plain [OF that(1), of 0] namespace_unit_plain by blast
  qed
  have "seed_material base (js_trim a) i \<noteq> seed_material base (js_trim b) j"
  proof
    assume "seed_material base (js_trim a) i = seed_material base (js_trim b) j"
    then have "js_trim a @ 0 # i = js_trim b @ 0 # j"
      using utf8_inj [OF wf [OF ns(1) assms(3)] wf [OF ns(2) assms(4)]] by (simp add: seed_material_def)
    with zero_prefix zero [OF ns(1) assms(3)] zero [OF ns(2) assms(4)] assms(5) show False by blast
  qed
  then show ?thesis
    using assms(1,2) by (auto simp: derive_mesh_instance_seed_def valid_namespace_def bind_r_eq_Inr Let_def split: if_splits)
qed

theorem instance_seeds_separated_witness:
  "\<exists>x y. derive_mesh_instance_seed sample_crypto (replicate 16 7) (js '' twang'') (js ''slot-0'') = Inr x \<and>
     derive_mesh_instance_seed sample_crypto (replicate 16 7) (js '' twang'') (js ''slot-1'') = Inr y \<and> x \<noteq> y"
proof -
  have w: "wf16 (js ''slot-0'')" "wf16 (js ''slot-1'')" by (simp_all add: js_def is_high_def is_low_def)
  have "derive_mesh_instance_seed sample_crypto (replicate 16 7) (js '' twang'') i =
      Inr (seed_material (replicate 16 7) (js ''twang'') i)" if "i \<noteq> []" "length i \<le> 128" for i
    using that by (simp add: derive_mesh_instance_seed_def sample_namespace assert_r_def sample_crypto_def)
  from this [of "js ''slot-0''"] this [of "js ''slot-1''"] show ?thesis
    using instance_seeds_separated [OF _ _ w, of sample_crypto "replicate 16 7" "js '' twang''" _ "js '' twang''"]
    by (auto simp: sample_crypto_def)
qed

end
