(* ===== verification/Blob_Stream.thy ===== *)
theory Blob_Stream
  imports Mesh_Store Signed_Records
begin

text \<open>
  Blobs as streams of chunks (\<open>packages/mesh-blob/src/stream.ts\<close> and \<open>streamStore.ts\<close>): cutting a source into chunks,
  checking a stream against its descriptor, and publishing and reading the chunks in a mesh store. A source is the items
  it yields and the error it may end with; a generator is the list of what it yields and how it ends. The digests are
  computed by a package outside the sources: SHA-256 is the digest of \<open>mesh_crypto\<close>, and BLAKE3 in hexadecimal is a
  parameter. \<open>JSON.parse\<close> is a parameter too; \<open>None\<close> is its \<open>SyntaxError\<close>.
\<close>

record blob_env = chat_env +
  be_blake3_hex :: "bytes \<Rightarrow> jstring"
  be_json_parse :: "jstring \<Rightarrow> jsval option"

datatype blob_error =
    BlobDescriptorFault chat_error | UnsupportedHash | VerifierFinished | InvalidBlobChunk | BlobTooLong | BlobSizeMismatch
  | BlobDigestMismatch | InvalidSourceChunk | SourceTooLarge | SourceEmpty | InvalidBlobSize | SourceExceedsSize
  | SourceSizeMismatch | InvalidManifest | PublicationConflict | StoredSizeMismatch | ChunkUnavailable | ChunkSizeMismatch
  | SourceMissing | SourceFault nat | NotCurrent nat

definition blob_chunk_bytes :: nat where "blob_chunk_bytes = 256 * 1024"

abbreviation blob_id_of :: "jsval \<Rightarrow> jstring" where
  "blob_id_of descriptor \<equiv> js_text (js_prop descriptor (js ''blobId''))"

abbreviation blob_size_of :: "jsval \<Rightarrow> int" where
  "blob_size_of descriptor \<equiv> js_int (js_prop descriptor (js ''size''))"

definition blob_descriptor_r :: "jsval \<Rightarrow> blob_error + jsval" where
  "blob_descriptor_r v = (case validate_blob_descriptor v of Inl e \<Rightarrow> Inl (BlobDescriptorFault e) | Inr d \<Rightarrow> Inr d)"

section \<open>Verifying a stream\<close>

record blob_verifier =
  bv_descriptor :: jsval
  bv_data :: bytes
  bv_finished :: bool

definition create_blob_stream_verifier :: "jsval \<Rightarrow> blob_error + blob_verifier" where
  "create_blob_stream_verifier descriptor =
     bind_r (blob_descriptor_r descriptor) (\<lambda>captured.
     if starts_with (js ''sha256:'') (blob_id_of captured) \<or> starts_with (js ''blake3:'') (blob_id_of captured)
     then Inr \<lparr> bv_descriptor = captured, bv_data = [], bv_finished = False \<rparr>
     else Inl UnsupportedHash)"

definition verifier_update :: "jsval \<Rightarrow> blob_verifier \<Rightarrow> blob_error + blob_verifier" where
  "verifier_update v b =
     (if bv_finished b then Inl VerifierFinished
      else
        (case v of
           JBytes bs \<Rightarrow>
             if length bs < 1 \<or> blob_chunk_bytes < length bs then Inl InvalidBlobChunk
             else if blob_size_of (bv_descriptor b) < int (length (bv_data b) + length bs) \<or>
               max_blob_bytes < int (length (bv_data b) + length bs) then Inl BlobTooLong
             else Inr (b\<lparr> bv_data := bv_data b @ bs \<rparr>)
         | _ \<Rightarrow> Inl InvalidBlobChunk))"

text \<open>The id that the bytes have under the algorithm of an id, and the id it is compared with.\<close>

definition actual_blob_id :: "'m blob_env_scheme \<Rightarrow> jstring \<Rightarrow> bytes \<Rightarrow> jstring" where
  "actual_blob_id env blob_id bs =
     (if starts_with (js ''sha256:'') blob_id then js ''sha256:'' @ to_base64url (cr_sha256 env bs)
      else js ''blake3:'' @ be_blake3_hex env bs)"

definition expected_blob_id :: "jstring \<Rightarrow> jstring" where
  "expected_blob_id blob_id = (if starts_with (js ''blake3:'') blob_id then map lower_unit blob_id else blob_id)"

definition verifier_finish :: "'m blob_env_scheme \<Rightarrow> blob_verifier \<Rightarrow> (blob_error + unit) \<times> blob_verifier" where
  "verifier_finish env b =
     (if bv_finished b then (Inl VerifierFinished, b)
      else
        (let blob_id = blob_id_of (bv_descriptor b) in
         if int (length (bv_data b)) \<noteq> blob_size_of (bv_descriptor b) then Inl BlobSizeMismatch
         else if actual_blob_id env blob_id (bv_data b) \<noteq> expected_blob_id blob_id then Inl BlobDigestMismatch
         else Inr (),
         b\<lparr> bv_finished := True \<rparr>))"

section \<open>Chunks\<close>

record blob_source =
  src_items :: "jsval list"
  src_fault :: "blob_error option"

text \<open>The inner loop: the buffer is never full at its head, so every round takes at least one byte.\<close>

function fill_buffer :: "bytes \<Rightarrow> bytes \<Rightarrow> bytes list \<times> bytes" where
  "fill_buffer buffer input =
     (let n = min (blob_chunk_bytes - length buffer) (length input); filled = buffer @ take n input; rest = drop n input in
      if n = 0 then ([], buffer)
      else if length filled = blob_chunk_bytes then
        (case fill_buffer [] rest of (full, left) \<Rightarrow> (filled # full, left))
      else fill_buffer filled rest)"
  by pat_completeness auto
termination by (relation "measure (\<lambda>(buffer, input). length input)") auto

declare fill_buffer.simps [simp del]

fun chunk_items :: "nat \<Rightarrow> bytes \<Rightarrow> jsval list \<Rightarrow> blob_error option \<Rightarrow> bytes list \<times> blob_error option" where
  "chunk_items seen buffer [] fault =
     (case fault of
        Some e \<Rightarrow> ([], Some e)
      | None \<Rightarrow> if seen = 0 then ([], Some SourceEmpty) else (if buffer = [] then [] else [buffer], None))"
| "chunk_items seen buffer (item # items) fault =
     (case item of
        JBytes bs \<Rightarrow>
          if length bs < 1 \<or> blob_chunk_bytes < length bs then ([], Some InvalidSourceChunk)
          else if max_blob_bytes < int (seen + length bs) then ([], Some SourceTooLarge)
          else
            (case fill_buffer buffer bs of (full, left) \<Rightarrow>
             case chunk_items (seen + length bs) left items fault of (chunks, ending) \<Rightarrow> (full @ chunks, ending))
      | _ \<Rightarrow> ([], Some InvalidSourceChunk))"

definition chunk_blob_source :: "blob_source \<Rightarrow> bytes list \<times> blob_error option" where
  "chunk_blob_source source = chunk_items 0 [] (src_items source) (src_fault source)"

fun hash_chunks :: "int \<Rightarrow> bytes \<Rightarrow> bytes list \<Rightarrow> blob_error option \<Rightarrow> blob_error + bytes" where
  "hash_chunks size_limit hashed [] ending = (case ending of Some e \<Rightarrow> Inl e | None \<Rightarrow> Inr hashed)"
| "hash_chunks size_limit hashed (chunk # chunks) ending =
     (if size_limit < int (length hashed + length chunk) then Inl SourceExceedsSize
      else hash_chunks size_limit (hashed @ chunk) chunks ending)"

definition create_blob_stream_descriptor ::
  "'m blob_env_scheme \<Rightarrow> blob_source \<Rightarrow> jsval \<Rightarrow> jsval \<Rightarrow> jsval \<Rightarrow> blob_error + jsval" where
  "create_blob_stream_descriptor env source blob_size name media_type =
     (if \<not> js_safe blob_size \<or> js_int blob_size < 1 \<or> max_blob_bytes < js_int blob_size then Inl InvalidBlobSize
      else
        (case chunk_blob_source source of (chunks, ending) \<Rightarrow>
         bind_r (hash_chunks (js_int blob_size) [] chunks ending) (\<lambda>hashed.
         if int (length hashed) \<noteq> js_int blob_size then Inl SourceSizeMismatch
         else
           (case create_blob_descriptor_from_id (js ''sha256:'' @ to_base64url (cr_sha256 env hashed)) (js_int blob_size) name media_type of
              Inl e \<Rightarrow> Inl (BlobDescriptorFault e)
            | Inr d \<Rightarrow> Inr d))))"

section \<open>Publishing\<close>

record stream_manifest =
  bm_blob :: jstring
  bm_size :: int
  bm_transfer :: jstring
  bm_chunks :: nat

definition manifest_json :: "stream_manifest \<Rightarrow> jsval" where
  "manifest_json m =
     JObj [(js ''kind'', JStr (js ''mesh-blob-stream'')), (js ''version'', JNum 1), (js ''blobId'', JStr (bm_blob m)),
       (js ''size'', JNum (bm_size m)), (js ''transferId'', JStr (bm_transfer m)), (js ''chunks'', JNum (int (bm_chunks m)))]"

definition manifest_text :: "'m blob_env_scheme \<Rightarrow> stream_manifest \<Rightarrow> jstring" where
  "manifest_text env m = text_of (stringify (cr_number env) (manifest_json m))"

definition manifest_key :: "jstring \<Rightarrow> jstring" where
  "manifest_key blob_id = js ''mesh-blob-stream-v1:'' @ blob_id"

definition chunk_key :: "stream_manifest \<Rightarrow> nat \<Rightarrow> jstring" where
  "chunk_key m i = js ''mesh-blob-chunk-v1:'' @ bm_blob m @ [0x3A] @ bm_transfer m @ [0x3A] @ dec_nat i"

definition is_transfer_id :: "jsval \<Rightarrow> bool" where
  "is_transfer_id v = (case v of JStr s \<Rightarrow> s \<noteq> [] \<and> length s \<le> 64 \<and> list_all url_unit s | _ \<Rightarrow> False)"

definition manifest_ok :: "jsval \<Rightarrow> jstring \<Rightarrow> bool" where
  "manifest_ok v blob_id \<longleftrightarrow>
     js_prop v (js ''kind'') = JStr (js ''mesh-blob-stream'') \<and> js_prop v (js ''version'') = JNum 1 \<and>
     js_prop v (js ''blobId'') = JStr blob_id \<and> js_safe (js_prop v (js ''size'')) \<and> 1 \<le> js_int (js_prop v (js ''size'')) \<and>
     js_int (js_prop v (js ''size'')) \<le> max_blob_bytes \<and>
     js_prop v (js ''chunks'') = JNum ((js_int (js_prop v (js ''size'')) + int blob_chunk_bytes - 1) div int blob_chunk_bytes) \<and>
     is_transfer_id (js_prop v (js ''transferId''))"

definition read_manifest :: "'m blob_env_scheme \<Rightarrow> jsval \<Rightarrow> jstring \<Rightarrow> blob_error + stream_manifest" where
  "read_manifest env v blob_id =
     (case v of
        JStr t \<Rightarrow>
          if 1024 < length t then Inl InvalidManifest
          else
            (case be_json_parse env t of
               Some (JObj ps) \<Rightarrow>
                 if length ps \<noteq> 6 \<or> \<not> manifest_ok (JObj ps) blob_id then Inl InvalidManifest
                 else Inr \<lparr> bm_blob = blob_id, bm_size = js_int (js_prop (JObj ps) (js ''size'')),
                   bm_transfer = js_text (js_prop (JObj ps) (js ''transferId'')),
                   bm_chunks = nat (js_int (js_prop (JObj ps) (js ''chunks''))) \<rparr>
             | _ \<Rightarrow> Inl InvalidManifest)
      | _ \<Rightarrow> Inl InvalidManifest)"

text \<open>The state of an upload. The guard \<open>ensureCurrent\<close> is the function from the number of earlier calls to the error it
  throws at the next one.\<close>

record 's upload =
  up_store :: 's
  up_calls :: nat
  up_verifier :: blob_verifier
  up_staged :: "jstring list"
  up_manifest :: stream_manifest

type_synonym ('s, 'a) upload_action = "('s upload, blob_error store_error, 'a) action"

definition ensure_current :: "(nat \<Rightarrow> blob_error option) \<Rightarrow> ('s, unit) upload_action" where
  "ensure_current cur u =
     (case cur (up_calls u) of Some e \<Rightarrow> Inl (Raised e) | None \<Rightarrow> Inr (), u\<lparr> up_calls := up_calls u + 1 \<rparr>)"

definition upload_verify :: "bytes \<Rightarrow> ('s, unit) upload_action" where
  "upload_verify part u =
     (case verifier_update (JBytes part) (up_verifier u) of
        Inl e \<Rightarrow> (Inl (Raised e), u) | Inr v \<Rightarrow> (Inr (), u\<lparr> up_verifier := v \<rparr>))"

definition upload_put :: "('s, jsval, blob_error, 'r) mesh_store_ops \<Rightarrow> jstring \<Rightarrow> bytes \<Rightarrow> ('s, unit) upload_action" where
  "upload_put ops name part u =
     (let key = chunk_key (up_manifest u) (bm_chunks (up_manifest u)) in
      case ms_put ops (up_store u) name key (JBytes part) of
        (r, s) \<Rightarrow> (r, u\<lparr> up_store := s, up_staged := up_staged u @ [key] \<rparr>))"

definition upload_count :: "('s, unit) upload_action" where
  "upload_count u = (Inr (), u\<lparr> up_manifest := (up_manifest u)\<lparr> bm_chunks := bm_chunks (up_manifest u) + 1 \<rparr> \<rparr>)"

fun put_parts :: "('s, jsval, blob_error, 'r) mesh_store_ops \<Rightarrow> jstring \<Rightarrow> (nat \<Rightarrow> blob_error option) \<Rightarrow> bytes list \<Rightarrow>
    blob_error option \<Rightarrow> ('s, unit) upload_action" where
  "put_parts ops name cur [] ending = (case ending of Some e \<Rightarrow> throw (Raised e) | None \<Rightarrow> ret ())"
| "put_parts ops name cur (part # parts) ending =
     bind_s (ensure_current cur) (\<lambda>_.
     bind_s (upload_verify part) (\<lambda>_.
     bind_s (upload_put ops name part) (\<lambda>_.
     bind_s (ensure_current cur) (\<lambda>_.
     bind_s upload_count (\<lambda>_.
     put_parts ops name cur parts ending)))))"

definition upload_finish :: "'m blob_env_scheme \<Rightarrow> ('s, unit) upload_action" where
  "upload_finish env u =
     (case verifier_finish env (up_verifier u) of
        (Inl e, v) \<Rightarrow> (Inl (Raised e), u\<lparr> up_verifier := v \<rparr>) | (Inr x, v) \<Rightarrow> (Inr x, u\<lparr> up_verifier := v \<rparr>))"

definition upload_publish ::
  "('s, jsval, blob_error, 'r) mesh_store_ops \<Rightarrow> 'm blob_env_scheme \<Rightarrow> jstring \<Rightarrow> (nat \<Rightarrow> blob_error option) \<Rightarrow> jstring \<Rightarrow>
     jstring option \<Rightarrow> ('s, unit) upload_action" where
  "upload_publish ops env name cur key previous u =
     (case ms_cas ops (up_store u) [\<lparr> cond_store = name, cond_key = key, cond_expected = previous \<rparr>]
         [PutOp name key (JStr (manifest_text env (up_manifest u)))] (cur (up_calls u)) of
        (Inl e, s) \<Rightarrow> (Inl e, u\<lparr> up_store := s, up_calls := up_calls u + 1 \<rparr>)
      | (Inr ok, s) \<Rightarrow> (if ok then Inr () else Inl (Raised PublicationConflict), u\<lparr> up_store := s, up_calls := up_calls u + 1 \<rparr>))"

definition upload_body ::
  "('s, jsval, blob_error, 'r) mesh_store_ops \<Rightarrow> 'm blob_env_scheme \<Rightarrow> jstring \<Rightarrow> (nat \<Rightarrow> blob_error option) \<Rightarrow> jstring \<Rightarrow>
     jstring option \<Rightarrow> blob_source \<Rightarrow> ('s, unit) upload_action" where
  "upload_body ops env name cur key previous source =
     (case chunk_blob_source source of (parts, ending) \<Rightarrow>
      bind_s (put_parts ops name cur parts ending) (\<lambda>_.
      bind_s (upload_finish env) (\<lambda>_.
      bind_s (ensure_current cur) (\<lambda>_.
      bind_s (upload_publish ops env name cur key previous) (\<lambda>_.
      ensure_current cur)))))"

fun delete_staged :: "('s, jsval, blob_error, 'r) mesh_store_ops \<Rightarrow> jstring \<Rightarrow> jstring list \<Rightarrow> 's \<Rightarrow> 's" where
  "delete_staged ops name [] s = s"
| "delete_staged ops name (key # keys) s =
     (case ms_delete ops s name key of (Inl e, s') \<Rightarrow> s' | (Inr x, s') \<Rightarrow> delete_staged ops name keys s')"

definition discard_unpublished ::
  "('s, jsval, blob_error, 'r) mesh_store_ops \<Rightarrow> jstring \<Rightarrow> jstring \<Rightarrow> jstring \<Rightarrow> jstring list \<Rightarrow> 's \<Rightarrow> 's" where
  "discard_unpublished ops name key text staged s =
     (case ms_get ops s name key of
        (Inl e, s') \<Rightarrow> s'
      | (Inr v, s') \<Rightarrow> if v = Some (JStr text) then s' else delete_staged ops name staged s')"

text \<open>The stored manifest before the upload: a string when it is there, as \<open>readManifest\<close> checked.\<close>

definition previous_manifest :: "'m blob_env_scheme \<Rightarrow> jstring \<Rightarrow> jsval option \<Rightarrow> blob_error + jstring option" where
  "previous_manifest env blob_id previous =
     (case previous of
        None \<Rightarrow> Inr None
      | Some v \<Rightarrow> bind_r (read_manifest env v blob_id) (\<lambda>_. Inr (Some (js_text v))))"

definition put_blob_stream ::
  "('s, jsval, blob_error, 'r) mesh_store_ops \<Rightarrow> 'm blob_env_scheme \<Rightarrow> jstring \<Rightarrow> jsval \<Rightarrow> blob_source \<Rightarrow> (nat \<Rightarrow> blob_error option) \<Rightarrow>
     jstring \<Rightarrow> 's \<Rightarrow> ('s, blob_error, unit) settled" where
  "put_blob_stream ops env name descriptor_input source cur transfer s =
     (case bind_r (blob_descriptor_r descriptor_input) (\<lambda>d. bind_r (create_blob_stream_verifier d) (\<lambda>v. Inr (d, v))) of
        Inl e \<Rightarrow> (Inl (Raised e), s)
      | Inr (d, v) \<Rightarrow>
          (case cur 0 of
             Some e \<Rightarrow> (Inl (Raised e), s)
           | None \<Rightarrow>
               let key = manifest_key (blob_id_of d) in
               (case ms_get ops s name key of
                  (Inl e, s1) \<Rightarrow> (Inl e, s1)
                | (Inr stored, s1) \<Rightarrow>
                    (case previous_manifest env (blob_id_of d) stored of
                       Inl e \<Rightarrow> (Inl (Raised e), s1)
                     | Inr previous \<Rightarrow>
                         (case upload_body ops env name cur key previous source
                             \<lparr> up_store = s1, up_calls = 1, up_verifier = v, up_staged = [],
                               up_manifest = \<lparr> bm_blob = blob_id_of d, bm_size = blob_size_of d, bm_transfer = transfer, bm_chunks = 0 \<rparr> \<rparr> of
                            (Inr x, u) \<Rightarrow> (Inr x, up_store u)
                          | (Inl e, u) \<Rightarrow>
                              (Inl e, discard_unpublished ops name key (manifest_text env (up_manifest u)) (up_staged u) (up_store u)))))))"

section \<open>Reading\<close>

datatype stored_source = LegacyBytes bytes | StoredChunks stream_manifest

definition read_blob_stream ::
  "('s, jsval, blob_error, 'r) mesh_store_ops \<Rightarrow> 'm blob_env_scheme \<Rightarrow> jstring \<Rightarrow> jsval \<Rightarrow> 's \<Rightarrow>
     ('s, blob_error, stored_source option) settled" where
  "read_blob_stream ops env name descriptor_input s =
     (case blob_descriptor_r descriptor_input of
        Inl e \<Rightarrow> (Inl (Raised e), s)
      | Inr d \<Rightarrow>
          (case ms_get ops s name (manifest_key (blob_id_of d)) of
             (Inl e, s1) \<Rightarrow> (Inl e, s1)
           | (Inr None, s1) \<Rightarrow>
               (case ms_get ops s1 name (blob_id_of d) of
                  (Inl e, s2) \<Rightarrow> (Inl e, s2)
                | (Inr None, s2) \<Rightarrow> (Inr None, s2)
                | (Inr (Some legacy), s2) \<Rightarrow>
                    (case legacy of
                       JBytes bs \<Rightarrow>
                         if int (length bs) \<noteq> blob_size_of d then (Inl (Raised StoredSizeMismatch), s2)
                         else (Inr (Some (LegacyBytes bs)), s2)
                     | _ \<Rightarrow> (Inl (Raised StoredSizeMismatch), s2)))
           | (Inr (Some raw), s1) \<Rightarrow>
               (case read_manifest env raw (blob_id_of d) of
                  Inl e \<Rightarrow> (Inl (Raised e), s1)
                | Inr m \<Rightarrow>
                    if bm_size m \<noteq> blob_size_of d then (Inl (Raised StoredSizeMismatch), s1)
                    else (Inr (Some (StoredChunks m)), s1))))"

definition stored_part ::
  "('s, jsval, blob_error, 'r) mesh_store_ops \<Rightarrow> jstring \<Rightarrow> stream_manifest \<Rightarrow> nat \<Rightarrow> 's \<Rightarrow> ('s, blob_error, bytes) settled" where
  "stored_part ops name m i s =
     (case ms_get ops s name (chunk_key m i) of
        (Inl e, s') \<Rightarrow> (Inl e, s')
      | (Inr v, s') \<Rightarrow>
          (case v of
             Some (JBytes part) \<Rightarrow>
               if int (length part) \<noteq> min (int blob_chunk_bytes) (bm_size m - int i * int blob_chunk_bytes)
               then (Inl (Raised ChunkSizeMismatch), s') else (Inr part, s')
           | _ \<Rightarrow> (Inl (Raised ChunkUnavailable), s')))"

text \<open>\<open>verifyParts\<close> over the stored chunks, and over a legacy record: what is yielded, how the iteration ends, and the
  store afterwards.\<close>

definition end_parts :: "'m blob_env_scheme \<Rightarrow> blob_verifier \<Rightarrow> blob_error store_error option" where
  "end_parts env v = (case fst (verifier_finish env v) of Inl e \<Rightarrow> Some (Raised e) | Inr _ \<Rightarrow> None)"

fun verify_stored :: "('s, jsval, blob_error, 'r) mesh_store_ops \<Rightarrow> 'm blob_env_scheme \<Rightarrow> jstring \<Rightarrow> stream_manifest \<Rightarrow> nat list \<Rightarrow>
    blob_verifier \<Rightarrow> 's \<Rightarrow> (bytes list \<times> blob_error store_error option) \<times> 's" where
  "verify_stored ops env name m [] v s = (([], end_parts env v), s)"
| "verify_stored ops env name m (i # is) v s =
     (case stored_part ops name m i s of
        (Inl e, s') \<Rightarrow> (([], Some e), s')
      | (Inr part, s') \<Rightarrow>
          (case verifier_update (JBytes part) v of
             Inl e \<Rightarrow> (([], Some (Raised e)), s')
           | Inr v' \<Rightarrow> (case verify_stored ops env name m is v' s' of ((parts, ending), s'') \<Rightarrow> ((part # parts, ending), s''))))"

fun verify_slices :: "'m blob_env_scheme \<Rightarrow> bytes list \<Rightarrow> blob_verifier \<Rightarrow> bytes list \<times> blob_error store_error option" where
  "verify_slices env [] v = ([], end_parts env v)"
| "verify_slices env (part # parts) v =
     (case verifier_update (JBytes part) v of
        Inl e \<Rightarrow> ([], Some (Raised e))
      | Inr v' \<Rightarrow> (case verify_slices env parts v' of (rest, ending) \<Rightarrow> (part # rest, ending)))"

definition legacy_slices :: "bytes \<Rightarrow> bytes list" where
  "legacy_slices bs = map (\<lambda>i. take blob_chunk_bytes (drop (i * blob_chunk_bytes) bs)) [0..<(length bs + blob_chunk_bytes - 1) div blob_chunk_bytes]"

definition verify_parts ::
  "('s, jsval, blob_error, 'r) mesh_store_ops \<Rightarrow> 'm blob_env_scheme \<Rightarrow> jstring \<Rightarrow> jsval \<Rightarrow> stored_source \<Rightarrow> 's \<Rightarrow>
     (bytes list \<times> blob_error store_error option) \<times> 's" where
  "verify_parts ops env name descriptor source s =
     (case create_blob_stream_verifier descriptor of
        Inl e \<Rightarrow> (([], Some (Raised e)), s)
      | Inr v \<Rightarrow>
          (case source of
             StoredChunks m \<Rightarrow> verify_stored ops env name m [0..<bm_chunks m] v s
           | LegacyBytes bs \<Rightarrow> (verify_slices env (legacy_slices bs) v, s)))"

definition stored_descriptor :: "jstring \<Rightarrow> int \<Rightarrow> jsval" where
  "stored_descriptor blob_id n =
     JObj [(js ''kind'', JStr (js ''blob'')), (js ''version'', JNum 1), (js ''blobId'', JStr blob_id), (js ''size'', JNum n),
       (js ''name'', JStr (js ''blob'')), (js ''mediaType'', JStr (js ''application/octet-stream''))]"

text \<open>The manifest was there when the source is opened, so the source is there too unless another tab removed it, which
  the iteration over \<open>undefined\<close> reports as an error.\<close>

definition collect_stored_blob ::
  "('s, jsval, blob_error, 'r) mesh_store_ops \<Rightarrow> 'm blob_env_scheme \<Rightarrow> jstring \<Rightarrow> jstring \<Rightarrow> 's \<Rightarrow> ('s, blob_error, bytes option) settled" where
  "collect_stored_blob ops env name blob_id s =
     (case ms_get ops s name (manifest_key blob_id) of
        (Inl e, s1) \<Rightarrow> (Inl e, s1)
      | (Inr None, s1) \<Rightarrow> (Inr None, s1)
      | (Inr (Some raw), s1) \<Rightarrow>
          (case read_manifest env raw blob_id of
             Inl e \<Rightarrow> (Inl (Raised e), s1)
           | Inr m \<Rightarrow>
               (case read_blob_stream ops env name (stored_descriptor blob_id (bm_size m)) s1 of
                  (Inl e, s2) \<Rightarrow> (Inl e, s2)
                | (Inr None, s2) \<Rightarrow> (Inl (Raised SourceMissing), s2)
                | (Inr (Some source), s2) \<Rightarrow>
                    (case verify_parts ops env name (stored_descriptor blob_id (bm_size m)) source s2 of
                       ((parts, None), s3) \<Rightarrow> (Inr (Some (concat parts)), s3)
                     | ((parts, Some e), s3) \<Rightarrow> (Inl e, s3)))))"

end
