(* ===== verification/Blob_Properties.thy ===== *)
theory Blob_Properties
  imports Blob_Stream Json_Size Authority_Examples
begin

text \<open>
  Properties of blob streams: a stream that is read to its end has the size and digest of its descriptor, whatever the
  store holds; and what was published comes back, on every store that keeps the contract of \<open>mesh_store\<close>.
\<close>

section \<open>Verified streams\<close>

lemma verifier_update_Inr:
  "verifier_update (JBytes p) v = Inr v' \<longleftrightarrow>
     \<not> bv_finished v \<and> p \<noteq> [] \<and> length p \<le> blob_chunk_bytes \<and>
     int (length (bv_data v) + length p) \<le> blob_size_of (bv_descriptor v) \<and> int (length (bv_data v) + length p) \<le> max_blob_bytes \<and>
     v' = v\<lparr> bv_data := bv_data v @ p \<rparr>"
  by (auto simp: verifier_update_def)

lemma end_parts_None:
  "end_parts env v = None \<longleftrightarrow>
     \<not> bv_finished v \<and> int (length (bv_data v)) = blob_size_of (bv_descriptor v) \<and>
     actual_blob_id env (blob_id_of (bv_descriptor v)) (bv_data v) = expected_blob_id (blob_id_of (bv_descriptor v))"
  by (auto simp: end_parts_def verifier_finish_def Let_def)

lemma verify_stored_end:
  "verify_stored ops env name m is v s = ((parts, None), s') \<Longrightarrow> end_parts env (v\<lparr> bv_data := bv_data v @ concat parts \<rparr>) = None"
  by (induction "is" arbitrary: v s parts) (fastforce simp: verifier_update_Inr split: prod.splits sum.splits)+

lemma verify_slices_end:
  "verify_slices env ps v = (parts, None) \<Longrightarrow> end_parts env (v\<lparr> bv_data := bv_data v @ concat parts \<rparr>) = None"
  by (induction ps arbitrary: v parts) (fastforce simp: verifier_update_Inr split: prod.splits sum.splits)+

lemma validated_descriptor: "validate_blob_descriptor v = Inr d \<Longrightarrow> d = v"
  by (auto simp: validate_blob_descriptor_def bind_r_eq_Inr)

lemma blob_descriptor_Inr: "blob_descriptor_r v = Inr d \<longleftrightarrow> d = v \<and> validate_blob_descriptor v = Inr v"
  using validated_descriptor by (auto simp: blob_descriptor_r_def split: sum.splits)

lemma create_verifier_Inr:
  "create_blob_stream_verifier d = Inr v \<Longrightarrow> v = \<lparr> bv_descriptor = d, bv_data = [], bv_finished = False \<rparr>"
  by (auto simp: create_blob_stream_verifier_def bind_r_eq_Inr blob_descriptor_Inr split: if_splits)

text \<open>
  C39. Reading is authenticated: a stream that \<open>readBlobStream\<close> hands out and that is iterated to its end without an error
  has exactly the size of its descriptor and the digest of its id, whatever the store returned for the manifest and the
  chunks.
\<close>

theorem blob_read_authentic:
  assumes "verify_parts ops env name d source s = ((parts, None), s')"
  shows "int (length (concat parts)) = blob_size_of d \<and>
    actual_blob_id env (blob_id_of d) (concat parts) = expected_blob_id (blob_id_of d)"
proof -
  obtain v where v: "create_blob_stream_verifier d = Inr v"
    using assms by (auto simp: verify_parts_def split: sum.splits)
  have "end_parts env (v\<lparr> bv_data := bv_data v @ concat parts \<rparr>) = None"
    using assms v verify_stored_end verify_slices_end by (fastforce simp: verify_parts_def split: stored_source.splits)
  then show ?thesis using create_verifier_Inr [OF v] by (simp add: end_parts_None)
qed

section \<open>Chunks\<close>

lemma chunk_positive: "0 < blob_chunk_bytes"
  by (simp add: blob_chunk_bytes_def)

lemma fill_buffer_law:
  assumes "length buffer < blob_chunk_bytes" "fill_buffer buffer input = (full, left)"
  shows "concat full @ left = buffer @ input \<and> (\<forall>c \<in> set full. length c = blob_chunk_bytes) \<and> length left < blob_chunk_bytes"
  using assms
proof (induction buffer input arbitrary: full left rule: fill_buffer.induct)
  case (1 buffer input)
  define n where "n = min (blob_chunk_bytes - length buffer) (length input)"
  note eq = "1.prems"(2) [unfolded fill_buffer.simps [of buffer] Let_def, folded n_def]
  show ?case
  proof (cases "n = 0")
    case True
    then have "input = []" using "1.prems"(1) by (simp add: n_def min_def split: if_splits)
    then show ?thesis using eq True "1.prems"(1) by simp
  next
    case False
    show ?thesis
    proof (cases "length (buffer @ take n input) = blob_chunk_bytes")
      case True
      obtain fs l where f: "fill_buffer [] (drop n input) = (fs, l)" by fastforce
      from "1.IH"(1) [OF n_def refl refl False True _ f] have
        "concat fs @ l = drop n input \<and> (\<forall>c \<in> set fs. length c = blob_chunk_bytes) \<and> length l < blob_chunk_bytes"
        using chunk_positive by simp
      moreover have "full = (buffer @ take n input) # fs" "left = l" using eq False True f by auto
      ultimately show ?thesis using True by simp
    next
      case less: False
      have short: "length (buffer @ take n input) < blob_chunk_bytes" using less "1.prems"(1) by (auto simp: n_def min_def split: if_splits)
      have "fill_buffer (buffer @ take n input) (drop n input) = (full, left)" using eq False less by simp
      from "1.IH"(2) [OF n_def refl refl False less short this] show ?thesis by simp
    qed
  qed
qed

text \<open>A list of full chunks with a shorter last one.\<close>

definition chunked :: "bytes list \<Rightarrow> bool" where
  "chunked cs \<longleftrightarrow> (\<exists>full rest. cs = full @ rest \<and> (\<forall>c \<in> set full. length c = blob_chunk_bytes) \<and>
     (rest = [] \<or> (\<exists>c. rest = [c] \<and> 0 < length c \<and> length c < blob_chunk_bytes)))"

lemma chunked_append: "\<forall>c \<in> set full. length c = blob_chunk_bytes \<Longrightarrow> chunked cs \<Longrightarrow> chunked (full @ cs)"
proof -
  assume f: "\<forall>c \<in> set full. length c = blob_chunk_bytes" and "chunked cs"
  then obtain fs rest where "cs = fs @ rest" "\<forall>c \<in> set fs. length c = blob_chunk_bytes"
    "rest = [] \<or> (\<exists>c. rest = [c] \<and> 0 < length c \<and> length c < blob_chunk_bytes)" by (auto simp: chunked_def)
  with f show ?thesis unfolding chunked_def by (intro exI [of _ "full @ fs"] exI [of _ rest]) auto
qed

lemma chunk_items_law:
  assumes "length buffer < blob_chunk_bytes" "chunk_items seen buffer items fault = (cs, None)"
  shows "\<exists>bss. items = map JBytes bss \<and> concat cs = buffer @ concat bss \<and> chunked cs"
  using assms
proof (induction items arbitrary: seen buffer cs)
  case Nil
  then have "cs = (if buffer = [] then [] else [buffer])" by (auto split: option.splits if_splits)
  moreover have "chunked (if buffer = [] then [] else [buffer])"
    unfolding chunked_def by (rule exI [of _ "[]"]) (use Nil.prems(1) in auto)
  ultimately show ?case by auto
next
  case (Cons item items)
  from Cons.prems(2) obtain bs where item: "item = JBytes bs"
    by (cases item) (auto split: if_splits)
  obtain full left where f: "fill_buffer buffer bs = (full, left)" by fastforce
  obtain ds e where d: "chunk_items (seen + length bs) left items fault = (ds, e)" by fastforce
  with Cons.prems(2) item f have cs: "cs = full @ ds" "e = None" by (auto split: if_splits)
  note fl = fill_buffer_law [OF Cons.prems(1) f]
  from Cons.IH [of left "seen + length bs" ds] d cs fl obtain bss where
    "items = map JBytes bss" "concat ds = left @ concat bss" "chunked ds" by auto
  with item cs fl show ?case by (intro exI [of _ "bs # bss"]) (auto intro: chunked_append)
qed

lemma ceil_div:
  "0 < c \<Longrightarrow> (n * c + c - 1) div c = (n :: nat)"
  "0 < x \<Longrightarrow> x < c \<Longrightarrow> (n * c + x + c - 1) div c = Suc n"
proof -
  show "0 < c \<Longrightarrow> (n * c + c - 1) div c = n" by (rule div_nat_eqI) (simp_all add: algebra_simps)
  show "0 < x \<Longrightarrow> x < c \<Longrightarrow> (n * c + x + c - 1) div c = Suc n" by (rule div_nat_eqI) (simp_all add: algebra_simps)
qed

lemma chunked_length:
  assumes "chunked cs"
  shows "length cs = (length (concat cs) + blob_chunk_bytes - 1) div blob_chunk_bytes"
    "i < length cs \<Longrightarrow> length (cs ! i) = min blob_chunk_bytes (length (concat cs) - i * blob_chunk_bytes)"
proof -
  obtain full rest where cs: "cs = full @ rest" "\<forall>c \<in> set full. length c = blob_chunk_bytes"
    and rest: "rest = [] \<or> (\<exists>c. rest = [c] \<and> 0 < length c \<and> length c < blob_chunk_bytes)" using assms by (auto simp: chunked_def)
  have full: "length (concat full) = length full * blob_chunk_bytes"
    using cs(2) by (induction full arbitrary: cs) (auto simp: add.commute)
  from rest show "length cs = (length (concat cs) + blob_chunk_bytes - 1) div blob_chunk_bytes"
  proof
    assume "rest = []"
    then show ?thesis using cs full ceil_div(1) [OF chunk_positive] by simp
  next
    assume "\<exists>c. rest = [c] \<and> 0 < length c \<and> length c < blob_chunk_bytes"
    then obtain c where "rest = [c]" "0 < length c" "length c < blob_chunk_bytes" by blast
    then show ?thesis using cs full ceil_div(2) [of "length c" blob_chunk_bytes] by simp
  qed
  show "length (cs ! i) = min blob_chunk_bytes (length (concat cs) - i * blob_chunk_bytes)" if i: "i < length cs"
  proof (cases "i < length full")
    case True
    then have "i * blob_chunk_bytes + blob_chunk_bytes \<le> length full * blob_chunk_bytes"
      by (metis Suc_leI mult_le_mono1 mult_Suc add.commute)
    then show ?thesis using True cs full by (simp add: nth_append)
  next
    case False
    with i rest cs(1) obtain c where "rest = [c]" "length c < blob_chunk_bytes" "i = length full" by auto
    then show ?thesis using cs full by (simp add: nth_append)
  qed
qed

lemma chunked_below:
  assumes "chunked cs" "i < length cs"
  shows "i * blob_chunk_bytes < length (concat cs)"
proof -
  have "i < (length (concat cs) + blob_chunk_bytes - 1) div blob_chunk_bytes" using assms chunked_length(1) by simp
  then have "(i + 1) * blob_chunk_bytes \<le> length (concat cs) + blob_chunk_bytes - 1"
    using chunk_positive by (simp add: less_eq_div_iff_mult_less_eq Suc_le_eq [symmetric])
  then show ?thesis using chunk_positive by simp
qed

section \<open>Manifests\<close>

lemma plain_unit: "url_unit c \<or> c = 0x3A \<Longrightarrow> quote_unit c = [c] \<and> \<not> is_high c"
proof -
  assume "url_unit c \<or> c = 0x3A"
  then have r: "45 \<le> unat c" "unat c \<le> 122" "c \<noteq> 0x5C"
    by (auto simp: url_unit_def word_unit_def ascii_between_def word_le_nat_alt)
  have "c \<noteq> 0x08" "c \<noteq> 0x09" "c \<noteq> 0x0A" "c \<noteq> 0x0C" "c \<noteq> 0x0D" "c \<noteq> 0x22" using r(1) by auto
  moreover have "\<not> c < 0x20" "\<not> is_high c" "\<not> is_low c" using r(1,2) by (simp_all add: is_high_def is_low_def word_le_nat_alt word_less_nat_alt)
  ultimately show ?thesis using r(3) by (simp add: quote_unit_def)
qed

lemma plain_quote: "\<forall>c \<in> set s. url_unit c \<or> c = 0x3A \<Longrightarrow> quote_units s = s"
proof (induction s rule: quote_units.induct)
  case (3 c d s)
  then have "url_unit c \<or> c = 0x3A" by simp
  with 3 plain_unit show ?case by simp
qed (auto simp: plain_unit)

lemma dec_nat_length: "n < 10 ^ Suc k \<Longrightarrow> length (dec_nat n) \<le> Suc k"
proof (induction k arbitrary: n)
  case 0
  then show ?case by (subst dec_nat.simps) simp
next
  case (Suc k)
  show ?case
  proof (cases "n < 10")
    case True
    then show ?thesis by (subst dec_nat.simps) simp
  next
    case False
    have "n div 10 < 10 ^ Suc k" using Suc.prems by (simp add: less_mult_imp_div_less)
    from Suc.IH [OF this] False show ?thesis by (subst dec_nat.simps) simp
  qed
qed

lemma blob_id_plain:
  assumes "is_valid_blob_id (JStr s)"
  shows "\<forall>c \<in> set s. url_unit c \<or> c = 0x3A" "length s \<le> 71"
proof -
  have hex: "hex_unit c \<Longrightarrow> url_unit c" for c
    by (auto simp: hex_unit_def url_unit_def word_unit_def ascii_between_def word_le_nat_alt)
  have prefixes: "\<forall>c \<in> set (js ''sha256:'') \<union> set (js ''blake3:''). url_unit c \<or> c = 0x3A"
    by (simp add: js_def url_unit_def word_unit_def ascii_between_def)
  have "starts_with (js ''sha256:'') s \<longleftrightarrow> take 7 s = js ''sha256:''" "starts_with (js ''blake3:'') s \<longleftrightarrow> take 7 s = js ''blake3:''"
    by (simp_all add: starts_with_def numeral_eq_Suc)
  moreover have parts: "set s = set (take 7 s) \<union> set (drop 7 s)" using append_take_drop_id [of 7 s] set_append by metis
  ultimately have cases: "(take 7 s = js ''sha256:'' \<and> list_all url_unit (drop 7 s) \<and> length s = 50) \<or>
      (take 7 s = js ''blake3:'' \<and> list_all hex_unit (drop 7 s) \<and> length s = 71)"
    using assms by (auto simp: is_valid_blob_id_def)
  then show "length s \<le> 71" by auto
  show "\<forall>c \<in> set s. url_unit c \<or> c = 0x3A"
    unfolding parts using cases prefixes hex by (auto simp: list_all_iff)
qed

lemma manifest_text_length:
  assumes "is_valid_blob_id (JStr (bm_blob m))" "is_transfer_id (JStr (bm_transfer m))"
    and "0 \<le> bm_size m" "bm_size m \<le> max_blob_bytes" "bm_chunks m \<le> 32"
  shows "length (manifest_text env m) \<le> 1024"
proof -
  have t: "quote_units (bm_transfer m) = bm_transfer m" "length (bm_transfer m) \<le> 64"
    using assms(2) by (auto simp: is_transfer_id_def list_all_iff intro!: plain_quote)
  have b: "quote_units (bm_blob m) = bm_blob m" "length (bm_blob m) \<le> 71"
    using blob_id_plain [OF assms(1)] by (auto intro: plain_quote)
  have k: "length (quote_units (js s)) \<le> 6 * length s" for s using quote_units_length [of "js s"] by simp
  have "nat (bm_size m) < 10 ^ Suc 6" "bm_chunks m < 10 ^ Suc 1" using assms(3-5) by (simp_all add: max_blob_bytes_def)
  then have "length (dec_int (bm_size m)) \<le> 7" "length (dec_int (int (bm_chunks m))) \<le> 2" "length (dec_int 1) \<le> 1"
    using dec_nat_length [of "nat (bm_size m)" 6] dec_nat_length [of "bm_chunks m" 1] dec_nat_length [of 1 0] assms(3)
    by (simp_all add: dec_int_def)
  then show ?thesis
    using t b k [of "''mesh-blob-stream''"] k [of "''kind''"] k [of "''version''"] k [of "''blobId''"] k [of "''size''"]
      k [of "''transferId''"] k [of "''chunks''"]
    by (simp add: manifest_text_def manifest_json_def text_of_def member_text_def quote_def)
qed

section \<open>Publishing and reading on a store\<close>

text \<open>The text that \<open>compareAndSwap\<close> compares.\<close>

definition stored_text :: "jsval \<Rightarrow> jstring option" where
  "stored_text v = (case v of JStr t \<Rightarrow> Some t | _ \<Rightarrow> None)"

text \<open>The manifest of a complete upload.\<close>

definition published_manifest :: "jsval \<Rightarrow> jstring \<Rightarrow> stream_manifest" where
  "published_manifest d transfer = \<lparr> bm_blob = blob_id_of d, bm_size = blob_size_of d, bm_transfer = transfer,
     bm_chunks = nat ((blob_size_of d + int blob_chunk_bytes - 1) div int blob_chunk_bytes) \<rparr>"

lemma chunk_key_inj: "chunk_key m i = chunk_key m j \<longleftrightarrow> i = j"
  by (simp add: chunk_key_def dec_nat_inj)

lemma chunk_key_count [simp]: "chunk_key (m\<lparr> bm_chunks := n \<rparr>) i = chunk_key m i"
  by (simp add: chunk_key_def)

lemma manifest_key_chunk: "manifest_key b \<noteq> chunk_key m i"
  by (simp add: manifest_key_def chunk_key_def js_def)

lemma bind_s_Inr: "bind_s m f s = (Inr y, s'') \<longleftrightarrow> (\<exists>x s'. m s = (Inr x, s') \<and> f x s' = (Inr y, s''))"
  by (auto simp: bind_s_def split: prod.splits sum.splits)

lemma ensure_current_Inr: "ensure_current cur u = (Inr x, u') \<Longrightarrow> u' = u\<lparr> up_calls := up_calls u + 1 \<rparr>"
  by (auto simp: ensure_current_def)

lemma upload_verify_Inr:
  "upload_verify part u = (Inr x, u') \<Longrightarrow>
     part \<noteq> [] \<and> length part \<le> blob_chunk_bytes \<and>
     u' = u\<lparr> up_verifier := (up_verifier u)\<lparr> bv_data := bv_data (up_verifier u) @ part \<rparr> \<rparr>"
  by (auto simp: upload_verify_def verifier_update_Inr split: sum.splits)

lemma upload_count_Inr:
  "upload_count u = (Inr x, u') \<Longrightarrow> u' = u\<lparr> up_manifest := (up_manifest u)\<lparr> bm_chunks := bm_chunks (up_manifest u) + 1 \<rparr> \<rparr>"
  by (simp add: upload_count_def)

locale blob_store = mesh_store ops view wf declared stored_text
  for ops :: "('s, jsval, blob_error, 'r) mesh_store_ops" and view wf declared +
  fixes name :: jstring
  assumes declared_name: "declared name"
begin

lemma put_part_law:
  assumes "wf (up_store u)" "put_parts ops name cur (part # parts) ending u = (Inr (), u')"
  obtains u1 where "put_parts ops name cur parts ending u1 = (Inr (), u')" "wf (up_store u1)"
    "part \<noteq> []" "length part \<le> blob_chunk_bytes"
    "up_verifier u1 = (up_verifier u)\<lparr> bv_data := bv_data (up_verifier u) @ part \<rparr>"
    "up_manifest u1 = (up_manifest u)\<lparr> bm_chunks := bm_chunks (up_manifest u) + 1 \<rparr>"
    "view (up_store u1) name = (view (up_store u) name)(chunk_key (up_manifest u) (bm_chunks (up_manifest u)) \<mapsto> JBytes part)"
proof -
  from assms(2) obtain a b c d where a: "ensure_current cur u = (Inr (), a)" and b: "upload_verify part a = (Inr (), b)"
    and c: "upload_put ops name part b = (Inr (), c)" and d: "ensure_current cur c = (Inr (), d)"
    and rest: "put_parts ops name cur parts ending (snd (upload_count d)) = (Inr (), u')"
    by (auto simp: bind_s_Inr upload_count_def)
  note a = ensure_current_Inr [OF a] and b = upload_verify_Inr [OF b] and d = ensure_current_Inr [OF d]
  let ?key = "chunk_key (up_manifest u) (bm_chunks (up_manifest u))"
  obtain s1 where s1: "ms_put ops (up_store u) name ?key (JBytes part) = (Inr (), s1)" "wf s1"
    "view s1 = (view (up_store u))(name := (view (up_store u) name)(?key \<mapsto> JBytes part))"
    using put_law [OF assms(1) declared_name] by blast
  have "c = b\<lparr> up_store := s1, up_staged := up_staged b @ [?key] \<rparr>" using a b c s1(1) by (simp add: upload_put_def Let_def)
  with that [OF rest] a b d s1(2,3) show thesis by (simp add: upload_count_def)
qed

lemma put_parts_law:
  assumes "wf (up_store u)" "put_parts ops name cur parts ending u = (Inr (), u')"
  shows "ending = None \<and> wf (up_store u') \<and>
    up_manifest u' = (up_manifest u)\<lparr> bm_chunks := bm_chunks (up_manifest u) + length parts \<rparr> \<and>
    up_verifier u' = (up_verifier u)\<lparr> bv_data := bv_data (up_verifier u) @ concat parts \<rparr> \<and>
    (\<forall>i < length parts. view (up_store u') name (chunk_key (up_manifest u) (bm_chunks (up_manifest u) + i)) = Some (JBytes (parts ! i))) \<and>
    (\<forall>k. (\<forall>i < length parts. k \<noteq> chunk_key (up_manifest u) (bm_chunks (up_manifest u) + i)) \<longrightarrow>
       view (up_store u') name k = view (up_store u) name k)"
  using assms
proof (induction parts arbitrary: u)
  case Nil
  then show ?case by (auto simp: ret_def throw_def split: option.splits)
next
  case (Cons part parts)
  let ?m = "up_manifest u" and ?c = "bm_chunks (up_manifest u)"
  obtain u1 where rest: "put_parts ops name cur parts ending u1 = (Inr (), u')" and wf1: "wf (up_store u1)"
    and u1: "up_verifier u1 = (up_verifier u)\<lparr> bv_data := bv_data (up_verifier u) @ part \<rparr>" "up_manifest u1 = ?m\<lparr> bm_chunks := ?c + 1 \<rparr>"
      "view (up_store u1) name = (view (up_store u) name)(chunk_key ?m ?c \<mapsto> JBytes part)"
    using put_part_law [OF Cons.prems] by metis
  note ih = Cons.IH [OF wf1 rest]
  have first: "view (up_store u') name (chunk_key ?m ?c) = Some (JBytes part)" using ih u1 by (simp add: chunk_key_inj)
  have stored: "view (up_store u') name (chunk_key ?m (?c + i)) = Some (JBytes ((part # parts) ! i))" if "i < length (part # parts)" for i
    using that first ih u1 by (cases i) auto
  have frame: "view (up_store u') name k = view (up_store u) name k"
    if "\<forall>i < length (part # parts). k \<noteq> chunk_key ?m (?c + i)" for k
  proof -
    have "k \<noteq> chunk_key ?m ?c" using that by force
    moreover have "\<forall>i < length parts. k \<noteq> chunk_key ?m (?c + 1 + i)" using that by auto
    ultimately show ?thesis using ih u1 by simp
  qed
  show ?case using ih u1 stored frame by simp
qed

lemma upload_publish_law:
  assumes "wf (up_store u)" "upload_publish ops env name cur key previous u = (Inr (), u')"
  shows "wf (up_store u')"
    "view (up_store u') name = (view (up_store u) name)(key \<mapsto> JStr (manifest_text env (up_manifest u)))"
proof -
  let ?cs = "[\<lparr> cond_store = name, cond_key = key, cond_expected = previous \<rparr>]"
  let ?bs = "[PutOp name key (JStr (manifest_text env (up_manifest u)))]"
  obtain s1 where s1: "wf s1" "ms_cas ops (up_store u) ?cs ?bs (cur (up_calls u)) =
      (case check_conditions [] ?cs of
         Inl err \<Rightarrow> Inl err
       | Inr _ \<Rightarrow> if \<not> conditions_hold stored_text (view (up_store u)) ?cs then Inr False
                 else (case cur (up_calls u) of Some e \<Rightarrow> Inl (Raised e) | None \<Rightarrow> Inr True), s1)"
    "view s1 = (if check_conditions [] ?cs = (Inr () :: blob_error store_error + unit) \<and>
        conditions_hold stored_text (view (up_store u)) ?cs \<and> cur (up_calls u) = None
      then fold view_apply ?bs (view (up_store u)) else view (up_store u))"
    using cas_law [OF assms(1), of ?cs ?bs "cur (up_calls u)"] declared_name by auto
  from assms(2) s1(2) have ok: "conditions_hold stored_text (view (up_store u)) ?cs" "cur (up_calls u) = None" "up_store u' = s1"
    by (auto simp: upload_publish_def split: if_splits option.splits)
  then show "wf (up_store u')" "view (up_store u') name = (view (up_store u) name)(key \<mapsto> JStr (manifest_text env (up_manifest u)))"
    using s1(1,3) by (simp_all add: view_apply_def)
qed

lemma upload_body_law:
  assumes wf: "wf (up_store u)" and run: "upload_body ops env name cur key previous source u = (Inr (), u')"
    and u: "bm_chunks (up_manifest u) = 0" "bv_data (up_verifier u) = []" "key = manifest_key b"
  obtains parts where "chunk_blob_source source = (parts, None)" "wf (up_store u')"
    "end_parts env ((up_verifier u)\<lparr> bv_data := concat parts \<rparr>) = None"
    "view (up_store u') name key = Some (JStr (manifest_text env ((up_manifest u)\<lparr> bm_chunks := length parts \<rparr>)))"
    "\<forall>i < length parts. view (up_store u') name (chunk_key (up_manifest u) i) = Some (JBytes (parts ! i))"
proof -
  obtain parts ending where p: "chunk_blob_source source = (parts, ending)" by fastforce
  with run obtain u1 u2 u3 u4 where r: "put_parts ops name cur parts ending u = (Inr (), u1)" "upload_finish env u1 = (Inr (), u2)"
      "ensure_current cur u2 = (Inr (), u3)" "upload_publish ops env name cur key previous u3 = (Inr (), u4)"
      "ensure_current cur u4 = (Inr (), u')"
    by (auto simp: upload_body_def bind_s_Inr)
  note l1 = put_parts_law [OF wf r(1)]
  from r(2) have f: "end_parts env (up_verifier u1) = None" and u2: "up_store u2 = up_store u1" "up_manifest u2 = up_manifest u1"
    by (auto simp: upload_finish_def end_parts_def split: prod.splits sum.splits)
  note u3 = ensure_current_Inr [OF r(3)] and u5 = ensure_current_Inr [OF r(5)]
  have wf3: "wf (up_store u3)" using l1 u2 u3 by simp
  note l4 = upload_publish_law [OF wf3 r(4)]
  have n: "chunk_key (up_manifest u) i \<noteq> key" for i using u(3) manifest_key_chunk by metis
  show thesis
  proof (rule that)
    show "chunk_blob_source source = (parts, None)" using p l1 by simp
    show "wf (up_store u')" using l4 u5 by simp
    show "end_parts env ((up_verifier u)\<lparr> bv_data := concat parts \<rparr>) = None" using f l1 u(2) by simp
    show "view (up_store u') name key = Some (JStr (manifest_text env ((up_manifest u)\<lparr> bm_chunks := length parts \<rparr>)))"
      using l4 u5 u3 u2 l1 u(1) by simp
    show "\<forall>i < length parts. view (up_store u') name (chunk_key (up_manifest u) i) = Some (JBytes (parts ! i))"
      using l4 u5 u3 u2 l1 u(1) n by simp
  qed
qed

lemma put_law_published:
  assumes wf: "wf s" and run: "put_blob_stream ops env name d source cur transfer s = (Inr (), s')"
  obtains parts v where "chunk_blob_source source = (parts, None)" "wf s'" "create_blob_stream_verifier d = Inr v"
    "end_parts env (v\<lparr> bv_data := concat parts \<rparr>) = None"
    "view s' name (manifest_key (blob_id_of d)) = Some (JStr (manifest_text env
       \<lparr> bm_blob = blob_id_of d, bm_size = blob_size_of d, bm_transfer = transfer, bm_chunks = length parts \<rparr>))"
    "\<forall>i < length parts. view s' name (chunk_key \<lparr> bm_blob = blob_id_of d, bm_size = blob_size_of d, bm_transfer = transfer,
       bm_chunks = length parts \<rparr> i) = Some (JBytes (parts ! i))"
proof -
  let ?m = "\<lparr> bm_blob = blob_id_of d, bm_size = blob_size_of d, bm_transfer = transfer, bm_chunks = 0 \<rparr>"
  obtain s1 where s1: "ms_get ops s name (manifest_key (blob_id_of d)) = (Inr (view s name (manifest_key (blob_id_of d))), s1)"
    "view s1 = view s" "wf s1" using get_law [OF wf declared_name] by blast
  from run s1(1) obtain v previous u where v: "create_blob_stream_verifier d = Inr v" and
    body: "upload_body ops env name cur (manifest_key (blob_id_of d)) previous source
      \<lparr> up_store = s1, up_calls = 1, up_verifier = v, up_staged = [], up_manifest = ?m \<rparr> = (Inr (), u)" and s': "s' = up_store u"
    by (auto simp: put_blob_stream_def Let_def bind_r_eq_Inr blob_descriptor_Inr split: sum.splits option.splits prod.splits)
  have v0: "bv_data v = []" using create_verifier_Inr [OF v] by simp
  have keys: "chunk_key \<lparr> bm_blob = blob_id_of d, bm_size = blob_size_of d, bm_transfer = transfer, bm_chunks = n \<rparr> i = chunk_key ?m i" for n i
    by (simp add: chunk_key_def)
  show thesis
  proof (rule upload_body_law [OF _ body _ _ refl])
    fix parts assume "chunk_blob_source source = (parts, None)" "wf (up_store u)"
      "end_parts env ((up_verifier \<lparr> up_store = s1, up_calls = 1, up_verifier = v, up_staged = [], up_manifest = ?m \<rparr>)
         \<lparr> bv_data := concat parts \<rparr>) = None"
      "view (up_store u) name (manifest_key (blob_id_of d)) = Some (JStr (manifest_text env
         ((up_manifest \<lparr> up_store = s1, up_calls = 1, up_verifier = v, up_staged = [], up_manifest = ?m \<rparr>)\<lparr> bm_chunks := length parts \<rparr>)))"
      "\<forall>i < length parts. view (up_store u) name (chunk_key (up_manifest \<lparr> up_store = s1, up_calls = 1, up_verifier = v, up_staged = [],
         up_manifest = ?m \<rparr>) i) = Some (JBytes (parts ! i))"
    then show thesis by (intro that [of parts v]) (simp_all add: s' v keys [of "length parts"])
  qed (use s1(3) v0 in simp_all)
qed

lemma verify_stored_law:
  assumes "wf s" "chunked parts" "bm_size m = int (length (concat parts))" "k \<le> length parts"
    and "\<forall>i < length parts. view s name (chunk_key m i) = Some (JBytes (parts ! i))"
    and "bv_data v = concat (take k parts)" "\<not> bv_finished v" "blob_size_of (bv_descriptor v) = int (length (concat parts))"
    and "int (length (concat parts)) \<le> max_blob_bytes"
  shows "\<exists>s'. verify_stored ops env name m [k..<length parts] v s =
    ((drop k parts, end_parts env (v\<lparr> bv_data := concat parts \<rparr>)), s')"
  using assms(1,4-8)
proof (induction "length parts - k" arbitrary: k v s)
  case 0
  then have "k = length parts" by simp
  moreover from this 0 have "v\<lparr> bv_data := concat parts \<rparr> = v" by (cases v) simp
  ultimately show ?case by simp
next
  case (Suc n)
  then have k: "k < length parts" by simp
  let ?p = "parts ! k"
  obtain s1 where s1: "ms_get ops s name (chunk_key m k) = (Inr (Some (JBytes ?p)), s1)" "view s1 = view s" "wf s1"
    using get_law [OF Suc.prems(1) declared_name, of "chunk_key m k"] Suc.prems(3) k by auto
  have len: "length ?p = min blob_chunk_bytes (length (concat parts) - k * blob_chunk_bytes)"
    using chunked_length(2) [OF assms(2) k] .
  have split: "concat parts = concat (take k parts) @ ?p @ concat (drop (Suc k) parts)"
    using k by (metis append_take_drop_id concat.simps(2) concat_append Cons_nth_drop_Suc)
  have below: "k * blob_chunk_bytes < length (concat parts)"
    using chunked_below [OF assms(2) k] .
  have "int (length ?p) = min (int blob_chunk_bytes) (bm_size m - int k * int blob_chunk_bytes)"
    using len below assms(3) by (simp add: of_nat_min of_nat_diff)
  then have part: "stored_part ops name m k s = (Inr ?p, s1)" using s1(1) by (simp add: stored_part_def)
  let ?v = "v\<lparr> bv_data := bv_data v @ ?p \<rparr>"
  have "?p \<noteq> []" "length ?p \<le> blob_chunk_bytes" using len below chunk_positive by (auto simp: min_def split: if_splits)
  moreover have "length (concat (take k parts)) + length ?p \<le> length (concat parts)" using split by simp
  ultimately have up: "verifier_update (JBytes ?p) v = Inr ?v"
    using Suc.prems(4-6) assms(9) by (auto simp: verifier_update_Inr)
  have "\<exists>s'. verify_stored ops env name m [Suc k..<length parts] ?v s1 =
      ((drop (Suc k) parts, end_parts env (?v\<lparr> bv_data := concat parts \<rparr>)), s')"
    using Suc.hyps(2) Suc.prems k s1(2,3) by (intro Suc.hyps(1)) (simp_all add: take_Suc_conv_app_nth)
  then obtain s' where "verify_stored ops env name m [Suc k..<length parts] ?v s1 =
      ((drop (Suc k) parts, end_parts env (v\<lparr> bv_data := concat parts \<rparr>)), s')" by auto
  then show ?case using part up k by (simp add: upt_conv_Cons Cons_nth_drop_Suc [symmetric])
qed

text \<open>What an upload published is read back, chunk by chunk.\<close>

lemma put_read:
  assumes wf: "wf s" and run: "put_blob_stream ops env name d source cur transfer s = (Inr (), s')"
    and transfer: "is_transfer_id (JStr transfer)"
    and parse: "be_json_parse env (manifest_text env (published_manifest d transfer)) = Some (manifest_json (published_manifest d transfer))"
  shows "\<exists>bss m parts s1 s2. src_items source = map JBytes bss \<and>
    read_blob_stream ops env name d s' = (Inr (Some (StoredChunks m)), s1) \<and>
    verify_parts ops env name d (StoredChunks m) s1 = ((parts, None), s2) \<and> concat parts = concat bss"
proof (rule put_law_published [OF wf run])
  fix parts :: "bytes list" and v
  let ?m = "\<lparr> bm_blob = blob_id_of d, bm_size = blob_size_of d, bm_transfer = transfer, bm_chunks = length parts \<rparr>"
  assume c: "chunk_blob_source source = (parts, None)" and wf': "wf s'" and v: "create_blob_stream_verifier d = Inr v"
    and fin: "end_parts env (v\<lparr> bv_data := concat parts \<rparr>) = None"
    and man: "view s' name (manifest_key (blob_id_of d)) = Some (JStr (manifest_text env ?m))"
    and chunks: "\<forall>i < length parts. view s' name (chunk_key ?m i) = Some (JBytes (parts ! i))"
  from v have valid: "validate_blob_descriptor d = Inr d" and v0: "v = \<lparr> bv_descriptor = d, bv_data = [], bv_finished = False \<rparr>"
    using create_verifier_Inr [OF v] by (auto simp: create_blob_stream_verifier_def bind_r_eq_Inr blob_descriptor_Inr)
  from valid have id: "is_valid_blob_id (JStr (blob_id_of d))" "js_prop d (js ''blobId'') = JStr (blob_id_of d)"
    and sz: "1 \<le> blob_size_of d" "blob_size_of d \<le> max_blob_bytes"
    by (auto simp: validate_blob_descriptor_def valid_blob_head_def is_valid_blob_id_def bind_r_eq_Inr assert_r_eq_Inr
        split: jsval.splits)
  from chunk_items_law [of "[]" 0 "src_items source" "src_fault source" parts] c chunk_positive obtain bss
    where bss: "src_items source = map JBytes bss" "concat parts = concat bss" and ch: "chunked parts"
    by (auto simp: chunk_blob_source_def)
  from fin v0 have total: "blob_size_of d = int (length (concat parts))" by (simp add: end_parts_None)
  have n: "int (length parts) = (blob_size_of d + int blob_chunk_bytes - 1) div int blob_chunk_bytes"
    using chunked_length(1) [OF ch] total chunk_positive by (simp add: zdiv_int of_nat_diff)
  have "length (concat parts) + blob_chunk_bytes - 1 \<le> 8388608 + blob_chunk_bytes - 1"
    using total sz(2) by (simp add: max_blob_bytes_def)
  from div_le_mono [OF this, of blob_chunk_bytes] have "length parts \<le> 32"
    using chunked_length(1) [OF ch] by (simp add: blob_chunk_bytes_def)
  then have short: "length (manifest_text env ?m) \<le> 1024"
    using manifest_text_length [of ?m env] id(1) transfer sz by simp
  have ok: "manifest_ok (manifest_json ?m) (blob_id_of d)"
    using sz(1,2) transfer n by (simp add: manifest_ok_def manifest_json_def is_safe_integer_def max_safe_integer_def max_blob_bytes_def)
  have "published_manifest d transfer = ?m" using n by (simp add: published_manifest_def flip: n)
  then have read: "read_manifest env (JStr (manifest_text env ?m)) (blob_id_of d) = Inr ?m"
    using short ok parse by (simp add: read_manifest_def manifest_json_def)
  obtain s1 where s1: "ms_get ops s' name (manifest_key (blob_id_of d)) = (Inr (Some (JStr (manifest_text env ?m))), s1)"
    "view s1 = view s'" "wf s1" using get_law [OF wf' declared_name, of "manifest_key (blob_id_of d)"] man by auto
  then have "read_blob_stream ops env name d s' = (Inr (Some (StoredChunks ?m)), s1)"
    using read valid by (simp add: read_blob_stream_def blob_descriptor_r_def)
  moreover obtain s2 where "verify_stored ops env name ?m [0..<length parts] v s1 =
      ((drop 0 parts, end_parts env (v\<lparr> bv_data := concat parts \<rparr>)), s2)"
    using verify_stored_law [OF s1(3) ch, of ?m 0 v env] chunks s1(2) v0 total sz by auto
  ultimately show ?thesis using bss v fin by (auto simp: verify_parts_def)
qed

end

interpretation browser_blobs: blob_store "browser_ops stored_text (name # extra) True" idb_view idb_wf "\<lambda>n. n \<in> set (name # extra)" name
  for name extra
  by unfold_locales simp_all

interpretation memory_blobs: blob_store "memory_ops stored_text" mem_lookup mem_wf "\<lambda>_. True" name for name
  by unfold_locales simp_all

text \<open>
  C40. What was published comes back: after \<open>putBlobStream\<close> succeeded on a browser store, \<open>readBlobStream\<close> finds the
  manifest, and reading it to its end succeeds and yields exactly the bytes of the source, whatever was stored before and
  however the source was cut. Relied on is that \<open>JSON.parse\<close> reads the manifest as \<open>JSON.stringify\<close> wrote it.
\<close>

theorem blob_put_read_roundtrip:
  assumes "idb_wf db" "is_transfer_id (JStr transfer)"
    and "be_json_parse env (manifest_text env (published_manifest d transfer)) = Some (manifest_json (published_manifest d transfer))"
    and "put_blob_stream (browser_ops stored_text (name # extra) True :: (_, _, _, unit) mesh_store_ops) env name d source cur transfer db =
      (Inr (), db')"
  shows "\<exists>bss m parts db1 db2. src_items source = map JBytes bss \<and>
    read_blob_stream (browser_ops stored_text (name # extra) True :: (_, _, _, unit) mesh_store_ops) env name d db' =
      (Inr (Some (StoredChunks m)), db1) \<and>
    verify_parts (browser_ops stored_text (name # extra) True :: (_, _, _, unit) mesh_store_ops) env name d (StoredChunks m) db1 =
      ((parts, None), db2) \<and> concat parts = concat bss"
  using browser_blobs.put_read [OF assms(1,4,2,3)] .

section \<open>A small blob\<close>

definition sample_blob :: jsval where
  "sample_blob = JObj [(js ''kind'', JStr (js ''blob'')), (js ''version'', JNum 1),
     (js ''blobId'', JStr (js ''sha256:'' @ to_base64url ([1, 2, 3] @ replicate 29 0))), (js ''size'', JNum 3),
     (js ''name'', JStr (js ''a'')), (js ''mediaType'', JStr (js ''a/b''))]"

definition blob_sample :: blob_env where
  "blob_sample = \<lparr> cr_sha256 = (\<lambda>bs. take 32 (bs @ replicate 32 0)), cr_public = (\<lambda>k. k), cr_sign = (\<lambda>k input. []),
     cr_verify = (\<lambda>key sig input. True), cr_number = sample_number, ch_parse = (\<lambda>v. None), ch_iso = dec_int,
     ch_locale = (\<lambda>a b. 0), ch_load = (\<lambda>bs. None), ch_save = (\<lambda>v. []), ch_merge = (\<lambda>a b. a), be_blake3_hex = (\<lambda>bs. []),
     be_json_parse = (\<lambda>t. Some (manifest_json (published_manifest sample_blob (js ''t1'')))) \<rparr>"

definition sample_source :: blob_source where
  "sample_source = \<lparr> src_items = [JBytes [1, 2], JBytes [3]], src_fault = None \<rparr>"

abbreviation blob_ops :: "(jsval idb, jsval, blob_error, unit) mesh_store_ops" where
  "blob_ops \<equiv> browser_ops stored_text [js ''blobs''] True"

lemma sample_blob_fields [simp]:
  "blob_id_of sample_blob = js ''sha256:'' @ to_base64url ([1, 2, 3] @ replicate 29 0)" "blob_size_of sample_blob = 3"
  by (simp_all add: sample_blob_def)

lemma sample_blob_valid: "validate_blob_descriptor sample_blob = Inr sample_blob"
proof -
  let ?id = "to_base64url ([1, 2, 3] @ replicate 29 0)"
  have "length ?id = 43" by (rule length_to_base64url) simp
  moreover have "url_safe c \<Longrightarrow> url_unit c" for c
    by (auto simp: url_safe_def url_unit_def word_unit_def ascii_between_def Let_def word_le_nat_alt word_unat_eq_iff)
  then have "list_all url_unit ?id" using b64_run_sym url_safe_sym by (auto simp: to_base64url_eq list_all_iff)
  ultimately have "is_valid_blob_id (JStr (js ''sha256:'' @ ?id))"
    by (simp add: is_valid_blob_id_def starts_with_def)
  moreover have "blob_name (JStr (js ''a'')) = Inr (js ''a'')" "blob_media_type (JStr (js ''a/b'')) = Inr (js ''a/b'')"
    by (simp_all add: blob_name_def blob_media_type_def trim_r_def js_trim_def js_space_def is_media_type_def media_unit_def word_unit_def
        ascii_between_def lower_unit_def js_def)
  ultimately show ?thesis
    by (simp add: validate_blob_descriptor_def valid_blob_head_def sample_blob_def assert_r_def is_safe_integer_def max_safe_integer_def
        max_blob_bytes_def)
qed

lemma sample_chunks: "chunk_blob_source sample_source = ([[1, 2, 3]], None)"
proof -
  have "fill_buffer [] [1, 2] = ([], [1, 2])" "fill_buffer [1, 2] [3] = ([], [1, 2, 3])"
    by (subst fill_buffer.simps, simp add: blob_chunk_bytes_def, subst fill_buffer.simps, simp)+
  then show ?thesis by (simp add: chunk_blob_source_def sample_source_def blob_chunk_bytes_def max_blob_bytes_def)
qed

lemma sample_put: "\<exists>db'. put_blob_stream blob_ops blob_sample (js ''blobs'') sample_blob sample_source (\<lambda>_. None) (js ''t1'')
    (fresh_idb [js ''blobs'']) = (Inr (), db')"
proof -
  let ?v = "\<lparr> bv_descriptor = sample_blob, bv_data = [], bv_finished = False \<rparr>"
  have v: "create_blob_stream_verifier sample_blob = Inr ?v"
    by (simp add: create_blob_stream_verifier_def blob_descriptor_r_def sample_blob_valid starts_with_def)
  have up: "verifier_update (JBytes [1, 2, 3]) ?v = Inr \<lparr> bv_descriptor = sample_blob, bv_data = [1, 2, 3], bv_finished = False \<rparr>"
    by (simp add: verifier_update_def blob_chunk_bytes_def max_blob_bytes_def)
  have fin: "verifier_finish blob_sample \<lparr> bv_descriptor = sample_blob, bv_data = [1, 2, 3], bv_finished = False \<rparr> =
      (Inr (), \<lparr> bv_descriptor = sample_blob, bv_data = [1, 2, 3], bv_finished = True \<rparr>)"
    by (simp add: verifier_finish_def actual_blob_id_def expected_blob_id_def starts_with_def blob_sample_def)
  show ?thesis
    by (simp add: put_blob_stream_def blob_descriptor_r_def sample_blob_valid v upload_body_def sample_chunks bind_s_def ensure_current_def
        upload_verify_def up upload_put_def upload_count_def upload_finish_def fin upload_publish_def previous_manifest_def ret_def
        browser_ops_def bs_get_def bs_put_def bs_cas_def bs_run_def transaction_def Let_def js_uniq_def
        manifest_key_chunk condition_holds_def)
qed

theorem blob_put_read_roundtrip_witness:
  "\<exists>db' m db1 parts db2. put_blob_stream blob_ops blob_sample (js ''blobs'') sample_blob sample_source (\<lambda>_. None) (js ''t1'')
      (fresh_idb [js ''blobs'']) = (Inr (), db') \<and>
    read_blob_stream blob_ops blob_sample (js ''blobs'') sample_blob db' = (Inr (Some (StoredChunks m)), db1) \<and>
    verify_parts blob_ops blob_sample (js ''blobs'') sample_blob (StoredChunks m) db1 = ((parts, None), db2) \<and> concat parts = [1, 2, 3]"
proof -
  obtain db' where p: "put_blob_stream blob_ops blob_sample (js ''blobs'') sample_blob sample_source (\<lambda>_. None) (js ''t1'')
      (fresh_idb [js ''blobs'']) = (Inr (), db')" using sample_put by blast
  have wf: "idb_wf (fresh_idb [js ''blobs''])" by (simp add: idb_wf_def strictly_sorted_def)
  have t: "is_transfer_id (JStr (js ''t1''))"
    by (simp add: is_transfer_id_def url_unit_def word_unit_def ascii_between_def js_def)
  have j: "be_json_parse blob_sample (manifest_text blob_sample (published_manifest sample_blob (js ''t1''))) =
      Some (manifest_json (published_manifest sample_blob (js ''t1'')))" by (simp add: blob_sample_def)
  have "map JBytes bss = [JBytes [1, 2], JBytes [3]] \<Longrightarrow> concat bss = [1, 2, 3]" for bss by (auto simp: map_eq_Cons_conv)
  with blob_put_read_roundtrip [OF wf t j p] p show ?thesis by (fastforce simp: sample_source_def)
qed

theorem blob_read_authentic_witness:
  "\<exists>parts. verify_parts blob_ops blob_sample (js ''blobs'') sample_blob (LegacyBytes [1, 2, 3]) (fresh_idb [js ''blobs'']) =
      ((parts, None), fresh_idb [js ''blobs'']) \<and> int (length (concat parts)) = 3"
proof -
  have "create_blob_stream_verifier sample_blob = Inr \<lparr> bv_descriptor = sample_blob, bv_data = [], bv_finished = False \<rparr>"
    by (simp add: create_blob_stream_verifier_def blob_descriptor_r_def sample_blob_valid starts_with_def)
  then have v: "verify_parts blob_ops blob_sample (js ''blobs'') sample_blob (LegacyBytes [1, 2, 3]) (fresh_idb [js ''blobs'']) =
      (([[1, 2, 3]], None), fresh_idb [js ''blobs''])"
    by (simp add: verify_parts_def legacy_slices_def blob_chunk_bytes_def verifier_update_def max_blob_bytes_def end_parts_def
        verifier_finish_def actual_blob_id_def expected_blob_id_def starts_with_def blob_sample_def)
  then show ?thesis using blob_read_authentic [OF v] by simp
qed

section \<open>Names\<close>

text \<open>A name is not always fit after normalization: characters are dropped and the name is cut only after white space was
  removed from its ends, so a name whose 180th character is a blank is refused by \<open>createBlobDescriptorFromId\<close>.\<close>

lemma long_name_refused:
  "create_blob_descriptor_from_id blob_id n (JStr (replicate 179 0x61 @ [0x20, 0x61])) media_type \<noteq> Inr d"
proof -
  have trim: "js_trim (replicate 179 0x61 @ [0x20, 0x61]) = replicate 179 0x61 @ [0x20, 0x61]"
    by (simp add: js_trim_def js_space_def)
  have normal: "blob_name (JStr (replicate 179 0x61 @ [0x20, 0x61])) = Inr (replicate 179 0x61 @ [0x20])"
    by (simp add: blob_name_def trim_r_def trim filter_True)
  have "js_trim (replicate 179 0x61 @ [0x20]) = replicate 179 0x61"
    by (simp add: js_trim_def js_space_def)
  then have again: "blob_name (JStr (replicate 179 0x61 @ [0x20])) = Inr (replicate 179 0x61)"
    by (simp add: blob_name_def trim_r_def filter_True)
  have "replicate 179 (0x61 :: 16 word) @ [0x20] \<noteq> replicate 179 0x61" by simp
  with again show ?thesis
    by (auto simp: create_blob_descriptor_from_id_def normal bind_r_eq_Inr validate_blob_descriptor_def assert_r_eq_Inr)
qed

end
