(* ===== verification/Blob_Transfer.thy ===== *)
theory Blob_Transfer
  imports Blob_Stream
begin

text \<open>
  Requests and responses of blob transfers (\<open>packages/mesh-blob/src/index.ts\<close>): descriptors of bytes, signed requests for a
  range of a blob, and the responses that carry the range. The engine that checks a BLAKE3 digest and a signer that
  replaces the profile's key are optional parameters. A request that is answered or whose answer is checked was made or
  verified before, so its offset and length are integers.
\<close>

datatype transfer_error =
    TransferFault chat_error | InvalidFileSize | ContentMismatch | InvalidBlobRequest | SignerMismatch | ExpiredBlobRequest
  | InvalidBlobRequestSignature | InvalidResponseRange | InvalidBlobResponse

definition transfer_r :: "chat_error + 'a \<Rightarrow> transfer_error + 'a" where
  "transfer_r m = (case m of Inl e \<Rightarrow> Inl (TransferFault e) | Inr x \<Rightarrow> Inr x)"

definition blob_domain :: jstring where "blob_domain = js ''MESH-BLOB/1''"

definition blob_id_for :: "'m mesh_crypto_scheme \<Rightarrow> bytes \<Rightarrow> jstring" where
  "blob_id_for cr bs = js ''sha256:'' @ to_base64url (cr_sha256 cr bs)"

definition create_blob_descriptor :: "'m mesh_crypto_scheme \<Rightarrow> bytes \<Rightarrow> jsval \<Rightarrow> jsval \<Rightarrow> transfer_error + jsval" where
  "create_blob_descriptor cr bs name media_type =
     (if length bs < 1 \<or> max_blob_bytes < int (length bs) then Inl InvalidFileSize
      else transfer_r (create_blob_descriptor_from_id (blob_id_for cr bs) (int (length bs)) name media_type))"

definition verify_blob_bytes ::
  "'m blob_env_scheme \<Rightarrow> (jstring \<Rightarrow> bytes \<Rightarrow> bool) option \<Rightarrow> jsval \<Rightarrow> bytes \<Rightarrow> transfer_error + bytes" where
  "verify_blob_bytes env engine descriptor bs =
     bind_r (transfer_r (validate_blob_descriptor descriptor)) (\<lambda>d.
     if int (length bs) \<noteq> blob_size_of d then Inl ContentMismatch
     else
       let blob_id = blob_id_of d; hash = drop 7 blob_id in
       if starts_with (js ''blake3:'') blob_id then
         (if (case engine of Some verify \<Rightarrow> verify hash bs | None \<Rightarrow> be_blake3_hex env bs = map lower_unit hash)
          then Inr bs else Inl ContentMismatch)
       else if blob_id_for env bs \<noteq> blob_id then Inl ContentMismatch
       else Inr bs)"

section \<open>Requests\<close>

record blob_signer =
  sg_person :: jstring
  sg_device :: jstring
  sg_sign :: "jsval \<Rightarrow> transfer_error + jsval"

definition blob_range_ok :: "jsval \<Rightarrow> jsval \<Rightarrow> bool" where
  "blob_range_ok offset_value length_value \<longleftrightarrow>
     js_safe offset_value \<and> 0 \<le> js_int offset_value \<and> js_safe length_value \<and> 1 \<le> js_int length_value \<and>
     js_int length_value \<le> int blob_chunk_bytes"

definition create_blob_request ::
  "'m chat_env_scheme \<Rightarrow> local_profile \<Rightarrow> jstring \<Rightarrow> jstring \<Rightarrow> jsval \<Rightarrow> jsval \<Rightarrow> int \<Rightarrow> jstring \<Rightarrow> blob_signer option \<Rightarrow> transfer_error + jsval" where
  "create_blob_request env profile conversation blob_id offset_value length_value now request_id signing =
     bind_r (assert_r (conversation \<noteq> [] \<and> is_valid_blob_id (JStr blob_id) \<and> blob_range_ok offset_value length_value) InvalidBlobRequest) (\<lambda>_.
     bind_r (transfer_r (iso_text env now)) (\<lambda>created.
     let payload =
       JObj [(js ''kind'', JStr (js ''blob-request'')), (js ''version'', JNum 1), (js ''requestId'', JStr request_id),
         (js ''conversationId'', JStr conversation), (js ''blobId'', JStr blob_id),
         (js ''requesterPersonId'', person_of (lp_identity profile)), (js ''requesterDeviceId'', JStr (lp_device profile)),
         (js ''offset'', offset_value), (js ''length'', length_value), (js ''createdAt'', JStr created)]
     in (case signing of
           Some signer \<Rightarrow>
             if JStr (sg_person signer) \<noteq> person_of (lp_identity profile) \<or> sg_device signer \<noteq> lp_device profile then Inl SignerMismatch
             else sg_sign signer payload
         | None \<Rightarrow> transfer_r (identity_r (sign_envelope env (lp_device_key profile) payload (lp_device profile) blob_domain)))))"

definition blob_request_head :: "jsval \<Rightarrow> jsval \<Rightarrow> jsval \<Rightarrow> jstring \<Rightarrow> bool" where
  "blob_request_head request p identity conversation \<longleftrightarrow>
     js_truthy p \<and> js_prop p (js ''kind'') = JStr (js ''blob-request'') \<and> js_prop p (js ''version'') = JNum 1 \<and>
     js_prop p (js ''conversationId'') = JStr conversation \<and> js_eq (js_prop p (js ''requesterPersonId'')) (person_of identity) \<and>
     js_eq (js_prop p (js ''requesterDeviceId'')) (js_prop request (js ''signerKeyId'')) \<and> js_truthy (js_prop p (js ''requestId'')) \<and>
     is_valid_blob_id (js_prop p (js ''blobId'')) \<and> blob_range_ok (js_prop p (js ''offset'')) (js_prop p (js ''length''))"

definition verify_blob_request ::
  "'m chat_env_scheme \<Rightarrow> jsval \<Rightarrow> jsval \<Rightarrow> jsval \<Rightarrow> jstring \<Rightarrow> int \<Rightarrow> transfer_error + jsval" where
  "verify_blob_request env request identity certificates conversation now =
     (let p = js_prop request (js ''payload'') in
      bind_r (assert_r (blob_request_head request p identity conversation) InvalidBlobRequest) (\<lambda>_.
      bind_r (case ch_parse env (js_prop p (js ''createdAt'')) of None \<Rightarrow> Inl ExpiredBlobRequest
        | Some t \<Rightarrow> assert_r (\<bar>now - t\<bar> \<le> 5 * 60 * 1000) ExpiredBlobRequest) (\<lambda>_.
      bind_r (transfer_r (verify_device env identity (js_prop p (js ''requesterDeviceId'')) certificates)) (\<lambda>key.
      bind_r (transfer_r (identity_r (verify_envelope env request key blob_domain))) (\<lambda>ok.
      bind_r (assert_r ok InvalidBlobRequestSignature) (\<lambda>_. Inr request))))))"

section \<open>Responses\<close>

abbreviation request_field :: "jsval \<Rightarrow> string \<Rightarrow> jsval" where
  "request_field request k \<equiv> js_prop (js_prop request (js ''payload'')) (js k)"

definition create_blob_response :: "jsval \<Rightarrow> jsval \<Rightarrow> bytes \<Rightarrow> transfer_error + jsval" where
  "create_blob_response request descriptor bs =
     bind_r (transfer_r (validate_blob_descriptor descriptor)) (\<lambda>d.
     let from = js_int (request_field request ''offset''); n = js_int (request_field request ''length'') in
     if \<not> js_eq (request_field request ''blobId'') (js_prop d (js ''blobId'')) \<or> blob_size_of d \<le> from \<or> n < int (length bs) \<or>
        int (length bs) \<noteq> min n (blob_size_of d - from) then Inl InvalidResponseRange
     else Inr (JObj [(js ''kind'', JStr (js ''blob-response'')), (js ''version'', JNum 1),
       (js ''requestId'', request_field request ''requestId''), (js ''blobId'', js_prop d (js ''blobId'')),
       (js ''offset'', request_field request ''offset''), (js ''totalSize'', js_prop d (js ''size'')),
       (js ''data'', JStr (to_base64url bs))]))"

definition verify_blob_response :: "jsval \<Rightarrow> jsval \<Rightarrow> jsval \<Rightarrow> transfer_error + bytes" where
  "verify_blob_response response request descriptor =
     bind_r (transfer_r (validate_blob_descriptor descriptor)) (\<lambda>d.
     bind_r (transfer_r (identity_r (decode_base64url (js_or (js_prop response (js ''data'')) (JStr []))))) (\<lambda>bs.
     if js_prop response (js ''kind'') \<noteq> JStr (js ''blob-response'') \<or> js_prop response (js ''version'') \<noteq> JNum 1 \<or>
        \<not> js_eq (js_prop response (js ''requestId'')) (request_field request ''requestId'') \<or>
        \<not> js_eq (js_prop response (js ''blobId'')) (js_prop d (js ''blobId'')) \<or>
        \<not> js_eq (js_prop response (js ''offset'')) (request_field request ''offset'') \<or>
        \<not> js_eq (js_prop response (js ''totalSize'')) (js_prop d (js ''size'')) \<or>
        int (length bs) \<noteq> min (js_int (request_field request ''length'')) (blob_size_of d - js_int (request_field request ''offset''))
     then Inl InvalidBlobResponse
     else Inr bs))"

text \<open>The requester takes exactly the bytes that the provider put into a response.\<close>

lemma blob_response_roundtrip:
  assumes "create_blob_response request d bs = Inr response" "request_field request ''requestId'' = JStr i"
    and "request_field request ''offset'' = JNum n"
  shows "verify_blob_response response request d = Inr bs"
proof -
  have v: "validate_blob_descriptor d = Inr d" using assms(1)
    by (auto simp: create_blob_response_def validate_blob_descriptor_def transfer_r_def bind_r_eq_Inr split: sum.splits)
  obtain b m where f: "js_prop d (js ''blobId'') = JStr b" "js_prop d (js ''size'') = JNum m"
    using v by (auto simp: validate_blob_descriptor_def valid_blob_head_def is_valid_blob_id_def bind_r_eq_Inr assert_r_eq_Inr
        split: jsval.splits elim!: js_safe.elims)
  have t: "transfer_r (Inr x) = Inr x" "identity_r (Inr y) = Inr y" for x :: jsval and y :: bytes
    by (simp_all add: transfer_r_def identity_r_def)
  show ?thesis using assms f
    by (auto simp: create_blob_response_def verify_blob_response_def v transfer_r_def identity_r_def js_or_def Let_def split: if_splits)
qed

text \<open>The ranges of a transfer make up the blob.\<close>

definition blob_offsets :: "nat \<Rightarrow> nat list" where
  "blob_offsets n = map (\<lambda>i. i * blob_chunk_bytes) [0..<(n + blob_chunk_bytes - 1) div blob_chunk_bytes]"

lemma concat_slices: "concat (map (\<lambda>i. take c (drop (i * c) xs)) [0..<k]) = take (k * c) xs"
proof (induction k)
  case (Suc k)
  have "take (Suc k * c) xs = take (k * c + c) xs" by (simp add: add.commute)
  then show ?case using Suc by (simp only: take_add) simp
qed simp

lemma transfer_ranges: "concat (map (\<lambda>offset. take blob_chunk_bytes (drop offset bs)) (blob_offsets (length bs))) = bs"
proof -
  let ?c = blob_chunk_bytes
  have "0 < ?c" by (simp add: blob_chunk_bytes_def)
  then have "length bs \<le> (length bs + ?c - 1) div ?c * ?c"
    using div_mult_mod_eq [of "length bs + ?c - 1" ?c] mod_less_divisor [of ?c "length bs + ?c - 1"] by linarith
  then show ?thesis using concat_slices [of ?c bs] by (simp add: blob_offsets_def comp_def)
qed

end
