(* ===== verification/Directory.thy ===== *)
theory Directory
  imports Signed_Records "HOL-Library.Sublist"
begin

text \<open>
  The directory of a person (\<open>packages/mesh-directory/src/index.ts\<close>): contacts with their devices, endpoints and wake
  targets, references to rooms, and contact cards. A directory is an Automerge document; here it is a plain value, a
  change is an update of it, and loading and merging are parameters, as for conversations. The URL parser, \<open>TextDecoder\<close>
  and \<open>JSON.parse\<close>, and the Rust runtime's checks of device routes are parameters too.
\<close>

record wake_url =
  wu_protocol :: jstring
  wu_username :: jstring
  wu_password :: jstring
  wu_search :: jstring
  wu_hash :: jstring
  wu_pathname :: jstring
  wu_origin :: jstring

datatype directory_error =
    ChatFault chat_error | LabelTooLong | InvalidIso | InvalidWakeCapability | InvalidWakeSecret | InvalidWakeServiceUrl
  | InvalidWakePerson | InvalidWakeTarget | InvalidWakeTimestamp | InvalidWakeSignature | SelfContact | EmptyEndpoint
  | ContactDeviceMissing | InvalidWakeOwner | ContactNotFound | OwnerNotInRoom | DirectNeedsTwo | GroupNeedsTwo
  | InvalidDirectory | InvalidContactIdentity | InvalidContactEndpoint | InvalidRoomReference | InvalidDirectRoom
  | InvalidGroupRoom | OwnerMismatch | InvalidRendezvous | InvalidCardEndpoint | InvalidCard | InvalidLocatorCard
  | InvalidRouteCard | InvalidCardSignature | RouteExpired | LinkExpired | RouteFault nat

record directory_env = chat_env +
  de_url :: "jstring \<Rightarrow> wake_url option"
  de_decode :: "bytes \<Rightarrow> jstring"
  de_json_parse :: "jstring \<Rightarrow> jsval option"
  de_route_payload :: "jsval \<Rightarrow> directory_error + unit"
  de_route :: "jsval \<Rightarrow> jsval \<Rightarrow> int \<Rightarrow> bool \<Rightarrow> directory_error + unit"

definition contact_card_domain :: jstring where "contact_card_domain = js ''TWANG-CONTACT-CARD/1''"
definition contact_locator_domain :: jstring where "contact_locator_domain = js ''TWANG-CONTACT-LOCATOR/1''"
definition wake_target_domain :: jstring where "wake_target_domain = js ''TWANG-WAKE-TARGET/1''"

definition chat_r :: "chat_error + 'a \<Rightarrow> directory_error + 'a" where
  "chat_r m = (case m of Inl e \<Rightarrow> Inl (ChatFault e) | Inr x \<Rightarrow> Inr x)"

section \<open>Labels, times and wake values\<close>

text \<open>\<open>[...label].length\<close>: the label is the text, or the fallback, which need not be a string.\<close>

definition label_length :: "jsval \<Rightarrow> directory_error + nat" where
  "label_length v =
     (case v of JStr s \<Rightarrow> Inr (code_points s) | JArr vs \<Rightarrow> Inr (length vs) | JBytes bs \<Rightarrow> Inr (length bs)
      | _ \<Rightarrow> Inl (ChatFault ValueFault))"

definition clean_label :: "jstring \<Rightarrow> jsval \<Rightarrow> directory_error + jsval" where
  "clean_label s fallback =
     (let t = collapse_space (js_trim s); label = (if t \<noteq> [] then JStr t else fallback) in
      bind_r (label_length label) (\<lambda>n. if 120 < n then Inl LabelTooLong else Inr label))"

definition directory_iso :: "'m chat_env_scheme \<Rightarrow> int \<Rightarrow> directory_error + jstring" where
  "directory_iso env now =
     bind_r (chat_r (iso_text env now)) (\<lambda>t.
     bind_r (assert_r (ch_parse env (JStr t) \<noteq> None) InvalidIso) (\<lambda>_. Inr t))"

text \<open>\<open>String(value)\<close>: an object with its own property \<open>toString\<close>, which is data and no function, throws
  (\<open>None\<close>).\<close>

fun js_string :: "(64 word \<Rightarrow> jstring) \<Rightarrow> jsval \<Rightarrow> jstring option"
  and string_items :: "(64 word \<Rightarrow> jstring) \<Rightarrow> jsval list \<Rightarrow> jstring list option" where
  "js_string fmt (JArr vs) = map_option join_comma (string_items fmt vs)"
| "js_string fmt (JObj ps) = (if js ''toString'' \<in> fst ` set ps then None else Some (js ''[object Object]''))"
| "js_string fmt (JBytes bs) = Some (join_comma (map (\<lambda>b. dec_nat (unat b)) bs))"
| "js_string fmt (JStr s) = Some s"
| "js_string fmt (JNum n) = Some (dec_int n)"
| "js_string fmt (JNumOther w) = Some (fmt w)"
| "js_string fmt (JBool b) = Some (if b then js ''true'' else js ''false'')"
| "js_string fmt JUndef = Some (js ''undefined'')"
| "js_string fmt JNull = Some (js ''null'')"
| "string_items fmt [] = Some []"
| "string_items fmt (v # vs) =
     (case (if v = JUndef \<or> v = JNull then Some [] else js_string fmt v) of
        None \<Rightarrow> None
      | Some t \<Rightarrow> map_option (Cons t) (string_items fmt vs))"

definition validate_wake_value :: "'m mesh_crypto_scheme \<Rightarrow> jsval \<Rightarrow> directory_error \<Rightarrow> directory_error + jsval" where
  "validate_wake_value cr v e =
     (case js_string (cr_number cr) v of
        None \<Rightarrow> Inl (ChatFault ValueFault)
      | Some t \<Rightarrow> if 16 \<le> length t \<and> length t \<le> 128 \<and> list_all url_unit t then Inr v else Inl e)"

text \<open>\<open>value.length > 2048\<close>, for values whose text can be a URL.\<close>

definition long_url :: "jsval \<Rightarrow> bool" where
  "long_url v \<longleftrightarrow> (case v of JStr s \<Rightarrow> 2048 < length s | JArr vs \<Rightarrow> 2048 < length vs | _ \<Rightarrow> False)"

definition wake_url_ok :: "wake_url \<Rightarrow> bool" where
  "wake_url_ok u \<longleftrightarrow>
     wu_protocol u = js ''https:'' \<and> wu_username u = [] \<and> wu_password u = [] \<and> wu_search u = [] \<and> wu_hash u = [] \<and>
     wu_pathname u = js ''/''"

definition validate_wake_service_url :: "'m directory_env_scheme \<Rightarrow> jsval \<Rightarrow> directory_error + jstring" where
  "validate_wake_service_url env v =
     (if v = JUndef \<or> v = JNull then Inl (ChatFault ValueFault)
      else if long_url v then Inl InvalidWakeServiceUrl
      else
        (case Option.bind (js_string (cr_number env) v) (de_url env) of
           None \<Rightarrow> Inl InvalidWakeServiceUrl
         | Some u \<Rightarrow> if wake_url_ok u then Inr (wu_origin u) else Inl InvalidWakeServiceUrl))"

section \<open>Wake targets\<close>

definition create_wake_target_card ::
  "'m directory_env_scheme \<Rightarrow> local_profile \<Rightarrow> jstring \<Rightarrow> jstring \<Rightarrow> jstring \<Rightarrow> jstring \<Rightarrow> int \<Rightarrow> directory_error + jsval" where
  "create_wake_target_card env profile target_person service_url capability secret now =
     bind_r (assert_r (target_person \<noteq> [] \<and> \<not> js_eq (JStr target_person) (person_of (lp_identity profile))) InvalidWakePerson) (\<lambda>_.
     bind_r (validate_wake_service_url env (JStr service_url)) (\<lambda>url.
     bind_r (validate_wake_value env (JStr capability) InvalidWakeCapability) (\<lambda>c.
     bind_r (validate_wake_value env (JStr secret) InvalidWakeSecret) (\<lambda>s.
     bind_r (directory_iso env now) (\<lambda>issued.
     bind_r (chat_r (identity_r (sign_envelope env (lp_device_key profile)
       (JObj [(js ''kind'', JStr (js ''wake-target'')), (js ''version'', JNum 1),
         (js ''personId'', person_of (lp_identity profile)), (js ''deviceId'', JStr (lp_device profile)),
         (js ''targetPersonId'', JStr target_person), (js ''serviceUrl'', JStr url), (js ''capabilityId'', c),
         (js ''secret'', s), (js ''issuedAt'', JStr issued)])
       (lp_device profile) wake_target_domain))) (\<lambda>signed.
     Inr (JObj [(js ''signed'', signed), (js ''identity'', js_clone (lp_identity profile)),
       (js ''certificates'', JArr [js_clone (lp_certificate profile)])])))))))"

definition wake_head :: "jsval \<Rightarrow> jsval \<Rightarrow> jsval \<Rightarrow> bool" where
  "wake_head contact_card p target_person \<longleftrightarrow>
     js_truthy p \<and> js_prop p (js ''kind'') = JStr (js ''wake-target'') \<and> js_prop p (js ''version'') = JNum 1 \<and>
     js_truthy (person_of p) \<and> js_truthy (js_prop p (js ''deviceId'')) \<and>
     js_eq (js_prop p (js ''targetPersonId'')) target_person \<and>
     js_eq (person_of (js_prop contact_card (js ''identity''))) (person_of p) \<and>
     js_eq (js_prop (js_prop contact_card (js ''signed'')) (js ''signerKeyId'')) (js_prop p (js ''deviceId'')) \<and>
     is_array (js_prop contact_card (js ''certificates''))"

definition wake_time_ok :: "'m chat_env_scheme \<Rightarrow> jsval \<Rightarrow> int \<Rightarrow> bool" where
  "wake_time_ok env v now \<longleftrightarrow>
     (case ch_parse env v of None \<Rightarrow> False | Some t \<Rightarrow> v = JStr (ch_iso env t) \<and> t \<le> now + 5 * 60000)"

definition verify_wake_target_card ::
  "'m directory_env_scheme \<Rightarrow> jsval \<Rightarrow> jsval \<Rightarrow> int \<Rightarrow> directory_error + jsval" where
  "verify_wake_target_card env contact_card target_person now =
     (let p = js_prop (js_prop contact_card (js ''signed'')) (js ''payload'') in
      bind_r (assert_r (wake_head contact_card p target_person) InvalidWakeTarget) (\<lambda>_.
      bind_r (validate_wake_service_url env (js_prop p (js ''serviceUrl''))) (\<lambda>_.
      bind_r (validate_wake_value env (js_prop p (js ''capabilityId'')) InvalidWakeCapability) (\<lambda>_.
      bind_r (validate_wake_value env (js_prop p (js ''secret'')) InvalidWakeSecret) (\<lambda>_.
      bind_r (assert_r (wake_time_ok env (js_prop p (js ''issuedAt'')) now) InvalidWakeTimestamp) (\<lambda>_.
      bind_r (chat_r (verify_device env (js_prop contact_card (js ''identity'')) (js_prop p (js ''deviceId''))
        (js_prop contact_card (js ''certificates'')))) (\<lambda>key.
      bind_r (chat_r (identity_r (verify_envelope env (js_prop contact_card (js ''signed'')) key wake_target_domain))) (\<lambda>ok.
      if ok then Inr contact_card else Inl InvalidWakeSignature))))))))"

section \<open>Contacts\<close>

definition create_directory :: "local_profile \<Rightarrow> jsval" where
  "create_directory profile =
     JObj [(js ''kind'', JStr (js ''directory'')), (js ''version'', JNum 1), (js ''ownerPersonId'', person_of (lp_identity profile)),
       (js ''contacts'', JObj []), (js ''rooms'', JObj [])]"

abbreviation owner_of :: "jsval \<Rightarrow> jsval" where
  "owner_of doc \<equiv> js_prop doc (js ''ownerPersonId'')"

abbreviation contacts_of :: "jsval \<Rightarrow> jsval" where
  "contacts_of doc \<equiv> js_prop doc (js ''contacts'')"

abbreviation rooms_of :: "jsval \<Rightarrow> jsval" where
  "rooms_of doc \<equiv> js_prop doc (js ''rooms'')"

record contact_input =
  cn_identity :: jsval
  cn_certificates :: "jsval list"
  cn_endpoint :: jstring
  cn_wake :: jsval
  cn_alias :: "jstring option"
  cn_state :: jstring
  cn_now :: int

text \<open>\<open>certificates[0]?.payload.deviceId\<close>.\<close>

definition first_device :: "jsval list \<Rightarrow> directory_error + jsval" where
  "first_device cs = (case cs of [] \<Rightarrow> Inr JUndef | c # _ \<Rightarrow> chat_r (identity_r (get_device c)))"

text \<open>\<open>clone(previous?.endpoints ?? []).filter(value => value.deviceId !== deviceId)\<close> and the same for certificates.\<close>

fun other_endpoints :: "jsval \<Rightarrow> jsval list \<Rightarrow> directory_error + jsval list" where
  "other_endpoints d [] = Inr []"
| "other_endpoints d (e # es) =
     bind_r (chat_r (get_r e (js ''deviceId''))) (\<lambda>i.
     bind_r (other_endpoints d es) (\<lambda>rest. Inr (if js_eq i d then rest else e # rest)))"

fun other_certificates :: "jsval \<Rightarrow> jsval list \<Rightarrow> directory_error + jsval list" where
  "other_certificates d [] = Inr []"
| "other_certificates d (c # cs) =
     bind_r (chat_r (identity_r (get_device c))) (\<lambda>i.
     bind_r (other_certificates d cs) (\<lambda>rest. Inr (if js_eq i d then rest else c # rest)))"

definition stored_list :: "jsval \<Rightarrow> jstring \<Rightarrow> directory_error + jsval list" where
  "stored_list previous k =
     (case js_clone (js_or (js_prop previous k) (JArr [])) of JArr vs \<Rightarrow> Inr vs | _ \<Rightarrow> Inl (ChatFault ValueFault))"

text \<open>Endpoints are sorted by their device ids, which are strings.\<close>

definition sort_endpoints :: "'m chat_env_scheme \<Rightarrow> jsval list \<Rightarrow> directory_error + jsval list" where
  "sort_endpoints env es =
     (if list_all (\<lambda>e. is_str (js_prop e (js ''deviceId''))) es
      then Inr (js_sort (\<lambda>a b. ch_locale env (js_text (js_prop a (js ''deviceId''))) (js_text (js_prop b (js ''deviceId''))) \<le> 0) es)
      else Inl (ChatFault ValueFault))"

definition contact_endpoints ::
  "'m chat_env_scheme \<Rightarrow> jsval \<Rightarrow> jsval \<Rightarrow> jstring \<Rightarrow> directory_error + jsval list" where
  "contact_endpoints env previous device endpoint =
     bind_r (stored_list previous (js ''endpoints'')) (\<lambda>es.
     bind_r (other_endpoints device es) (\<lambda>rest.
     sort_endpoints env (rest @ [JObj [(js ''deviceId'', device), (js ''endpoint'', JStr (js_trim endpoint))]])))"

definition contact_certificates :: "jsval \<Rightarrow> jsval \<Rightarrow> jsval list \<Rightarrow> directory_error + jsval list" where
  "contact_certificates previous device certificates =
     bind_r (stored_list previous (js ''certificates'')) (\<lambda>cs.
     bind_r (other_certificates device cs) (\<lambda>rest. Inr (rest @ clone_list certificates)))"

definition contact_wake :: "'m directory_env_scheme \<Rightarrow> jsval \<Rightarrow> jsval \<Rightarrow> contact_input \<Rightarrow> directory_error + jsval" where
  "contact_wake env doc previous i =
     bind_r (if js_truthy (cn_wake i) then verify_wake_target_card env (cn_wake i) (owner_of doc) (cn_now i)
       else Inr (js_prop previous (js ''wake''))) (\<lambda>wake.
     if \<not> js_truthy wake then Inr wake
     else
       bind_r (chat_r (get_r (js_prop wake (js ''identity'')) (js ''personId''))) (\<lambda>person.
       bind_r (assert_r (js_eq person (person_of (cn_identity i))) InvalidWakeOwner) (\<lambda>_. Inr wake)))"

definition contact_record ::
  "jsval \<Rightarrow> jsval \<Rightarrow> jsval list \<Rightarrow> jsval \<Rightarrow> jsval list \<Rightarrow> jsval \<Rightarrow> jstring \<Rightarrow> jsval \<Rightarrow> jstring \<Rightarrow> jsval" where
  "contact_record person identity certificates alias endpoints wake state created updated =
     JObj ([(js ''personId'', person), (js ''identity'', js_clone identity), (js ''certificates'', JArr certificates),
       (js ''alias'', alias), (js ''endpoints'', JArr endpoints)] @
       (if js_truthy wake then [(js ''wake'', js_clone wake)] else []) @
       [(js ''state'', JStr state), (js ''createdAt'', created), (js ''updatedAt'', JStr updated)])"

definition set_contact :: "jstring \<Rightarrow> jsval \<Rightarrow> jsval \<Rightarrow> jsval" where
  "set_contact person contact doc = obj_set (js ''contacts'') (obj_set person contact (contacts_of doc)) doc"

definition put_contact :: "'m directory_env_scheme \<Rightarrow> jsval \<Rightarrow> contact_input \<Rightarrow> directory_error + jsval" where
  "put_contact env doc i =
     bind_r (chat_r (get_r (cn_identity i) (js ''personId''))) (\<lambda>person.
     bind_r (assert_r (\<not> js_eq person (owner_of doc)) SelfContact) (\<lambda>_.
     bind_r (assert_r (js_trim (cn_endpoint i) \<noteq> []) EmptyEndpoint) (\<lambda>_.
     bind_r (first_device (cn_certificates i)) (\<lambda>device.
     bind_r (chat_r (verify_device env (cn_identity i) device (JArr (cn_certificates i)))) (\<lambda>_.
     bind_r (chat_r (get_r (contacts_of doc) (js_text person))) (\<lambda>previous.
     bind_r (assert_r (js_truthy device) ContactDeviceMissing) (\<lambda>_.
     bind_r (directory_iso env (cn_now i)) (\<lambda>updated.
     bind_r (contact_endpoints env previous device (cn_endpoint i)) (\<lambda>endpoints.
     bind_r (contact_certificates previous device (cn_certificates i)) (\<lambda>certificates.
     bind_r (contact_wake env doc previous i) (\<lambda>wake.
     bind_r (clean_label (case cn_alias i of None \<Rightarrow> [] | Some a \<Rightarrow> a) (js_prop (cn_identity i) (js ''displayName''))) (\<lambda>alias.
     Inr (set_contact (js_text person) (contact_record person (cn_identity i) certificates alias endpoints wake (cn_state i)
       (js_or (js_prop previous (js ''createdAt'')) (JStr updated)) updated) doc)))))))))))))"

definition rename_contact :: "'m chat_env_scheme \<Rightarrow> jsval \<Rightarrow> jstring \<Rightarrow> jstring \<Rightarrow> int \<Rightarrow> directory_error + jsval" where
  "rename_contact env doc person alias now =
     bind_r (chat_r (get_r (contacts_of doc) person)) (\<lambda>contact.
     bind_r (assert_r (js_truthy contact) ContactNotFound) (\<lambda>_.
     bind_r (chat_r (get_r (js_prop contact (js ''identity'')) (js ''displayName''))) (\<lambda>fallback.
     bind_r (clean_label alias fallback) (\<lambda>label.
     bind_r (directory_iso env now) (\<lambda>updated.
     Inr (set_contact person (obj_set (js ''updatedAt'') (JStr updated) (obj_set (js ''alias'') label contact)) doc))))))"

definition remove_contact :: "jsval \<Rightarrow> jstring \<Rightarrow> directory_error + jsval" where
  "remove_contact doc person =
     bind_r (chat_r (get_r (contacts_of doc) person)) (\<lambda>contact.
     Inr (if js_truthy contact then obj_set (js ''contacts'') (obj_del person (contacts_of doc)) doc else doc))"

section \<open>Rooms\<close>

record room_input =
  ri_room :: jstring
  ri_kind :: jstring
  ri_title :: jstring
  ri_participants :: "jstring list"

definition put_room :: "'m chat_env_scheme \<Rightarrow> jsval \<Rightarrow> room_input \<Rightarrow> int \<Rightarrow> directory_error + jsval" where
  "put_room env doc room now =
     (let participants = sort (js_uniq (ri_participants room)) in
      bind_r (assert_r (owner_of doc \<in> JStr ` set participants) OwnerNotInRoom) (\<lambda>_.
      bind_r (assert_r (ri_kind room = js ''direct'' \<longrightarrow> length participants = 2) DirectNeedsTwo) (\<lambda>_.
      bind_r (assert_r (ri_kind room = js ''group'' \<longrightarrow> 2 \<le> length participants) GroupNeedsTwo) (\<lambda>_.
      bind_r (clean_label (ri_title room) (JStr (if ri_kind room = js ''group'' then js ''Untitled group'' else js ''Direct''))) (\<lambda>title.
      bind_r (directory_iso env now) (\<lambda>updated.
      Inr (obj_set (js ''rooms'') (obj_set (ri_room room)
        (JObj [(js ''roomId'', JStr (ri_room room)), (js ''kind'', JStr (ri_kind room)), (js ''title'', title),
          (js ''participantPersonIds'', JArr (map JStr participants)), (js ''updatedAt'', JStr updated)]) (rooms_of doc)) doc))))))) "

section \<open>Verification\<close>

text \<open>\<open>for (const item of value)\<close>. The characters of a string have no properties, as the items of a byte array.\<close>

definition for_of :: "jsval \<Rightarrow> directory_error + jsval list" where
  "for_of v =
     (case v of JArr vs \<Rightarrow> Inr vs | JStr s \<Rightarrow> Inr (map (\<lambda>c. JStr [c]) s) | JBytes bs \<Rightarrow> Inr (map (\<lambda>b. JNum (uint b)) bs)
      | _ \<Rightarrow> Inl (ChatFault ValueFault))"

fun verify_endpoints :: "jsval list \<Rightarrow> jsval list \<Rightarrow> directory_error + unit" where
  "verify_endpoints certificates [] = Inr ()"
| "verify_endpoints certificates (e # es) =
     bind_r (chat_r (get_r e (js ''endpoint''))) (\<lambda>endpoint.
     bind_r (assert_r (js_truthy endpoint) InvalidContactEndpoint) (\<lambda>_.
     bind_r (chat_r (some_device (js_prop e (js ''deviceId'')) certificates)) (\<lambda>known.
     bind_r (assert_r known InvalidContactEndpoint) (\<lambda>_.
     verify_endpoints certificates es))))"

text \<open>\<open>contact.certificates[0]?.payload.deviceId\<close>; certificates that are no array are refused by the verification that
  follows.\<close>

definition contact_device :: "jsval \<Rightarrow> directory_error + jsval" where
  "contact_device certificates =
     (if certificates = JUndef \<or> certificates = JNull then Inl (ChatFault ValueFault) else first_device (js_list certificates))"

definition verify_contact :: "'m directory_env_scheme \<Rightarrow> jsval \<Rightarrow> int \<Rightarrow> jstring \<Rightarrow> jsval \<Rightarrow> directory_error + unit" where
  "verify_contact env owner now person contact =
     bind_r (chat_r (get_r contact (js ''personId''))) (\<lambda>i.
     bind_r (assert_r (i = JStr person) InvalidContactIdentity) (\<lambda>_.
     bind_r (chat_r (get_r (js_prop contact (js ''identity'')) (js ''personId''))) (\<lambda>j.
     bind_r (assert_r (j = JStr person \<and> JStr person \<noteq> owner) InvalidContactIdentity) (\<lambda>_.
     let certificates = js_prop contact (js ''certificates'') in
     bind_r (contact_device certificates) (\<lambda>device.
     bind_r (chat_r (verify_device env (js_prop contact (js ''identity'')) device certificates)) (\<lambda>_.
     bind_r (for_of (js_prop contact (js ''endpoints''))) (\<lambda>endpoints.
     bind_r (verify_endpoints (js_list certificates) endpoints) (\<lambda>_.
     if js_truthy (js_prop contact (js ''wake'')) then
       bind_r (verify_wake_target_card env (js_prop contact (js ''wake'')) owner now) (\<lambda>wake.
       assert_r (js_eq (person_of (js_prop wake (js ''identity''))) (js_prop contact (js ''personId''))) InvalidWakeOwner)
     else Inr ()))))))))"

fun verify_contacts ::
  "'m directory_env_scheme \<Rightarrow> jsval \<Rightarrow> int \<Rightarrow> (jstring \<times> jsval) list \<Rightarrow> directory_error + unit" where
  "verify_contacts env owner now [] = Inr ()"
| "verify_contacts env owner now ((person, contact) # rest) =
     bind_r (verify_contact env owner now person contact) (\<lambda>_. verify_contacts env owner now rest)"

text \<open>\<open>value.includes(item)\<close> and \<open>value.length\<close>, on an array or a string.\<close>

definition includes_r :: "'m mesh_crypto_scheme \<Rightarrow> jsval \<Rightarrow> jsval \<Rightarrow> directory_error + bool \<times> nat" where
  "includes_r cr v item =
     (case v of
        JArr vs \<Rightarrow> Inr (list_ex (\<lambda>w. js_eq w item) vs, length vs)
      | JStr s \<Rightarrow>
          (case js_string (cr_number cr) item of
             None \<Rightarrow> Inl (ChatFault ValueFault)
           | Some t \<Rightarrow> Inr (sublist t s, length s))
      | _ \<Rightarrow> Inl (ChatFault ValueFault))"

fun verify_rooms :: "'m mesh_crypto_scheme \<Rightarrow> jsval \<Rightarrow> (jstring \<times> jsval) list \<Rightarrow> directory_error + unit" where
  "verify_rooms cr owner [] = Inr ()"
| "verify_rooms cr owner ((room_id, room) # rest) =
     bind_r (chat_r (get_r room (js ''roomId''))) (\<lambda>i.
     bind_r (assert_r (i = JStr room_id) InvalidRoomReference) (\<lambda>_.
     bind_r (includes_r cr (js_prop room (js ''participantPersonIds'')) owner) (\<lambda>(member, n).
     bind_r (assert_r member InvalidRoomReference) (\<lambda>_.
     bind_r (assert_r (js_prop room (js ''kind'') = JStr (js ''direct'') \<longrightarrow> n = 2) InvalidDirectRoom) (\<lambda>_.
     bind_r (assert_r (js_prop room (js ''kind'') = JStr (js ''group'') \<longrightarrow> 2 \<le> n) InvalidGroupRoom) (\<lambda>_.
     verify_rooms cr owner rest))))))"

definition directory_head :: "jsval \<Rightarrow> bool" where
  "directory_head doc \<longleftrightarrow>
     js_truthy doc \<and> js_prop doc (js ''kind'') = JStr (js ''directory'') \<and> js_prop doc (js ''version'') = JNum 1 \<and>
     js_truthy (owner_of doc) \<and> js_truthy (contacts_of doc) \<and> js_truthy (rooms_of doc)"

definition verify_directory :: "'m directory_env_scheme \<Rightarrow> jsval \<Rightarrow> int \<Rightarrow> directory_error + jsval" where
  "verify_directory env doc now =
     bind_r (assert_r (directory_head doc) InvalidDirectory) (\<lambda>_.
     bind_r (verify_contacts env (owner_of doc) now (js_entries (contacts_of doc))) (\<lambda>_.
     bind_r (verify_rooms env (owner_of doc) (js_entries (rooms_of doc))) (\<lambda>_. Inr doc)))"

definition merge_directories :: "'m directory_env_scheme \<Rightarrow> jsval \<Rightarrow> bytes \<Rightarrow> int \<Rightarrow> directory_error + jsval" where
  "merge_directories env local_doc remote_bytes now =
     (case ch_load env remote_bytes of
        None \<Rightarrow> Inl (ChatFault LoadFault)
      | Some remote \<Rightarrow>
          if \<not> js_eq (owner_of remote) (owner_of local_doc) then Inl OwnerMismatch
          else verify_directory env (ch_merge env local_doc remote) now)"

definition directory_contacts :: "'m chat_env_scheme \<Rightarrow> jsval \<Rightarrow> jsval list" where
  "directory_contacts env doc =
     (let field = (\<lambda>k v. js_text (js_prop v k)) in
      js_sort (\<lambda>a b. let d = ch_locale env (field (js ''alias'') a) (field (js ''alias'') b) in
        if d \<noteq> 0 then d < 0 else ch_locale env (field (js ''personId'') a) (field (js ''personId'') b) \<le> 0)
        (map snd (js_entries (contacts_of doc))))"

definition directory_rooms :: "'m chat_env_scheme \<Rightarrow> jsval \<Rightarrow> jsval list" where
  "directory_rooms env doc =
     (let field = (\<lambda>k v. js_text (js_prop v k)) in
      js_sort (\<lambda>a b. let d = ch_locale env (field (js ''updatedAt'') b) (field (js ''updatedAt'') a) in
        if d \<noteq> 0 then d < 0 else ch_locale env (field (js ''roomId'') a) (field (js ''roomId'') b) \<le> 0)
        (map snd (js_entries (rooms_of doc))))"

section \<open>Contact cards\<close>

definition encode_contact_card :: "'m mesh_crypto_scheme \<Rightarrow> jsval \<Rightarrow> jstring" where
  "encode_contact_card cr contact_card =
     js ''twang:'' @ to_base64url (utf8 (case stringify (cr_number cr) contact_card of None \<Rightarrow> js ''undefined'' | Some t \<Rightarrow> t))"

definition create_contact_locator :: "'m chat_env_scheme \<Rightarrow> local_profile \<Rightarrow> jstring \<Rightarrow> int \<Rightarrow> directory_error + jsval" where
  "create_contact_locator env profile rendezvous now =
     (let v = js_trim rendezvous in
      bind_r (assert_r (v \<noteq> [] \<and> length v \<le> 2048) InvalidRendezvous) (\<lambda>_.
      bind_r (chat_r (iso_text env now)) (\<lambda>published.
      bind_r (chat_r (identity_r (sign_envelope env (lp_device_key profile)
        (JObj [(js ''kind'', JStr (js ''contact-locator'')), (js ''version'', JNum 1),
          (js ''personId'', person_of (lp_identity profile)), (js ''deviceId'', JStr (lp_device profile)),
          (js ''rendezvousEndpoint'', JStr v), (js ''publishedAt'', JStr published)])
        (lp_device profile) contact_locator_domain))) (\<lambda>signed.
      Inr (JObj [(js ''kind'', JStr (js ''twang-contact'')), (js ''version'', JNum 3), (js ''identity'', js_clone (lp_identity profile)),
        (js ''certificates'', JArr [js_clone (lp_certificate profile)]), (js ''deviceId'', JStr (lp_device profile)),
        (js ''rendezvousEndpoint'', JStr v), (js ''publishedAt'', JStr published), (js ''signed'', signed)])))))"

text \<open>\<open>createContactCard\<close> with a time: a card of version 1.\<close>

definition create_contact_card :: "'m chat_env_scheme \<Rightarrow> local_profile \<Rightarrow> jstring \<Rightarrow> int \<Rightarrow> directory_error + jsval" where
  "create_contact_card env profile endpoint now =
     (let v = js_trim endpoint in
      bind_r (assert_r (v \<noteq> [] \<and> length v \<le> 2048) InvalidCardEndpoint) (\<lambda>_.
      bind_r (chat_r (iso_text env now)) (\<lambda>created.
      bind_r (chat_r (identity_r (sign_envelope env (lp_device_key profile)
        (JObj [(js ''kind'', JStr (js ''contact-card'')), (js ''version'', JNum 1),
          (js ''personId'', person_of (lp_identity profile)), (js ''deviceId'', JStr (lp_device profile)),
          (js ''endpoint'', JStr v), (js ''createdAt'', JStr created)])
        (lp_device profile) contact_card_domain))) (\<lambda>signed.
      Inr (JObj [(js ''kind'', JStr (js ''twang-contact'')), (js ''version'', JNum 1), (js ''identity'', js_clone (lp_identity profile)),
        (js ''certificates'', JArr [js_clone (lp_certificate profile)]), (js ''deviceId'', JStr (lp_device profile)),
        (js ''endpoint'', JStr v), (js ''signed'', signed)])))))"

text \<open>\<open>createContactCard\<close> with options: a card of version 2 around a signed device route
  (\<open>packages/mesh-replication/src/protocol.ts\<close>), whose payload the Rust runtime validates.\<close>

definition create_signed_device_route ::
  "'m directory_env_scheme \<Rightarrow> local_profile \<Rightarrow> (jstring \<times> jsval) list \<Rightarrow> directory_error + jsval" where
  "create_signed_device_route env profile input =
     (let payload = JObj ([(js ''kind'', JStr (js ''mesh-device-route'')), (js ''version'', JNum 1),
        (js ''personId'', person_of (lp_identity profile)), (js ''deviceId'', JStr (lp_device profile))] @ input) in
      bind_r (de_route_payload env payload) (\<lambda>_.
      chat_r (identity_r (sign_envelope env (lp_device_key profile) payload (lp_device profile) (js ''META-MESH-ROUTE/1'')))))"

definition create_contact_route ::
  "'m directory_env_scheme \<Rightarrow> local_profile \<Rightarrow> jstring \<Rightarrow> jstring \<Rightarrow> int \<Rightarrow> int \<Rightarrow> int \<Rightarrow> directory_error + jsval" where
  "create_contact_route env profile endpoint instance_id sequence now lifetime_ms =
     (let v = js_trim endpoint in
      bind_r (assert_r (v \<noteq> [] \<and> length v \<le> 2048) InvalidCardEndpoint) (\<lambda>_.
      bind_r (chat_r (iso_text env now)) (\<lambda>issued.
      bind_r (chat_r (iso_text env (now + lifetime_ms))) (\<lambda>expires.
      bind_r (create_signed_device_route env profile
        [(js ''scopeId'', JStr (js ''twang:contact:'' @ js_text (person_of (lp_identity profile)))), (js ''instanceId'', JStr instance_id),
         (js ''endpoint'', JStr v), (js ''sequence'', JNum sequence), (js ''issuedAt'', JStr issued), (js ''expiresAt'', JStr expires)]) (\<lambda>signed.
      Inr (JObj [(js ''kind'', JStr (js ''twang-contact'')), (js ''version'', JNum 2), (js ''identity'', js_clone (lp_identity profile)),
        (js ''certificates'', JArr [js_clone (lp_certificate profile)]), (js ''deviceId'', JStr (lp_device profile)),
        (js ''instanceId'', JStr instance_id), (js ''endpoint'', JStr v), (js ''sequence'', JNum sequence),
        (js ''issuedAt'', JStr issued), (js ''expiresAt'', JStr expires), (js ''signed'', signed)]))))))"

definition parse_contact_card :: "'m directory_env_scheme \<Rightarrow> jstring \<Rightarrow> directory_error + jsval" where
  "parse_contact_card env value =
     (let t = js_trim value; encoded = (if starts_with (js ''twang:'') t then drop 6 t else t) in
      case from_base64url encoded of
        None \<Rightarrow> Inl InvalidCard
      | Some bytes \<Rightarrow> (case de_json_parse env (de_decode env bytes) of None \<Rightarrow> Inl InvalidCard | Some contact_card \<Rightarrow> Inr contact_card))"

abbreviation card_payload :: "jsval \<Rightarrow> jsval" where
  "card_payload contact_card \<equiv> js_prop (js_prop contact_card (js ''signed'')) (js ''payload'')"

text \<open>The fields of a card that its signed payload repeats.\<close>

definition card_repeats :: "jsval \<Rightarrow> jstring list \<Rightarrow> bool" where
  "card_repeats contact_card keys \<longleftrightarrow> list_all (\<lambda>k. js_eq (js_prop (card_payload contact_card) k) (js_prop contact_card k)) keys"

definition card_bound :: "jsval \<Rightarrow> bool" where
  "card_bound contact_card \<longleftrightarrow>
     js_eq (person_of (card_payload contact_card)) (person_of (js_prop contact_card (js ''identity''))) \<and> card_repeats contact_card [js ''deviceId'']"

definition card_signed_by_device :: "'m mesh_crypto_scheme \<Rightarrow> jsval \<Rightarrow> jsval \<Rightarrow> jstring \<Rightarrow> directory_error \<Rightarrow> directory_error + unit" where
  "card_signed_by_device cr contact_card key domain e =
     bind_r (assert_r (js_eq (js_prop (js_prop contact_card (js ''signed'')) (js ''signerKeyId'')) (js_prop contact_card (js ''deviceId''))) e) (\<lambda>_.
     bind_r (chat_r (identity_r (verify_envelope cr (js_prop contact_card (js ''signed'')) key domain))) (\<lambda>ok. assert_r ok e))"

definition verify_locator_card :: "'m directory_env_scheme \<Rightarrow> jsval \<Rightarrow> jsval \<Rightarrow> int \<Rightarrow> directory_error + unit" where
  "verify_locator_card env contact_card key now =
     bind_r (assert_r (wake_time_ok env (js_prop contact_card (js ''publishedAt'')) now) InvalidLocatorCard) (\<lambda>_.
     bind_r (assert_r (js_truthy (js_prop contact_card (js ''rendezvousEndpoint'')) \<and>
       js_prop (card_payload contact_card) (js ''kind'') = JStr (js ''contact-locator'') \<and> js_prop (card_payload contact_card) (js ''version'') = JNum 1 \<and>
       card_bound contact_card \<and> card_repeats contact_card [js ''rendezvousEndpoint'', js ''publishedAt'']) InvalidLocatorCard) (\<lambda>_.
     card_signed_by_device env contact_card key contact_locator_domain InvalidLocatorCard))"

definition verify_route_card :: "'m directory_env_scheme \<Rightarrow> jsval \<Rightarrow> jsval \<Rightarrow> int \<Rightarrow> bool \<Rightarrow> directory_error + unit" where
  "verify_route_card env contact_card key now allow_expired =
     bind_r (assert_r (js_truthy (js_prop contact_card (js ''endpoint''))) InvalidCard) (\<lambda>_.
     bind_r (assert_r (js_truthy (js_prop contact_card (js ''instanceId''))) InvalidRouteCard) (\<lambda>_.
     bind_r (chat_r (get_r (js_prop contact_card (js ''signed'')) (js ''payload''))) (\<lambda>p.
     bind_r (chat_r (get_r p (js ''scopeId''))) (\<lambda>scope.
     bind_r (assert_r (scope = JStr (js ''twang:contact:'' @ js_text (person_of (js_prop contact_card (js ''identity'')))) \<and> card_bound contact_card \<and>
       card_repeats contact_card [js ''instanceId'', js ''endpoint'', js ''sequence'', js ''issuedAt'', js ''expiresAt'']) InvalidRouteCard) (\<lambda>_.
     de_route env (js_prop contact_card (js ''signed'')) key now allow_expired)))))"

definition verify_legacy_card :: "'m directory_env_scheme \<Rightarrow> jsval \<Rightarrow> jsval \<Rightarrow> int \<Rightarrow> directory_error + unit" where
  "verify_legacy_card env contact_card key now =
     bind_r (assert_r (js_truthy (js_prop contact_card (js ''endpoint''))) InvalidCard) (\<lambda>_.
     bind_r (assert_r (js_prop (card_payload contact_card) (js ''kind'') = JStr (js ''contact-card'') \<and>
       js_prop (card_payload contact_card) (js ''version'') = JNum 1 \<and> card_bound contact_card \<and> card_repeats contact_card [js ''endpoint'']) InvalidCardSignature) (\<lambda>_.
     bind_r (card_signed_by_device env contact_card key contact_card_domain InvalidCardSignature) (\<lambda>_.
     case ch_parse env (js_prop (card_payload contact_card) (js ''createdAt'')) of
       None \<Rightarrow> Inr ()
     | Some t \<Rightarrow> assert_r (now - t \<le> 10 * 60 * 1000) RouteExpired)))"

definition decode_contact_card :: "'m directory_env_scheme \<Rightarrow> jstring \<Rightarrow> int \<Rightarrow> bool \<Rightarrow> directory_error + jsval" where
  "decode_contact_card env value now allow_expired =
     bind_r (parse_contact_card env value) (\<lambda>contact_card.
     let certificates = js_prop contact_card (js ''certificates''); device = js_prop contact_card (js ''deviceId'') in
     bind_r (assert_r (js_prop contact_card (js ''kind'') = JStr (js ''twang-contact'') \<and>
       js_prop contact_card (js ''version'') \<in> {JNum 1, JNum 2, JNum 3} \<and>
       person_of (js_prop contact_card (js ''identity'')) \<noteq> JUndef \<and> is_array certificates) InvalidCard) (\<lambda>_.
     bind_r (chat_r (some_device device (js_list certificates))) (\<lambda>known.
     bind_r (assert_r known InvalidCard) (\<lambda>_.
     bind_r (chat_r (verify_device env (js_prop contact_card (js ''identity'')) device certificates)) (\<lambda>key.
     bind_r
       (if js_prop contact_card (js ''version'') = JNum 3 then verify_locator_card env contact_card key now
        else if js_prop contact_card (js ''version'') = JNum 2 then verify_route_card env contact_card key now allow_expired
        else verify_legacy_card env contact_card key now) (\<lambda>_.
     Inr contact_card))))))"

definition decode_contact_link :: "'m directory_env_scheme \<Rightarrow> jstring \<Rightarrow> int \<Rightarrow> directory_error + jsval" where
  "decode_contact_link env value now =
     (case decode_contact_card env value now False of
        Inl e \<Rightarrow> Inl (if e = RouteExpired then LinkExpired else e)
      | Inr contact_card \<Rightarrow> Inr contact_card)"

end
