(* ===== verification/Directory_Properties.thy ===== *)
theory Directory_Properties
  imports Directory Contact_Properties
begin

text \<open>
  A verified directory stays verified under every operation, except that a contact put into it must still verify with
  the certificates that are already stored for the person; those accumulate with every put.
\<close>

section \<open>What verification depends on\<close>

lemma chat_r_Inr [simp]: "chat_r m = Inr x \<longleftrightarrow> m = Inr x" "chat_r (Inr x) = Inr x"
  by (auto simp: chat_r_def split: sum.splits)

lemma verify_contacts_iff:
  "verify_contacts env owner now es = Inr () \<longleftrightarrow> (\<forall>e \<in> set es. verify_contact env owner now (fst e) (snd e) = Inr ())"
  by (induction es) (auto simp: bind_r_eq_Inr)

lemma verify_rooms_iff:
  "verify_rooms cr owner es = Inr () \<longleftrightarrow> (\<forall>e \<in> set es. verify_rooms cr owner [e] = Inr ())"
  by (induction es) (auto simp: bind_r_eq_Inr)

lemma verify_directory_iff:
  "verify_directory env doc now = Inr d \<longleftrightarrow> d = doc \<and> directory_head doc \<and>
     (\<forall>e \<in> set (js_entries (contacts_of doc)). verify_contact env (owner_of doc) now (fst e) (snd e) = Inr ()) \<and>
     (\<forall>e \<in> set (js_entries (rooms_of doc)). verify_rooms env (owner_of doc) [e] = Inr ())"
  unfolding verify_directory_def
  by (auto simp: bind_r_eq_Inr verify_contacts_iff verify_rooms_iff [of env "owner_of doc" "js_entries (rooms_of doc)"])

definition chain_verifies :: "'m mesh_crypto_scheme \<Rightarrow> jsval \<Rightarrow> bool" where
  "chain_verifies cr contact \<longleftrightarrow>
     (case bind_r (contact_device (js_prop contact (js ''certificates''))) (\<lambda>d.
        chat_r (verify_device cr (js_prop contact (js ''identity'')) d (js_prop contact (js ''certificates'')))) of
        Inl e \<Rightarrow> False | Inr key \<Rightarrow> True)"

lemma chain_verifies_iff:
  "chain_verifies cr contact \<longleftrightarrow>
     (\<exists>d key. contact_device (js_prop contact (js ''certificates'')) = Inr d \<and>
        verify_device cr (js_prop contact (js ''identity'')) d (js_prop contact (js ''certificates'')) = Inr key)"
  unfolding chain_verifies_def by (auto simp: bind_r_eq_Inr bind_r_eq_Inl split: sum.splits)

definition endpoint_ok :: "jsval list \<Rightarrow> jsval \<Rightarrow> bool" where
  "endpoint_ok cs e \<longleftrightarrow> js_truthy (js_prop e (js ''endpoint'')) \<and> some_device (js_prop e (js ''deviceId'')) cs = Inr True"

lemma js_truthy_prop: "js_truthy (js_prop v k) \<Longrightarrow> v \<noteq> JUndef \<and> v \<noteq> JNull"
  by (cases v) simp_all

lemma verify_endpoints_iff: "verify_endpoints cs es = Inr () \<longleftrightarrow> (\<forall>e \<in> set es. endpoint_ok cs e)"
  by (induction es) (auto simp: bind_r_eq_Inr get_r_Inr endpoint_ok_def dest: js_truthy_prop)

definition endpoints_ok :: "jsval \<Rightarrow> bool" where
  "endpoints_ok contact \<longleftrightarrow> (\<exists>es. for_of (js_prop contact (js ''endpoints'')) = Inr es \<and>
     (\<forall>e \<in> set es. endpoint_ok (js_list (js_prop contact (js ''certificates''))) e))"

definition wake_ok :: "'m directory_env_scheme \<Rightarrow> jsval \<Rightarrow> int \<Rightarrow> jsval \<Rightarrow> jsval \<Rightarrow> bool" where
  "wake_ok env owner now person wake \<longleftrightarrow> (js_truthy wake \<longrightarrow>
     verify_wake_target_card env wake owner now = Inr wake \<and> js_eq (person_of (js_prop wake (js ''identity''))) person)"

lemma verify_wake_result: "verify_wake_target_card env w owner now = Inr v \<Longrightarrow> v = w"
  unfolding verify_wake_target_card_def Let_def by (auto simp: bind_r_eq_Inr split: if_splits)

lemma verify_contact_iff:
  "verify_contact env owner now p c = Inr () \<longleftrightarrow>
     js_prop c (js ''personId'') = JStr p \<and> person_of (js_prop c (js ''identity'')) = JStr p \<and> JStr p \<noteq> owner \<and>
     chain_verifies env c \<and> endpoints_ok c \<and> wake_ok env owner now (JStr p) (js_prop c (js ''wake''))"
proof -
  have "js_prop c (js ''personId'') = JStr p \<Longrightarrow> c \<noteq> JUndef \<and> c \<noteq> JNull"
    "person_of (js_prop c (js ''identity'')) = JStr p \<Longrightarrow> js_prop c (js ''identity'') \<noteq> JUndef \<and> js_prop c (js ''identity'') \<noteq> JNull"
    using js_prop_str_defined by blast+
  then show ?thesis
    unfolding verify_contact_def Let_def chain_verifies_iff endpoints_ok_def wake_ok_def
    by (auto simp: bind_r_eq_Inr get_r_Inr verify_endpoints_iff dest: verify_wake_result split: if_splits)
qed

lemma wake_ok_later: "wake_ok env owner before person wake \<Longrightarrow> before \<le> now \<Longrightarrow> wake_ok env owner now person wake"
  unfolding wake_ok_def verify_wake_target_card_def Let_def wake_time_ok_def
  by (force simp: bind_r_eq_Inr split: option.splits if_splits)

lemma verify_contact_later:
  "verify_contact env owner before p c = Inr () \<Longrightarrow> before \<le> now \<Longrightarrow> verify_contact env owner now p c = Inr ()"
  by (simp add: verify_contact_iff) (blast intro: wake_ok_later)

section \<open>Operations\<close>

datatype directory_op =
    PutContact contact_input | RenameContact jstring jstring int | RemoveContact jstring | PutRoom room_input int

fun directory_run :: "'m directory_env_scheme \<Rightarrow> jsval \<Rightarrow> directory_op \<Rightarrow> directory_error + jsval" where
  "directory_run env doc (PutContact i) = put_contact env doc i"
| "directory_run env doc (RenameContact p a t) = rename_contact env doc p a t"
| "directory_run env doc (RemoveContact p) = remove_contact doc p"
| "directory_run env doc (PutRoom r t) = put_room env doc r t"

text \<open>Directories and inputs that came as JSON, and a put that is not in the future.\<close>

definition directory_json :: "jsval \<Rightarrow> bool" where
  "directory_json doc \<longleftrightarrow> is_obj (contacts_of doc) \<and> is_obj (rooms_of doc) \<and> js_clone doc = doc"

fun op_json :: "int \<Rightarrow> directory_op \<Rightarrow> bool" where
  "op_json now (PutContact i) \<longleftrightarrow> js_clone (cn_identity i) = cn_identity i \<and> clone_list (cn_certificates i) = cn_certificates i \<and>
     (js_truthy (cn_wake i) \<longrightarrow> js_clone (cn_wake i) = cn_wake i) \<and> cn_now i \<le> now"
| "op_json now _ \<longleftrightarrow> True"

lemma clone_prop: "js_clone v = v \<Longrightarrow> js_prop v k \<noteq> JUndef \<Longrightarrow> js_clone (js_prop v k) = js_prop v k"
  using js_prop_clone [OF js_prop_obj, of v k] by simp

lemma directory_frame:
  assumes "is_obj doc" "is_obj w"
  shows "directory_head doc \<Longrightarrow> directory_head (obj_set (js ''contacts'') w doc)"
    "directory_head doc \<Longrightarrow> directory_head (obj_set (js ''rooms'') w doc)"
  using assms is_obj_truthy [of w] is_obj_truthy [of "obj_set k w doc" for k] by (auto simp: directory_head_def)

lemma entry_of_prop: "is_obj v \<Longrightarrow> js_prop v k \<noteq> JUndef \<Longrightarrow> (k, js_prop v k) \<in> set (js_entries v)"
  by (cases v) (auto split: option.splits dest: map_of_SomeD)

lemma entries_obj_del: "set (js_entries (obj_del k v)) \<subseteq> set (js_entries v)"
  by (cases v) (auto simp: AList.delete_eq)

lemma contacts_later:
  "verify_directory env doc before = Inr d \<Longrightarrow> before \<le> now \<Longrightarrow> e \<in> set (js_entries (contacts_of doc)) \<Longrightarrow>
     verify_contact env (owner_of doc) now (fst e) (snd e) = Inr ()"
  by (auto simp: verify_directory_iff intro: verify_contact_later)

text \<open>Setting a contact keeps a directory verified exactly when the contact verifies.\<close>

lemma set_contact_verified:
  assumes v: "verify_directory env doc before = Inr doc" "before \<le> now" and o: "is_obj (contacts_of doc)"
  shows "verify_directory env (set_contact p c doc) now = Inr (set_contact p c doc) \<longleftrightarrow>
    verify_contact env (owner_of doc) now p c = Inr ()"
proof -
  have d: "is_obj doc" using o js_prop_obj is_obj_defined by blast
  have f: "directory_head (set_contact p c doc)" "contacts_of (set_contact p c doc) = obj_set p c (contacts_of doc)"
    "owner_of (set_contact p c doc) = owner_of doc" "rooms_of (set_contact p c doc) = rooms_of doc"
    using v(1) o d directory_frame(1) [OF d, of "obj_set p c (contacts_of doc)"]
    by (auto simp: set_contact_def verify_directory_iff)
  show ?thesis
    using f v(1) contacts_later [OF v] entries_obj_set_mem [OF o, of p c] entries_obj_set [of p c "contacts_of doc"]
    unfolding verify_directory_iff by fastforce
qed

lemma remove_contact_verified:
  assumes v: "verify_directory env doc before = Inr doc" "before \<le> now" and o: "is_obj (contacts_of doc)"
    and r: "remove_contact doc p = Inr doc'"
  shows "verify_directory env doc' now = Inr doc'"
proof -
  let ?doc = "obj_set (js ''contacts'') (obj_del p (contacts_of doc)) doc"
  have d: "is_obj doc" using o js_prop_obj is_obj_defined by blast
  note later = contacts_later [OF v]
  have "directory_head ?doc" using v(1) o d directory_frame(1) [OF d, of "obj_del p (contacts_of doc)"] by (simp add: verify_directory_iff)
  then have "verify_directory env ?doc now = Inr ?doc"
    using v(1) later o d subsetD [OF entries_obj_del [of p "contacts_of doc"]] by (auto simp: verify_directory_iff)
  moreover have "verify_directory env doc now = Inr doc" using v(1) later by (auto simp: verify_directory_iff)
  ultimately show ?thesis using r by (auto simp: remove_contact_def bind_r_eq_Inr split: if_splits)
qed

lemma put_room_verified:
  assumes v: "verify_directory env doc before = Inr doc" "before \<le> now" and o: "is_obj (rooms_of doc)"
    and r: "put_room env doc room t = Inr doc'"
  shows "verify_directory env doc' now = Inr doc'"
proof -
  let ?participants = "sort (js_uniq (ri_participants room))"
  from r obtain title updated where
    doc': "doc' = obj_set (js ''rooms'') (obj_set (ri_room room)
        (JObj [(js ''roomId'', JStr (ri_room room)), (js ''kind'', JStr (ri_kind room)), (js ''title'', title),
          (js ''participantPersonIds'', JArr (map JStr ?participants)), (js ''updatedAt'', JStr updated)]) (rooms_of doc)) doc"
      (is "_ = obj_set _ (obj_set _ ?room _) _")
    and ok: "owner_of doc \<in> JStr ` set ?participants" "ri_kind room = js ''direct'' \<longrightarrow> length ?participants = 2"
      "ri_kind room = js ''group'' \<longrightarrow> 2 \<le> length ?participants"
    unfolding put_room_def Let_def by (auto simp: bind_r_eq_Inr)
  have d: "is_obj doc" using o js_prop_obj is_obj_defined by blast
  have room: "verify_rooms env (owner_of doc) [(ri_room room, ?room)] = Inr ()"
    using ok by (auto simp: bind_r_eq_Inr get_r_Inr includes_r_def list_ex_iff)
  have "directory_head doc'" using v(1) o d directory_frame(2) [OF d, of "obj_set (ri_room room) ?room (rooms_of doc)"]
    by (simp add: verify_directory_iff doc')
  moreover have "verify_rooms env (owner_of doc) [e] = Inr ()"
    if "e \<in> set (js_entries (obj_set (ri_room room) ?room (rooms_of doc)))" for e
    using subsetD [OF entries_obj_set that] room v(1) by (auto simp: verify_directory_iff)
  ultimately show ?thesis using v(1) contacts_later [OF v] d o
    by (simp add: verify_directory_iff doc' del: verify_rooms.simps)
qed

section \<open>Putting a contact\<close>

lemma some_device_append: "some_device d cs = Inr True \<Longrightarrow> some_device d (cs @ ds) = Inr True"
  by (induction cs) (auto simp: bind_r_eq_Inr split: if_splits)

lemma other_certificates_keep:
  "other_certificates d cs = Inr rest \<Longrightarrow> some_device i cs = Inr True \<Longrightarrow> \<not> js_eq i d \<Longrightarrow> some_device i rest = Inr True"
proof (induction cs arbitrary: rest)
  case (Cons c cs)
  from Cons.prems(1) obtain j tail where j: "get_device c = Inr j" "other_certificates d cs = Inr tail"
    "rest = (if js_eq j d then tail else c # tail)"
    by (auto simp: bind_r_eq_Inr)
  show ?case using Cons j by (auto simp: bind_r_eq_Inr dest: js_eq_eq split: if_splits)
qed simp

lemma other_certificates_first:
  "other_certificates d cs = Inr rest \<Longrightarrow> get_device c = Inr d \<Longrightarrow> js_eq d d \<Longrightarrow> some_device d (rest @ c # ds) = Inr True"
  by (induction cs arbitrary: rest) (auto simp: bind_r_eq_Inr split: if_splits)

lemma other_endpoints_subset:
  "other_endpoints d es = Inr rest \<Longrightarrow> e \<in> set rest \<Longrightarrow> e \<in> set es \<and> \<not> js_eq (js_prop e (js ''deviceId'')) d"
  by (induction es arbitrary: rest) (auto simp: bind_r_eq_Inr get_r_Inr split: if_splits)

lemma stored_list_cases:
  assumes "stored_list v k = Inr vs" "js_prop v k \<noteq> JUndef \<Longrightarrow> js_clone (js_prop v k) = js_prop v k"
  shows "js_list (js_prop v k) = vs" "vs = [] \<or> js_prop v k = JArr vs"
  using assms by (cases "js_prop v k"; auto simp: stored_list_def js_or_def)+

lemma contact_record_props:
  "js_prop (contact_record person identity cs alias es wake state created updated) (js ''personId'') = person"
  "js_prop (contact_record person identity cs alias es wake state created updated) (js ''identity'') = js_clone identity"
  "js_prop (contact_record person identity cs alias es wake state created updated) (js ''certificates'') = JArr cs"
  "js_prop (contact_record person identity cs alias es wake state created updated) (js ''endpoints'') = JArr es"
  "js_prop (contact_record person identity cs alias es wake state created updated) (js ''wake'') =
     (if js_truthy wake then js_clone wake else JUndef)"
  by (simp_all add: contact_record_def)

lemma verify_device_person: "verify_device cr identity d cs = Inr k \<Longrightarrow> \<exists>i. person_of identity = JStr i"
  by (auto simp: verify_device_def bind_r_eq_Inr split: if_splits)

text \<open>The endpoints of the new record are those of the old one for other devices, and the new one.\<close>

lemma contact_endpoints_ok:
  assumes "contact_endpoints env previous d endpoint = Inr es" "contact_certificates previous d cs = Inr certificates"
    and "cs = c # chain" "clone_list cs = cs" "get_device c = Inr d" "js_eq d d" "js_trim endpoint \<noteq> []"
    and json: "\<And>k. js_prop previous k \<noteq> JUndef \<Longrightarrow> js_clone (js_prop previous k) = js_prop previous k"
    and old: "previous \<noteq> JUndef \<Longrightarrow> endpoints_ok previous"
  shows "\<forall>e \<in> set es. endpoint_ok certificates e"
proof
  fix e assume e: "e \<in> set es"
  from assms(2) obtain stored rest where s: "stored_list previous (js ''certificates'') = Inr stored"
    "other_certificates d stored = Inr rest" "certificates = rest @ cs"
    by (auto simp: contact_certificates_def bind_r_eq_Inr assms(4))
  from assms(1) obtain olds others where o: "stored_list previous (js ''endpoints'') = Inr olds" "other_endpoints d olds = Inr others"
    "set es = insert (JObj [(js ''deviceId'', d), (js ''endpoint'', JStr (js_trim endpoint))]) (set others)"
    by (auto simp: contact_endpoints_def sort_endpoints_def bind_r_eq_Inr split: if_splits)
  have new: "some_device d certificates = Inr True"
    using other_certificates_first [OF s(2) assms(5,6), of chain] s(3) assms(3) by simp
  have "endpoint_ok certificates e" if "e \<in> set others"
  proof -
    have m: "e \<in> set olds" "\<not> js_eq (js_prop e (js ''deviceId'')) d" using other_endpoints_subset [OF o(2) that] by auto
    then have es: "js_prop previous (js ''endpoints'') = JArr olds" using stored_list_cases(2) [OF o(1) json] by auto
    then have "previous \<noteq> JUndef" by auto
    then have "endpoint_ok (js_list (js_prop previous (js ''certificates''))) e" using es old m(1) by (auto simp: endpoints_ok_def for_of_def)
    moreover from this have "js_list (js_prop previous (js ''certificates'')) = stored"
      by (intro stored_list_cases(1) [OF s(1) json])
    ultimately show ?thesis using other_certificates_keep [OF s(2) _ m(2)] some_device_append s(3) by (auto simp: endpoint_ok_def)
  qed
  with e o(3) new assms(7) show "endpoint_ok certificates e" by (auto simp: endpoint_ok_def)
qed

lemma contact_wake_ok:
  assumes "contact_wake env doc previous i = Inr wake" "person_of (cn_identity i) = JStr p" "cn_now i \<le> now"
    and "js_truthy (cn_wake i) \<Longrightarrow> js_clone (cn_wake i) = cn_wake i"
    and "js_prop previous (js ''wake'') \<noteq> JUndef \<Longrightarrow> js_clone (js_prop previous (js ''wake'')) = js_prop previous (js ''wake'')"
    and "previous \<noteq> JUndef \<Longrightarrow> wake_ok env (owner_of doc) now (JStr p) (js_prop previous (js ''wake''))"
  shows "wake_ok env (owner_of doc) now (JStr p) (if js_truthy wake then js_clone wake else JUndef)"
proof (cases "js_truthy wake")
  case True
  then have person: "js_eq (person_of (js_prop wake (js ''identity''))) (JStr p)"
    and cases: "(js_truthy (cn_wake i) \<and> verify_wake_target_card env (cn_wake i) (owner_of doc) (cn_now i) = Inr wake) \<or>
      wake = js_prop previous (js ''wake'')"
    using assms(1,2) by (auto simp: contact_wake_def bind_r_eq_Inr get_r_Inr split: if_splits)
  from cases show ?thesis
  proof
    assume w: "js_truthy (cn_wake i) \<and> verify_wake_target_card env (cn_wake i) (owner_of doc) (cn_now i) = Inr wake"
    then have "wake = cn_wake i" using verify_wake_result by blast
    then show ?thesis using w person assms(3,4) wake_ok_later [of env "owner_of doc" "cn_now i" "JStr p" wake now]
      by (auto simp: wake_ok_def)
  next
    assume w: "wake = js_prop previous (js ''wake'')"
    then have "js_prop previous (js ''wake'') \<noteq> JUndef" "previous \<noteq> JUndef" using True by auto
    then show ?thesis using assms(5,6) w True by simp
  qed
qed (simp add: wake_ok_def)

lemma put_contact_verified:
  assumes v: "verify_directory env doc before = Inr doc" "before \<le> now" and json: "directory_json doc" "op_json now (PutContact i)"
    and put: "put_contact env doc i = Inr doc'"
  shows "verify_directory env doc' now = Inr doc' \<longleftrightarrow>
    chain_verifies env (js_prop (contacts_of doc') (js_text (person_of (cn_identity i))))"
proof -
  let ?identity = "cn_identity i" and ?cs = "cn_certificates i"
  from put obtain d previous updated es certificates wake label k where
    a: "\<not> js_eq (person_of ?identity) (owner_of doc)" "js_trim (cn_endpoint i) \<noteq> []" "first_device ?cs = Inr d"
      "verify_device env ?identity d (JArr ?cs) = Inr k" "previous = js_prop (contacts_of doc) (js_text (person_of ?identity))"
      "js_truthy d" "contact_endpoints env previous d (cn_endpoint i) = Inr es" "contact_certificates previous d ?cs = Inr certificates"
      "contact_wake env doc previous i = Inr wake"
    and doc': "doc' = set_contact (js_text (person_of ?identity)) (contact_record (person_of ?identity) ?identity certificates label es
      wake (cn_state i) (js_or (js_prop previous (js ''createdAt'')) (JStr updated)) updated) doc" (is "_ = set_contact _ ?new _")
    unfolding put_contact_def by (auto simp: bind_r_eq_Inr get_r_Inr)
  obtain p where p: "person_of ?identity = JStr p" using verify_device_person [OF a(4)] by blast
  have o: "is_obj (contacts_of doc)" "js_clone doc = doc" using json(1) by (auto simp: directory_json_def)
  have d: "is_obj doc" using o(1) js_prop_obj is_obj_defined by blast
  have "js_clone (contacts_of doc) = contacts_of doc" using clone_prop o is_obj_defined by blast
  then have stored: "js_clone (js_prop previous k) = js_prop previous k" if "js_prop previous k \<noteq> JUndef" for k
    using that clone_prop a(5) by (metis js_prop.simps(2))
  have old: "verify_contact env (owner_of doc) now p previous = Inr ()" if "previous \<noteq> JUndef"
    using contacts_later [OF v, of "(p, previous)"] entry_of_prop [OF o(1), of p] that a(5) p by simp
  obtain c chain where c: "?cs = c # chain" "get_device c = Inr d"
    using a(3,6) by (auto simp: first_device_def split: list.splits)
  obtain t where t: "d = JStr t" using a(4) by (auto simp: verify_device_def bind_r_eq_Inr split: if_splits jsval.splits)
  have "\<forall>e \<in> set es. endpoint_ok certificates e"
    using contact_endpoints_ok [OF a(7,8) c(1) _ c(2) _ a(2) stored] json(2) t old by (auto simp: verify_contact_iff)
  moreover have "wake_ok env (owner_of doc) now (JStr p) (if js_truthy wake then js_clone wake else JUndef)"
    using contact_wake_ok [OF a(9) p _ _ stored] json(2) old by (auto simp: verify_contact_iff)
  ultimately have "verify_contact env (owner_of doc) now p ?new = Inr () \<longleftrightarrow> chain_verifies env ?new"
    using p a(1) json(2) by (auto simp: verify_contact_iff contact_record_props endpoints_ok_def for_of_def)
  then show ?thesis using set_contact_verified [OF v o(1), of p ?new] doc' p o(1) d by (simp add: set_contact_def)
qed

lemma rename_contact_verified:
  assumes v: "verify_directory env doc before = Inr doc" "before \<le> now" and o: "is_obj (contacts_of doc)"
    and r: "rename_contact env doc p a t = Inr doc'"
  shows "verify_directory env doc' now = Inr doc'"
proof -
  let ?old = "js_prop (contacts_of doc) p"
  from r obtain label updated where ok: "js_truthy ?old"
    and doc': "doc' = set_contact p (obj_set (js ''updatedAt'') (JStr updated) (obj_set (js ''alias'') label ?old)) doc"
      (is "_ = set_contact _ ?new _")
    unfolding rename_contact_def by (auto simp: bind_r_eq_Inr get_r_Inr)
  then have "?old \<noteq> JUndef" by auto
  then have old: "verify_contact env (owner_of doc) now p ?old = Inr ()"
    using contacts_later [OF v, of "(p, ?old)"] entry_of_prop [OF o] by simp
  then have "is_obj ?old" using js_prop_obj [of ?old "js ''personId''"] by (auto simp: verify_contact_iff)
  then have "js_prop ?new k = js_prop ?old k" if "k \<noteq> js ''updatedAt''" "k \<noteq> js ''alias''" for k using that by simp
  then have "verify_contact env (owner_of doc) now p ?new = Inr ()"
    using old by (simp add: verify_contact_iff chain_verifies_def endpoints_ok_def)
  then show ?thesis using set_contact_verified [OF v o] doc' by simp
qed

text \<open>
  C10. Every operation on a verified directory yields a directory that passes \<open>verifyDirectory\<close> again, at the same time
  or later; only a contact that was put must, in addition, have a device chain that verifies in the list of certificates
  it is stored with, and then the directory is verified exactly when it does. Inputs and the stored directory are JSON.
\<close>

theorem directory_stays_verified:
  assumes "verify_directory env doc before = Inr doc" "before \<le> now" "directory_json doc" "op_json now op"
    and "directory_run env doc op = Inr doc'"
  shows "verify_directory env doc' now = Inr doc' \<longleftrightarrow>
    (case op of PutContact i \<Rightarrow> chain_verifies env (js_prop (contacts_of doc') (js_text (person_of (cn_identity i)))) | _ \<Rightarrow> True)"
proof -
  have "is_obj (contacts_of doc)" "is_obj (rooms_of doc)" using assms(3) by (auto simp: directory_json_def)
  then show ?thesis
    using assms put_contact_verified [OF assms(1,2,3)] rename_contact_verified [OF assms(1,2)]
      remove_contact_verified [OF assms(1,2)] put_room_verified [OF assms(1,2)]
    by (cases op) auto
qed

section \<open>Certificates accumulate\<close>

text \<open>
  \<open>putContact\<close> drops the stored certificates of the first device only, so every put of a device with a chain leaves one
  more copy of the rest of the chain, and \<open>verifyDirectory\<close> refuses more than 32 certificates.
\<close>

fun put_times :: "'m directory_env_scheme \<Rightarrow> contact_input \<Rightarrow> nat \<Rightarrow> jsval \<Rightarrow> directory_error + jsval" where
  "put_times env i 0 doc = Inr doc"
| "put_times env i (Suc n) doc = bind_r (put_times env i n doc) (\<lambda>d. put_contact env d i)"

lemma clone_idempotent:
  "js_clone (js_clone v) = js_clone v" "clone_list (clone_list vs) = clone_list vs" "clone_props (clone_props ps) = clone_props ps"
proof (induction v and vs and ps rule: js_clone_clone_list_clone_props.induct)
  case (7 bs)
  have "clone_props (map (\<lambda>(i, b). (dec_nat i, JNum (uint b))) xs) = map (\<lambda>(i, b). (dec_nat i, JNum (uint b))) xs"
    for xs :: "(nat \<times> 8 word) list"
    by (induction xs) auto
  then show ?case by simp
next
  case (13 k v ps)
  have "js_clone v \<noteq> JUndef" by (cases v) simp_all
  then show ?case using 13 by simp
qed simp_all

definition foreign :: "jsval \<Rightarrow> jsval list \<Rightarrow> nat" where
  "foreign d cs = length (filter (\<lambda>c. get_device c \<noteq> Inr d) cs)"

lemma other_certificates_foreign: "other_certificates (JStr t) cs = Inr rest \<Longrightarrow> length rest = foreign (JStr t) cs \<and> foreign (JStr t) rest = length rest"
  by (induction cs arbitrary: rest) (auto simp: foreign_def bind_r_eq_Inr split: if_splits)

lemma clone_list_iff: "clone_list xs = xs \<longleftrightarrow> (\<forall>x \<in> set xs. js_clone x = x)"
  by (induction xs) auto

lemma stored_list_clone: "stored_list v k = Inr vs \<Longrightarrow> clone_list vs = vs"
  using clone_idempotent(1) [of "js_or (js_prop v k) (JArr [])"] by (auto simp: stored_list_def split: jsval.splits)

lemma other_certificates_set: "other_certificates d cs = Inr rest \<Longrightarrow> set rest \<subseteq> set cs"
  by (induction cs arbitrary: rest) (auto simp: bind_r_eq_Inr split: if_splits)

lemma put_contact_certificates:
  assumes "put_contact env doc i = Inr doc'" "is_obj (contacts_of doc)" "clone_list (cn_certificates i) = cn_certificates i"
    and "person_of (cn_identity i) = JStr p" "cn_certificates i = c # chain" "get_device c = Inr (JStr t)"
  obtains certificates where "js_prop (js_prop (contacts_of doc') p) (js ''certificates'') = JArr certificates"
    "clone_list certificates = certificates" "is_obj (contacts_of doc')"
    "foreign (JStr t) chain \<le> foreign (JStr t) certificates" "foreign (JStr t) certificates < length certificates"
    "\<And>old. js_prop (js_prop (contacts_of doc) p) (js ''certificates'') = JArr old \<Longrightarrow> clone_list old = old \<Longrightarrow>
       foreign (JStr t) certificates = foreign (JStr t) old + foreign (JStr t) chain"
proof -
  let ?previous = "js_prop (contacts_of doc) p"
  from assms(1,4-6) obtain certificates stored rest contact where
    s: "stored_list ?previous (js ''certificates'') = Inr stored" "other_certificates (JStr t) stored = Inr rest"
      "certificates = rest @ c # chain" "doc' = set_contact p contact doc" "js_prop contact (js ''certificates'') = JArr certificates"
    unfolding put_contact_def contact_certificates_def assms(3)
    by (auto simp: bind_r_eq_Inr get_r_Inr first_device_def assms(3) contact_record_props)
  have d: "is_obj doc" using assms(2) js_prop_obj is_obj_defined by blast
  have n: "length rest = foreign (JStr t) stored" "foreign (JStr t) rest = length rest"
    using other_certificates_foreign [OF s(2)] by auto
  have "foreign (JStr t) chain \<le> length chain" by (simp add: foreign_def)
  moreover have "foreign (JStr t) certificates = length rest + foreign (JStr t) chain"
    using n assms(6) s(3) by (simp add: foreign_def)
  moreover have "clone_list certificates = certificates"
    using stored_list_clone [OF s(1)] other_certificates_set [OF s(2)] assms(3,5) s(3) by (auto simp: clone_list_iff)
  moreover have "stored = old" if "js_prop ?previous (js ''certificates'') = JArr old" "clone_list old = old" for old
    using s(1) that by (simp add: stored_list_def js_or_def)
  ultimately show thesis using that [of certificates] s(3-5) n assms(2) d by (auto simp: set_contact_def)
qed

lemma repeated_puts_accumulate:
  assumes "clone_list (cn_certificates i) = cn_certificates i" "person_of (cn_identity i) = JStr p"
    and "cn_certificates i = c # chain" "get_device c = Inr (JStr t)" "0 < foreign (JStr t) chain" "is_obj (contacts_of doc)"
  shows "put_times env i n doc = Inr doc' \<Longrightarrow> is_obj (contacts_of doc') \<and> (0 < n \<longrightarrow>
    (\<exists>cs. js_prop (js_prop (contacts_of doc') p) (js ''certificates'') = JArr cs \<and> clone_list cs = cs \<and>
       n \<le> foreign (JStr t) cs \<and> foreign (JStr t) cs < length cs))"
proof (induction n arbitrary: doc')
  case (Suc n)
  from Suc.prems obtain d where d: "put_times env i n doc = Inr d" "put_contact env d i = Inr doc'" by (auto simp: bind_r_eq_Inr)
  obtain cs where cs: "js_prop (js_prop (contacts_of doc') p) (js ''certificates'') = JArr cs" "clone_list cs = cs"
    "is_obj (contacts_of doc')" "foreign (JStr t) chain \<le> foreign (JStr t) cs" "foreign (JStr t) cs < length cs"
    "\<And>old. js_prop (js_prop (contacts_of d) p) (js ''certificates'') = JArr old \<Longrightarrow> clone_list old = old \<Longrightarrow>
       foreign (JStr t) cs = foreign (JStr t) old + foreign (JStr t) chain"
    using put_contact_certificates [OF d(2) conjunct1 [OF Suc.IH [OF d(1)]] assms(1-4)] by blast
  have "Suc n \<le> foreign (JStr t) cs"
  proof (cases n)
    case (Suc m)
    then obtain old where "js_prop (js_prop (contacts_of d) p) (js ''certificates'') = JArr old" "clone_list old = old"
      "n \<le> foreign (JStr t) old"
      using Suc.IH [OF d(1)] by auto
    then show ?thesis using cs(6) assms(5) by simp
  qed (use cs(4) assms(5) in simp)
  with cs show ?case by blast
qed (simp add: assms(6))

lemma repeated_puts_break_directory:
  assumes "clone_list (cn_certificates i) = cn_certificates i" "person_of (cn_identity i) = JStr p"
    and "cn_certificates i = c # chain" "get_device c = Inr (JStr t)" "0 < foreign (JStr t) chain" "is_obj (contacts_of doc)"
    and "put_times env i n doc = Inr doc'" "32 \<le> n"
  shows "verify_directory env doc' now \<noteq> Inr d"
proof
  assume v: "verify_directory env doc' now = Inr d"
  from repeated_puts_accumulate [OF assms(1-7)] assms(8) obtain cs where
    cs: "is_obj (contacts_of doc')" "js_prop (js_prop (contacts_of doc') p) (js ''certificates'') = JArr cs" "32 < length cs"
    by fastforce
  then have "js_prop (contacts_of doc') p \<noteq> JUndef" by auto
  then have "chain_verifies env (js_prop (contacts_of doc') p)"
    using contacts_later [OF v order_refl entry_of_prop [OF cs(1)]] by (simp add: verify_contact_iff)
  with cs(2,3) show False
    by (auto simp: chain_verifies_iff verify_device_def verify_device_certificate_chain_def bind_r_eq_Inr split: if_splits jsval.splits)
qed

section \<open>A directory\<close>

definition directory_sample :: directory_env where
  "directory_sample = \<lparr> cr_sha256 = (\<lambda>bs. take 32 (bs @ replicate 32 0)), cr_public = (\<lambda>k. take 32 (k @ replicate 32 0)),
     cr_sign = (\<lambda>k input. []), cr_verify = (\<lambda>key sig input. True), cr_number = sample_number,
     ch_parse = sample_parse, ch_iso = sample_iso, ch_locale = (\<lambda>a b. int (length a) - int (length b)),
     ch_load = (\<lambda>bs. None), ch_save = (\<lambda>v. []), ch_merge = (\<lambda>a b. a),
     de_url = (\<lambda>s. None), de_decode = map ucast, de_json_parse = (\<lambda>s. None),
     de_route_payload = (\<lambda>v. Inr ()), de_route = (\<lambda>v k t b. Inr ()) \<rparr>"

lemma directory_sample_fields [simp]:
  "cr_number directory_sample = sample_number" "ch_parse directory_sample = sample_parse" "ch_iso directory_sample = sample_iso"
  "cr_verify directory_sample key sig input"
  by (simp_all add: directory_sample_def)

lemma directory_key_id [simp]: "public_key_id directory_sample (JStr (ex_id n)) = Inr (ex_id n)"
  by (simp add: public_key_id_def directory_sample_def sha256_base64url_def) (simp add: ex_id_def)

lemma directory_device [simp]:
  "verify_device directory_sample (sample_identity n) (JStr (ex_id d)) (JArr [sample_certificate n d JNull (ex_id n)]) = Inr (JStr (ex_id d))"
proof -
  let ?c = "sample_certificate n d JNull (ex_id n)"
  have "json_ok ?c" by (simp add: sample_certificate_def)
  then obtain h where h: "certificate_hash directory_sample ?c = Inr h"
    by (simp add: certificate_hash_def hash_json_def canonical_text_ok)
  have v: "verify_envelope directory_sample ?c (JStr (ex_id n)) domain = Inr True" for domain
    by (simp add: verify_envelope_def import_key_def js_get_def canonicalize_signature_json_def canon_text payload_kind_def
        sample_certificate_def del: base64url_Nil)
  have "chain_loop directory_sample \<lparr> pi_person = ex_id n, pi_key = ex_id n \<rparr> domain hashes ?c [] = Inr ()" for domain hashes
    using v by (subst chain_loop.simps) (simp add: js_get_def sample_certificate_def)
  then show ?thesis
    by (simp add: verify_device_def verify_device_certificate_chain_def by_hash_def h js_get_def) (simp add: sample_certificate_def)
qed

definition sample_input :: contact_input where
  "sample_input = \<lparr> cn_identity = sample_identity 2, cn_certificates = [sample_certificate 2 12 JNull (ex_id 2)], cn_endpoint = js ''e'',
     cn_wake = JUndef, cn_alias = Some (js ''Bo''), cn_state = js ''accepted'', cn_now = 0 \<rparr>"

definition sample_contact :: jsval where
  "sample_contact = contact_record (JStr (ex_id 2)) (sample_identity 2) [sample_certificate 2 12 JNull (ex_id 2)] (JStr (js ''Bo''))
     [JObj [(js ''deviceId'', JStr (ex_id 12)), (js ''endpoint'', JStr (js ''e''))]] JUndef (js ''accepted'')
     (JStr (sample_iso 0)) (sample_iso 0)"

lemma ex_id_not_Nil [simp]: "ex_id n \<noteq> []"
  using length_ex_id [of n] by fastforce

lemma sample_put_contact:
  "put_contact directory_sample (create_directory (sample_profile 1 11)) sample_input =
     Inr (set_contact (ex_id 2) sample_contact (create_directory (sample_profile 1 11)))"
proof -
  have [simp]: "js_trim (js ''e'') = js ''e''" "clean_label (js ''Bo'') v = Inr (JStr (js ''Bo''))" for v
    by (simp_all add: clean_label_def label_length_def js_trim_def js_space_def js_def)
  have [simp]: "directory_iso directory_sample 0 = Inr (sample_iso 0)"
    by (simp add: directory_iso_def iso_text_def assert_r_def undec_def)
  show ?thesis
    by (simp add: put_contact_def create_directory_def sample_input_def sample_contact_def get_r_Inr get_r_def js_get_def first_device_def
        assert_r_def contact_endpoints_def contact_certificates_def stored_list_def js_or_def sort_endpoints_def js_sort_def contact_wake_def
        del: sample_iso_0)
qed

theorem directory_stays_verified_witness:
  "\<exists>doc'. directory_run directory_sample (create_directory (sample_profile 1 11)) (PutContact sample_input) = Inr doc' \<and>
     verify_directory directory_sample doc' 7 = Inr doc'"
proof -
  let ?doc = "create_directory (sample_profile 1 11)"
  let ?doc' = "set_contact (ex_id 2) sample_contact ?doc"
  have "verify_directory directory_sample ?doc 0 = Inr ?doc"
    by (simp add: verify_directory_iff create_directory_def directory_head_def)
  moreover have "directory_json ?doc" "op_json 7 (PutContact sample_input)"
    by (simp_all add: directory_json_def create_directory_def sample_input_def)
  moreover have "directory_run directory_sample ?doc (PutContact sample_input) = Inr ?doc'" by (simp add: sample_put_contact)
  moreover have "chain_verifies directory_sample (js_prop (contacts_of ?doc') (js_text (person_of (cn_identity sample_input))))"
    by (simp add: chain_verifies_iff set_contact_def create_directory_def sample_contact_def contact_record_props contact_device_def
        first_device_def sample_input_def)
  ultimately show ?thesis
    using directory_stays_verified [of directory_sample ?doc 0 7 "PutContact sample_input" ?doc'] by simp
qed

end
