(* ===== verification/Spec2Isabelle.thy ===== *)
theory Spec2Isabelle
  imports Read_Budget Durable_Replica_Store Replica_Engine Peer_Limits Contact_Properties Calls Instance_Lease Blob_Properties Blob_Transfer Directory_Properties
begin

text \<open>
  Verification of the meta-mesh packages: peer-to-peer, local-first building blocks in TypeScript
  (\<open>src/packages/*/src\<close>) over a Rust core compiled to wasm. An application stores its data in key-value stores of the
  browser, signs what it says with device keys under an identity, admits what its peers say only after verifying it,
  replicates changes through an outbox, and reads from its peers within a budget. The development follows these parts.

  \<^bold>\<open>Values.\<close> A JavaScript string is its list of UTF-16 code units (\<open>jstring\<close>), bytes are \<open>8 word\<close> lists, and a value that
  arrives from another peer or from a store is an untyped \<open>jsval\<close>, so that each check the code makes on it is a check
  of the model. A function that may throw returns a sum whose left side names the error; an asynchronous method on a
  shared state is an action from the state to a result and the state afterwards, and concurrent calls are sequences of
  such actions in the order in which they take effect.

  \<^bold>\<open>Theories and sources.\<close>
  \<^item> \<open>Mesh_Prelude\<close>, \<open>Js_Object\<close>, \<open>Unicode_Text\<close>: strings, numbers, untyped values, results, actions; property access,
    spread and assignment; \<open>TextEncoder\<close> (UTF-8) and \<open>JSON.stringify\<close> of strings. \<open>Json_Size\<close> bounds the size of
    serialized values from their shape.
  \<^item> \<open>Read_Budget\<close> (\<open>mesh-transport/src/readBudget.ts\<close>): leases, reservations and waiting requests of one peer. The
    counters are the sum of the live reservations and stay within the limits, a waiting request that fits is granted by
    the next release, and every queued promise is settled once (C1 to C3).
  \<^item> \<open>Mesh_Store\<close> (\<open>mesh-browser-store/src/index.ts\<close>, stores): the interface \<open>MeshStore\<close>, the memory store and the
    IndexedDB store with the opening of its database. The locale \<open>mesh_store\<close> is the contract of the interface and both
    stores interpret it; clients cannot tell them apart, scans are complete, transactions are atomic, and an opened
    database has its stores (C4 to C7).
  \<^item> \<open>Durable_Replica_Store\<close> (same file, client classes): admission of changes, snapshots, outbox claims and the
    invalidation channel, over any \<open>mesh_store\<close> (locale \<open>replica_store\<close>, interpreted for both stores). Admitted changes
    are never altered and an unexpired claim excludes other owners (C8, C9); an announcement triggers a resume exactly
    when the heads differ. The Rust functions \<open>planChangeAdmission\<close> and \<open>transitionOutboxClaim\<close> that the classes call
    are modelled with them.
  \<^item> \<open>Replica_Engine\<close> (\<open>mesh-replication/src/replicaEngine.ts\<close>): the outbox, cursor and receipt algorithm over ports that
    belong to the host. Commits advance by one generation, the cursor never goes back, a saved upload is acknowledged
    only after its receipt was verified (C11, C12).
  \<^item> \<open>Base64url\<close>, \<open>Canonical_Json\<close>, \<open>Signature_Input\<close>, \<open>Identity_Envelope\<close> (\<open>mesh-identity/src/index.ts\<close>, encodings and
    envelopes): base64url round trip, canonical text determines the value, the input of a signature determines domain,
    kind and payload, and what \<open>signEnvelope\<close> signs \<open>verifyEnvelope\<close> accepts (C13 to C16).
  \<^item> \<open>Identity_Authority\<close>, \<open>Authority_Soundness\<close>, \<open>Authority_Merge\<close>, \<open>Authority_Examples\<close> (same file, devices): certificate
    chains, revocations, authority views and their merge. A verified key is certified up to the identity, a revoked
    device and its descendants are blocked, walking a chain ends, a merged view keeps every revocation; a catalog of more
    than 32 certificates cannot be verified although 256 are admitted (C17 to C21).
  \<^item> \<open>Peer_Records\<close>, \<open>Peer_Store\<close>, \<open>Peer_Safety\<close>, \<open>Peer_Properties\<close>, \<open>Peer_Limits\<close> (\<open>mesh-peer-store/src/index.ts\<close>): records
    and their validation, and every method of the class \<open>PeerStore\<close> as a transaction. Failed operations write nothing,
    authorities are never lost, sequences grow, node secrets are stable, removal of a workspace is exact, credentials keep
    their security records; two valid authorities can merge into a record that is never readable again (C22 to C28).
  \<^item> \<open>Signed_Records\<close> (profiles, device verification, texts, times, and \<open>mesh-blob/src/descriptor.ts\<close>), \<open>Messaging\<close> and
    \<open>Messaging_Properties\<close> (\<open>mesh-messaging/src/index.ts\<close>): a verified conversation stays verified under
    appended messages and added participants; a message id that is a number breaks it, and a grant signed by its own
    subject is accepted (C29 to C32, instances in \<open>Chat_Examples\<close>).
  \<^item> \<open>Instance_Lease\<close> (\<open>mesh-instance/src/index.ts\<close>): slot and leader leases refine a table of slots, live leases are
    exclusive, and instances have separate seed material (C33 to C35).
  \<^item> \<open>Contacts\<close>, \<open>Contact_Properties\<close> (\<open>mesh-contact/src/index.ts\<close>): an appended message keeps the channel verified up to
    the limit of 10000 messages; a channel with the certificate of an enrolled device never verifies (C36, C37).
  \<^item> \<open>Calls\<close> (\<open>mesh-calling/src/index.ts\<close>): call sessions and signals; every reachable session is well formed (C38).
  \<^item> \<open>Blob_Stream\<close>, \<open>Blob_Properties\<close>, \<open>Blob_Transfer\<close> (\<open>mesh-blob/src/stream.ts\<close>, \<open>streamStore.ts\<close>, \<open>index.ts\<close>): chunking,
    verification, publication and reading of blobs in a mesh store, and the requests and responses of transfers. A
    stream that is read to its end is authentic whatever the store holds, and what was published comes back, on every
    \<open>mesh_store\<close> (locale \<open>blob_store\<close>, interpreted for both stores) (C39, C40).
  \<^item> \<open>Directory\<close>, \<open>Directory_Properties\<close> (\<open>mesh-directory/src/index.ts\<close>): contacts, rooms, wake targets and contact cards.
    A verified directory stays verified under every operation, for a put exactly when the stored chain verifies (C10);
    puts of a device with a chain accumulate certificates until the directory is refused.

  \<^bold>\<open>Parameters.\<close> Code that is not in the repository's sources, and the host, are arguments: SHA-256, Ed25519 and the text
  of numbers (\<open>mesh_crypto\<close>), dates, locale comparison and Automerge documents (\<open>chat_env\<close>), BLAKE3 and
  \<open>JSON.parse\<close> (\<open>blob_env\<close>), URLs, text decoding and the runtime's checks of device routes (\<open>directory_env\<close>),
  the runtime of the peer store (\<open>peer_env\<close>), the ports of the replica engine
  (\<open>replica_ports\<close>), IndexedDB's open request, random identifiers and the time. A theorem names what it needs of
  them: \<open>ed25519\<close> (a signature verifies with its public key, keys have 32 bytes), \<open>iso_dates\<close> (an ISO text is read back),
  the absence of a SHA-256 collision among the values at hand. The instances of the theorems use concrete functions.

  \<^bold>\<open>Bounds and termination.\<close> Loops that search or walk (\<open>pad4\<close>, \<open>release_loop\<close>, \<open>chain_loop\<close>,
  \<open>fill_buffer\<close>) are total functions with a termination proof, and a loop with a fixed number of attempts
  (\<open>open_attempts\<close>) counts them down. Only the loop of a client that pages through a scan (\<open>drain_scan\<close>) has fuel;
  one step more than there are keys is shown to be enough. Integers are unbounded where the source checks \<open>Number.isSafeInteger\<close>, and the
  64-bit limit of the Rust core is written out where it applies (\<open>max_i64\<close>). The limits of the source (256 certificates,
  32 links of a chain, 512 security records, 10000 messages, 256 KiB chunks) are the model's.

  \<^bold>\<open>Not modelled.\<close>
  \<^item> The wasm transport, its stream framing and the network loops of transfers and pairing: their behaviour is that of
    streams, timers and abort signals of the platform, and of Rust code behind generated bindings.
  \<^item> The clients of the Rust runtime (\<open>rusty*.ts\<close>, \<open>runtime.ts\<close>, \<open>automerge.ts\<close>, \<open>protocol.ts\<close>) and the browser sessions
    of \<open>mesh-runtime\<close>: they forward to the wasm module or to the Phoenix service and to DOM events.
  \<^item> Recovery phrases, profiles and service login of \<open>mesh-identity\<close>: encryption, key wrapping and HTTP exchanges of the
    platform; \<open>eff-long.ts\<close> is a constant.
  \<^item> Workspace records: the package builds payloads and leaves every check to the wasm runtime. The history archive,
    its preparation journal and the resource protocol build on the envelopes and stores above with encryption and HTTP
    of the platform; their own records are not part of this development.
  \<^item> The derivation of rendezvous seeds in the directory: HKDF and key export of the platform.
  \<^item> The Rust crates, except for the two functions named above, and the demonstration site.
\<close>

end
